(* ===== verification/Prelude.thy ===== *)
theory Prelude
  imports Main "HOL-Library.Finite_Map" "HOL-Library.List_Lexorder" "HOL-Library.Char_ord"
begin

text \<open>
  Shared vocabulary of the development: the outcome of a Go call (it returns, it panics, or it
  waits on a full channel), the early-exit combinator that threads outcomes through a function
  body, and the generic facts on finite maps and lists that the component theories share.
\<close>

section \<open>Collections of rewrite rules\<close>

named_theorems go_defs \<open>definitions of the runtime helpers, unfolded when a model is evaluated\<close>
named_theorems op_defs \<open>definitions of the store operations\<close>
named_theorems cmd_defs \<open>definitions of the command objects\<close>

section \<open>Outcomes of a Go call\<close>

text \<open>
  A call that returns is \<open>Ret\<close>. A run-time panic is \<open>Panic\<close>: nothing under \<open>src/\<close> calls
  \<open>recover\<close>, so a panic in any goroutine ends the process. A send on a full channel waits for
  a receiver: \<open>Block\<close>.
\<close>

datatype 'a outcome = Ret 'a | Panic | Block

fun andThen :: "'a outcome \<Rightarrow> ('a \<Rightarrow> 'b outcome) \<Rightarrow> 'b outcome" where
  "andThen (Ret x) f = f x"
| "andThen Panic f = Panic"
| "andThen Block f = Block"

fun returns :: "'a outcome \<Rightarrow> bool" where
  "returns (Ret _) = True"
| "returns _ = False"

lemma andThen_Ret_right [simp]: "andThen m Ret = m"
  by (cases m) simp_all

lemma andThen_assoc: "andThen (andThen m f) g = andThen m (\<lambda>x. andThen (f x) g)"
  by (cases m) simp_all

lemma andThen_eq_Ret: "andThen m f = Ret y \<longleftrightarrow> (\<exists>x. m = Ret x \<and> f x = Ret y)"
  by (cases m) simp_all

lemma andThen_eq_Panic: "andThen m f = Panic \<longleftrightarrow> m = Panic \<or> (\<exists>x. m = Ret x \<and> f x = Panic)"
  by (cases m) simp_all

lemma andThen_RetE [elim]:
  assumes "andThen m f = Ret y"
  obtains x where "m = Ret x" and "f x = Ret y"
  using assms by (auto simp: andThen_eq_Ret)

lemma returns_iff: "returns m \<longleftrightarrow> (\<exists>x. m = Ret x)"
  by (cases m) simp_all

lemma andThen_cong [fundef_cong]:
  "m = m' \<Longrightarrow> (\<And>x. m' = Ret x \<Longrightarrow> f x = g x) \<Longrightarrow> andThen m f = andThen m' g"
  by (cases m') simp_all

text \<open>
  A call is safe for a postcondition when it does not panic and, if it returns, the result
  satisfies the postcondition (it may wait). The rules follow the shape of a function body.
\<close>

definition safely :: "'a outcome \<Rightarrow> ('a \<Rightarrow> bool) \<Rightarrow> bool" where
  "safely m P \<longleftrightarrow> (case m of Ret x \<Rightarrow> P x | Panic \<Rightarrow> False | Block \<Rightarrow> True)"

named_theorems safe_intros \<open>introduction rules for \<open>safely\<close>\<close>

lemma safely_Ret [simp]: "safely (Ret x) P = P x"
  by (simp add: safely_def)

lemma safely_Block [simp]: "safely Block P"
  by (simp add: safely_def)

lemma safely_Panic [simp]: "\<not> safely Panic P"
  by (simp add: safely_def)

lemma safely_andThen:
  "safely m Q \<Longrightarrow> (\<And>x. Q x \<Longrightarrow> safely (f x) P) \<Longrightarrow> safely (andThen m f) P"
  by (cases m) simp_all

lemma safely_mono: "safely m Q \<Longrightarrow> (\<And>x. Q x \<Longrightarrow> P x) \<Longrightarrow> safely m P"
  by (cases m) simp_all

text \<open>Partial correctness: a result, if there is one, satisfies the postcondition.\<close>

definition if_returns :: "'a outcome \<Rightarrow> ('a \<Rightarrow> bool) \<Rightarrow> bool" where
  "if_returns m P \<longleftrightarrow> (case m of Ret x \<Rightarrow> P x | _ \<Rightarrow> True)"

lemma if_returns_simps [simp]:
  "if_returns (Ret x) P = P x" "if_returns Panic P" "if_returns Block P"
  by (simp_all add: if_returns_def)

lemma if_returns_andThen:
  "if_returns m Q \<Longrightarrow> (\<And>x. Q x \<Longrightarrow> if_returns (f x) P) \<Longrightarrow> if_returns (andThen m f) P"
  by (cases m) simp_all

lemma if_returns_any: "(\<And>x. if_returns (f x) P) \<Longrightarrow> if_returns (andThen m f) P"
  by (cases m) simp_all

lemma if_returns_bind: "(\<And>x. m = Ret x \<Longrightarrow> if_returns (f x) P) \<Longrightarrow> if_returns (andThen m f) P"
  by (cases m) simp_all

lemma if_returnsI: "(\<And>x. m = Ret x \<Longrightarrow> P x) \<Longrightarrow> if_returns m P"
  by (cases m) simp_all

lemma if_returnsD: "if_returns m P \<Longrightarrow> m = Ret x \<Longrightarrow> P x"
  by simp

lemma safely_if_returns: "safely m P \<Longrightarrow> if_returns m P"
  by (cases m) simp_all

lemma safely_not_Panic: "safely m P \<Longrightarrow> m \<noteq> Panic"
  by auto

lemma safely_RetD: "safely m P \<Longrightarrow> m = Ret x \<Longrightarrow> P x"
  by simp

section \<open>Finite maps\<close>

text \<open>Go maps are finite maps; \<open>len(m)\<close> is the size of the domain.\<close>

definition fmsize :: "('k, 'v) fmap \<Rightarrow> nat" where
  "fmsize m = fcard (fmdom m)"

lemma fmsize_empty [simp]: "fmsize fmempty = 0"
  by (simp add: fmsize_def)

lemma fmsize_upd:
  "fmsize (fmupd k v m) = (if fmlookup m k = None then Suc (fmsize m) else fmsize m)"
  by (auto simp: fmsize_def fcard_finsert_if fmlookup_dom_iff)

lemma fmsize_drop:
  "fmsize (fmdrop k m) = (if fmlookup m k = None then fmsize m else fmsize m - 1)"
proof (cases "fmlookup m k")
  case None
  then show ?thesis by (simp add: fmsize_def fmdom_notI)
next
  case (Some v)
  then have "k |\<in>| fmdom m" by (rule fmdomI)
  with Some show ?thesis by (simp add: fmsize_def fcard_fminus_fsingleton)
qed

lemma fmsize_0_iff: "fmsize m = 0 \<longleftrightarrow> m = fmempty"
proof
  assume "fmsize m = 0"
  then have "fmdom m = {||}" by (simp add: fmsize_def)
  then show "m = fmempty" by (intro fmap_ext) (auto simp: fmdom_notD)
qed simp

lemma fmsize_ge_lookup: "fmlookup m k = Some v \<Longrightarrow> 0 < fmsize m"
  by (metis fmempty_lookup fmsize_0_iff gr0I option.distinct(1))

text \<open>
  The order in which \<open>range\<close> visits a map is unspecified; a model that depends on it takes the
  order as an argument, a list of the keys without repetition.
\<close>

definition enumerates :: "'k list \<Rightarrow> ('k, 'v) fmap \<Rightarrow> bool" where
  "enumerates ks m \<longleftrightarrow> distinct ks \<and> fset_of_list ks = fmdom m"

lemma enumerates_set: "enumerates ks m \<Longrightarrow> k \<in> set ks \<longleftrightarrow> (\<exists>v. fmlookup m k = Some v)"
  by (metis enumerates_def fset_of_list_elem fmlookup_dom_iff)

lemma enumerates_length: "enumerates ks m \<Longrightarrow> length ks = fmsize m"
proof -
  assume "enumerates ks m"
  then have d: "distinct ks" and e: "fset_of_list ks = fmdom m"
    by (simp_all add: enumerates_def)
  have "fmsize m = card (fset (fset_of_list ks))"
    by (simp add: fmsize_def fcard.rep_eq e)
  also have "\<dots> = length ks"
    using d by (simp add: fset_of_list.rep_eq distinct_card)
  finally show ?thesis by simp
qed

text \<open>Setting several keys one after the other, as a Go loop over pairs does.\<close>

definition fmupds :: "('k \<times> 'v) list \<Rightarrow> ('k, 'v) fmap \<Rightarrow> ('k, 'v) fmap" where
  "fmupds kvs m = fold (\<lambda>(k, v). fmupd k v) kvs m"

lemma fmupds_Nil [simp]: "fmupds [] m = m"
  by (simp add: fmupds_def)

lemma fmupds_Cons [simp]: "fmupds ((k, v) # kvs) m = fmupds kvs (fmupd k v m)"
  by (simp add: fmupds_def)

lemma fmupds_lookup:
  "fmlookup (fmupds kvs m) x = (case map_of (rev kvs) x of None \<Rightarrow> fmlookup m x | Some v \<Rightarrow> Some v)"
  by (induction kvs arbitrary: m) (auto simp: map_add_Some_iff map_add_def split: option.splits)

lemma fmupds_append: "fmupds (xs @ ys) m = fmupds ys (fmupds xs m)"
  by (simp add: fmupds_def)

section \<open>Lists\<close>

text \<open>\<open>nths xs A\<close> is the list of the elements at the positions in \<open>A\<close>.\<close>

lemma nths_cong:
  assumes "\<And>k. k < length xs \<Longrightarrow> k \<in> A \<longleftrightarrow> k \<in> B"
  shows "nths xs A = nths xs B"
  unfolding nths_def
  by (rule arg_cong [where f = "map fst"], rule filter_cong [OF refl])
     (use assms in \<open>auto simp: set_zip\<close>)

lemma nths_interval:
  "nths xs {k. a \<le> k \<and> k < b} = drop a (take b xs)"
proof (induction xs rule: rev_induct)
  case (snoc x xs)
  have "{j. j + length xs \<in> {k. a \<le> k \<and> k < b}} = {j. a \<le> j + length xs \<and> j + length xs < b}"
    by auto
  with snoc show ?case
    by (auto simp: nths_append nths_singleton)
qed simp

end
