(* ===== verification/GoRuntime.thy ===== *)
theory GoRuntime
  imports Prelude Complex_Main "HOL-Library.Log_Nat"
begin

text \<open>
  What the program uses of Go itself and of its standard library: 64-bit integers,
  \<open>strconv.Itoa\<close> and \<open>strconv.Atoi\<close>, \<open>strings.ToUpper\<close>, \<open>strings.Join\<close>, \<open>fmt.Sprintf("%v")\<close>,
  \<open>time.Duration\<close>, slices and buffered channels. Strings and byte slices are lists of 8-bit
  characters, as in Go.
\<close>

section \<open>64-bit integers\<close>

definition max_int :: int where "max_int = 9223372036854775807"
definition min_int :: int where "min_int = -9223372036854775808"

definition in_int :: "int \<Rightarrow> bool" where
  "in_int i \<longleftrightarrow> min_int \<le> i \<and> i \<le> max_int"

text \<open>Arithmetic on \<open>int\<close> and \<open>int64\<close> wraps around silently.\<close>

definition wrap64 :: "int \<Rightarrow> int" where
  "wrap64 i = (i + 9223372036854775808) mod 18446744073709551616 - 9223372036854775808"

lemmas int_bounds = max_int_def min_int_def in_int_def

lemma wrap64_in_int [simp]: "in_int (wrap64 i)"
  by (simp add: wrap64_def int_bounds)

lemma wrap64_id: "in_int i \<Longrightarrow> wrap64 i = i"
  by (simp add: wrap64_def int_bounds)

section \<open>Decimal text\<close>

definition digit_char :: "nat \<Rightarrow> char" where
  "digit_char d = char_of (48 + d)"

definition is_digit :: "char \<Rightarrow> bool" where
  "is_digit c \<longleftrightarrow> 48 \<le> (of_char c :: nat) \<and> (of_char c :: nat) \<le> 57"

definition digit_val :: "char \<Rightarrow> nat" where
  "digit_val c = of_char c - 48"

fun nat_dec :: "nat \<Rightarrow> string" where
  "nat_dec n = (if n < 10 then [digit_char n] else nat_dec (n div 10) @ [digit_char (n mod 10)])"

declare nat_dec.simps [simp del]

text \<open>\<open>strconv.Itoa\<close>, and the \<open>%d\<close> verb.\<close>

definition Itoa :: "int \<Rightarrow> string" where
  "Itoa i = (if i < 0 then CHR ''-'' # nat_dec (nat (- i)) else nat_dec (nat i))"

text \<open>
  \<open>strconv.ParseUint\<close> in base 10: characters are read from the left; a character that is no
  digit is a syntax error, and a value that leaves 64 bits is a range error at that character.
\<close>

datatype num_error = ErrSyntax | ErrRange

fun parse_uint :: "nat \<Rightarrow> string \<Rightarrow> num_error + nat" where
  "parse_uint n [] = Inr n"
| "parse_uint n (c # cs) =
     (if \<not> is_digit c then Inl ErrSyntax
      else if 18446744073709551616 \<le> 10 * n + digit_val c then Inl ErrRange
      else parse_uint (10 * n + digit_val c) cs)"

definition split_sign :: "string \<Rightarrow> bool \<times> string" where
  "split_sign s = (case s of [] \<Rightarrow> (False, [])
     | c # cs \<Rightarrow> if c = CHR ''-'' then (True, cs) else if c = CHR ''+'' then (False, cs) else (False, s))"

text \<open>
  \<open>strconv.Atoi\<close>: the value and the error. On a range error the value is the nearest 64-bit
  integer, on a syntax error it is 0.
\<close>

definition Atoi :: "string \<Rightarrow> int \<times> num_error option" where
  "Atoi s = (let (neg, ds) = split_sign s in
     if ds = [] then (0, Some ErrSyntax)
     else case parse_uint 0 ds of
       Inl ErrSyntax \<Rightarrow> (0, Some ErrSyntax)
     | Inl ErrRange \<Rightarrow> (if neg then min_int else max_int, Some ErrRange)
     | Inr n \<Rightarrow>
         if neg then (if - min_int < int n then (min_int, Some ErrRange) else (- int n, None))
         else (if max_int < int n then (max_int, Some ErrRange) else (int n, None)))"

lemma of_char_digit [simp]: "d < 10 \<Longrightarrow> of_char (digit_char d) = (48 + d :: nat)"
  by (simp add: digit_char_def)

lemma is_digit_digit_char [simp]: "d < 10 \<Longrightarrow> is_digit (digit_char d)"
  by (simp add: is_digit_def)

lemma digit_val_digit_char [simp]: "d < 10 \<Longrightarrow> digit_val (digit_char d) = d"
  by (simp add: digit_val_def)

lemma digit_chars [simp]:
  "digit_char 0 = CHR ''0''" "digit_char (Suc 0) = CHR ''1''" "digit_char 1 = CHR ''1''"
  "digit_char 2 = CHR ''2''"
  "digit_char 3 = CHR ''3''" "digit_char 4 = CHR ''4''" "digit_char 5 = CHR ''5''"
  "digit_char 6 = CHR ''6''" "digit_char 7 = CHR ''7''" "digit_char 8 = CHR ''8''"
  "digit_char 9 = CHR ''9''"
  by (simp_all add: digit_char_def char_of_def bit_0)

lemma nat_dec_not_Nil [simp]: "nat_dec n \<noteq> []"
  by (subst nat_dec.simps) simp

lemma nat_dec_digits: "c \<in> set (nat_dec n) \<Longrightarrow> is_digit c"
proof (induction n rule: nat_dec.induct)
  case (1 n)
  then show ?case by (subst (asm) (2) nat_dec.simps) (auto split: if_splits)
qed

lemma parse_uint_append:
  "parse_uint a (xs @ ys) = (case parse_uint a xs of Inl e \<Rightarrow> Inl e | Inr b \<Rightarrow> parse_uint b ys)"
  by (induction a xs rule: parse_uint.induct) auto

lemma parse_uint_nat_dec:
  "n < 18446744073709551616 \<Longrightarrow> parse_uint 0 (nat_dec n) = Inr n"
proof (induction n rule: nat_dec.induct)
  case (1 n)
  show ?case
  proof (cases "n < 10")
    case True
    then show ?thesis by (subst nat_dec.simps) simp
  next
    case False
    have "parse_uint 0 (nat_dec (n div 10)) = Inr (n div 10)"
      using "1.IH" [OF False] "1.prems" by simp
    moreover have "10 * (n div 10) + n mod 10 = n" by simp
    ultimately show ?thesis
      using False "1.prems" by (subst nat_dec.simps) (simp add: parse_uint_append)
  qed
qed

lemma nat_dec_Cons: obtains c cs where "nat_dec n = c # cs" and "is_digit c"
  by (metis list.exhaust list.set_intros(1) nat_dec_digits nat_dec_not_Nil)

lemma is_digit_not_sign: "is_digit c \<Longrightarrow> c \<noteq> CHR ''-'' \<and> c \<noteq> CHR ''+''"
  by (auto simp: is_digit_def)

lemma split_sign_Itoa:
  "split_sign (Itoa i) = (i < 0, nat_dec (nat \<bar>i\<bar>))"
proof (cases "i < 0")
  case True
  then show ?thesis by (simp add: Itoa_def split_sign_def)
next
  case False
  obtain c cs where "nat_dec (nat i) = c # cs" and "is_digit c" by (rule nat_dec_Cons)
  with False show ?thesis using is_digit_not_sign by (simp add: Itoa_def split_sign_def)
qed

lemma Atoi_Itoa: "in_int i \<Longrightarrow> Atoi (Itoa i) = (i, None)"
  by (auto simp: Atoi_def split_sign_Itoa parse_uint_nat_dec int_bounds)

lemma Atoi_in_int: "in_int (fst (Atoi s))"
  by (auto simp: Atoi_def int_bounds split: prod.splits sum.splits num_error.splits)

lemma Atoi_ok_in_int: "Atoi s = (i, None) \<Longrightarrow> in_int i"
  using Atoi_in_int [of s] by simp

lemma Itoa_not_Nil [simp]: "Itoa i \<noteq> []"
  by (simp add: Itoa_def)

section \<open>Strings\<close>

text \<open>
  \<open>strings.ToUpper\<close>, as far as its callers can tell: the result is only compared with
  ASCII words. Letters of ASCII are raised, and so are the two other runes whose upper case is an
  ASCII letter, the dotless i (bytes C4 B1) and the long s (bytes C5 BF). Every other
  rune has an upper case outside ASCII and is left alone here.
\<close>

definition upper_char :: "char \<Rightarrow> char" where
  "upper_char c = (if 97 \<le> (of_char c :: nat) \<and> (of_char c :: nat) \<le> 122
     then char_of (of_char c - 32 :: nat) else c)"

lemma upper_chars [simp]:
  "upper_char CHR ''a'' = CHR ''A''" "upper_char CHR ''b'' = CHR ''B''" "upper_char CHR ''c'' = CHR ''C''"
  "upper_char CHR ''d'' = CHR ''D''" "upper_char CHR ''e'' = CHR ''E''" "upper_char CHR ''f'' = CHR ''F''"
  "upper_char CHR ''g'' = CHR ''G''" "upper_char CHR ''h'' = CHR ''H''" "upper_char CHR ''i'' = CHR ''I''"
  "upper_char CHR ''j'' = CHR ''J''" "upper_char CHR ''k'' = CHR ''K''" "upper_char CHR ''l'' = CHR ''L''"
  "upper_char CHR ''m'' = CHR ''M''" "upper_char CHR ''n'' = CHR ''N''" "upper_char CHR ''o'' = CHR ''O''"
  "upper_char CHR ''p'' = CHR ''P''" "upper_char CHR ''q'' = CHR ''Q''" "upper_char CHR ''r'' = CHR ''R''"
  "upper_char CHR ''s'' = CHR ''S''" "upper_char CHR ''t'' = CHR ''T''" "upper_char CHR ''u'' = CHR ''U''"
  "upper_char CHR ''v'' = CHR ''V''" "upper_char CHR ''w'' = CHR ''W''" "upper_char CHR ''x'' = CHR ''X''"
  "upper_char CHR ''y'' = CHR ''Y''" "upper_char CHR ''z'' = CHR ''Z''" "upper_char CHR ''A'' = CHR ''A''"
  "upper_char CHR ''B'' = CHR ''B''" "upper_char CHR ''C'' = CHR ''C''" "upper_char CHR ''D'' = CHR ''D''"
  "upper_char CHR ''E'' = CHR ''E''" "upper_char CHR ''F'' = CHR ''F''" "upper_char CHR ''G'' = CHR ''G''"
  "upper_char CHR ''H'' = CHR ''H''" "upper_char CHR ''I'' = CHR ''I''" "upper_char CHR ''J'' = CHR ''J''"
  "upper_char CHR ''K'' = CHR ''K''" "upper_char CHR ''L'' = CHR ''L''" "upper_char CHR ''M'' = CHR ''M''"
  "upper_char CHR ''N'' = CHR ''N''" "upper_char CHR ''O'' = CHR ''O''" "upper_char CHR ''P'' = CHR ''P''"
  "upper_char CHR ''Q'' = CHR ''Q''" "upper_char CHR ''R'' = CHR ''R''" "upper_char CHR ''S'' = CHR ''S''"
  "upper_char CHR ''T'' = CHR ''T''" "upper_char CHR ''U'' = CHR ''U''" "upper_char CHR ''V'' = CHR ''V''"
  "upper_char CHR ''W'' = CHR ''W''" "upper_char CHR ''X'' = CHR ''X''" "upper_char CHR ''Y'' = CHR ''Y''"
  "upper_char CHR ''Z'' = CHR ''Z''" "upper_char CHR ''0'' = CHR ''0''" "upper_char CHR ''1'' = CHR ''1''"
  "upper_char CHR ''2'' = CHR ''2''" "upper_char CHR ''3'' = CHR ''3''" "upper_char CHR ''4'' = CHR ''4''"
  "upper_char CHR ''5'' = CHR ''5''" "upper_char CHR ''6'' = CHR ''6''" "upper_char CHR ''7'' = CHR ''7''"
  "upper_char CHR ''8'' = CHR ''8''" "upper_char CHR ''9'' = CHR ''9''" "upper_char CHR ''-'' = CHR ''-''"
  by code_simp+

fun ToUpper :: "string \<Rightarrow> string" where
  "ToUpper [] = []"
| "ToUpper [c] = [upper_char c]"
| "ToUpper (c # d # cs) =
     (if c = CHR 0xC4 \<and> d = CHR 0xB1 then CHR ''I'' # ToUpper cs
      else if c = CHR 0xC5 \<and> d = CHR 0xBF then CHR ''S'' # ToUpper cs
      else upper_char c # ToUpper (d # cs))"

text \<open>Raising a text twice changes nothing: the server and the registry both do it.\<close>

lemma upper_char_range: "97 \<le> (of_char c :: nat) \<Longrightarrow> (of_char c :: nat) \<le> 122 \<Longrightarrow> of_char (upper_char c) = (of_char c - 32 :: nat)"
  by (simp add: upper_char_def)

lemma upper_char_other: "\<not> (97 \<le> (of_char c :: nat) \<and> (of_char c :: nat) \<le> 122) \<Longrightarrow> upper_char c = c"
  unfolding upper_char_def by (simp only: if_False)

lemma upper_char_idem [simp]: "upper_char (upper_char c) = upper_char c"
proof (cases "97 \<le> (of_char c :: nat) \<and> (of_char c :: nat) \<le> 122")
  case True
  then show ?thesis by (intro upper_char_other) (auto simp: upper_char_range)
qed (simp add: upper_char_other)

lemma upper_char_high: "128 \<le> (of_char x :: nat) \<Longrightarrow> upper_char c = x \<longleftrightarrow> c = x"
  by (cases "97 \<le> (of_char c :: nat) \<and> (of_char c :: nat) \<le> 122")
     (auto simp: upper_char_range upper_char_def dest: arg_cong [where f = "of_char :: char \<Rightarrow> nat"])

lemma ToUpper_first: "ToUpper s = x # t \<Longrightarrow> x = CHR 0xB1 \<or> x = CHR 0xBF \<Longrightarrow> \<exists>r. s = x # r"
  by (induction s arbitrary: t rule: ToUpper.induct) (auto simp: upper_char_high upper_char_other split: if_splits)

lemma ToUpper_Cons_kept:
  assumes "\<not> (c = CHR 0xC4 \<and> (\<exists>r. t = CHR 0xB1 # r))" and "\<not> (c = CHR 0xC5 \<and> (\<exists>r. t = CHR 0xBF # r))"
  shows "ToUpper (c # t) = upper_char c # ToUpper t"
  using assms by (cases t) auto

lemma ToUpper_idem [simp]: "ToUpper (ToUpper s) = ToUpper s"
proof (induction s rule: ToUpper.induct)
  case (3 c d cs)
  show ?case
  proof (cases "c = CHR 0xC4 \<and> d = CHR 0xB1 \<or> c = CHR 0xC5 \<and> d = CHR 0xBF")
    case True
    with 3 show ?thesis by (auto simp: ToUpper_Cons_kept upper_char_def)
  next
    case False
    have "ToUpper (upper_char c # ToUpper (d # cs)) = upper_char (upper_char c) # ToUpper (ToUpper (d # cs))"
      using False ToUpper_first [of "d # cs"] by (intro ToUpper_Cons_kept) (auto simp: upper_char_high)
    with 3(3) False show ?thesis by auto
  qed
qed simp_all

fun Join :: "string list \<Rightarrow> string \<Rightarrow> string" where
  "Join [] sep = []"
| "Join [x] sep = x"
| "Join (x # y # xs) sep = x @ sep @ Join (y # xs) sep"

text \<open>\<open>slice.Reverse\<close> of the program: swaps from both ends towards the middle.\<close>

definition swap_at :: "'a list \<Rightarrow> nat \<Rightarrow> nat \<Rightarrow> 'a list" where
  "swap_at xs i j = xs[i := xs ! j, j := xs ! i]"

function reverse_loop :: "nat \<Rightarrow> int \<Rightarrow> 'a list \<Rightarrow> 'a list" where
  "reverse_loop i j xs =
     (if int i < j then reverse_loop (Suc i) (j - 1) (swap_at xs i (nat j)) else xs)"
  by pat_completeness auto
termination
  by (relation "measure (\<lambda>(i, j, xs). nat (j - int i))") auto

declare reverse_loop.simps [simp del]

definition slice_Reverse :: "'a list \<Rightarrow> 'a list" where
  "slice_Reverse xs = reverse_loop 0 (int (length xs) - 1) xs"

text \<open>\<open>slice.Equal\<close>: same length, then element by element.\<close>

definition slice_Equal :: "'a list \<Rightarrow> 'a list \<Rightarrow> bool" where
  "slice_Equal a b = (if length a \<noteq> length b then False
     else list_all (\<lambda>i. a ! i = b ! i) [0..<length a])"

lemma slice_Equal_iff: "slice_Equal a b \<longleftrightarrow> a = b"
  by (auto simp: slice_Equal_def list_all_iff intro: nth_equalityI)

text \<open>
  The loop invariant of \<open>slice.Reverse\<close>: outside the window \<open>[i, j]\<close> the slice holds the
  reversed elements, inside it the original ones.
\<close>

definition half_reversed :: "'a list \<Rightarrow> nat \<Rightarrow> int \<Rightarrow> 'a list \<Rightarrow> bool" where
  "half_reversed xs i j ys \<longleftrightarrow> length ys = length xs \<and> int i + j = int (length xs) - 1 \<and>
     (\<forall>k < length xs. ys ! k = (if k < i \<or> j < int k then rev xs ! k else xs ! k))"

lemma half_reversed_step:
  assumes "half_reversed xs i j ys" and "int i < j"
  shows "half_reversed xs (Suc i) (j - 1) (swap_at ys i (nat j))"
proof -
  from assms have len: "length ys = length xs" and ij: "int i + j = int (length xs) - 1"
    and old: "\<And>k. k < length xs \<Longrightarrow>
      ys ! k = (if k < i \<or> j < int k then rev xs ! k else xs ! k)"
    by (auto simp: half_reversed_def)
  have jl: "nat j < length xs" and il: "i < length xs" using ij assms(2) by linarith+
  have "ys ! i = xs ! i" "ys ! nat j = xs ! nat j"
    using old [OF il] old [OF jl] assms(2) by auto
  moreover have "rev xs ! i = xs ! nat j" "rev xs ! nat j = xs ! i"
    using il jl ij by (simp_all add: rev_nth) (rule arg_cong [where f = "(!) xs"], linarith)+
  ultimately show ?thesis
    using len ij jl il assms(2) old
    by (auto simp: half_reversed_def swap_at_def nth_list_update)
qed

lemma reverse_loop_half: "half_reversed xs i j ys \<Longrightarrow> reverse_loop i j ys = rev xs"
proof (induction i j ys rule: reverse_loop.induct)
  case (1 i j ys)
  show ?case
  proof (cases "int i < j")
    case True
    with 1 half_reversed_step show ?thesis by (subst reverse_loop.simps) auto
  next
    case False
    have "ys ! k = rev xs ! k" if "k < length xs" for k
    proof (cases "k < i \<or> j < int k")
      case False
      with \<open>\<not> int i < j\<close> that "1.prems" have "k = i" "int k = j" "length xs = 2 * k + 1"
        by (auto simp: half_reversed_def)
      with that "1.prems" show ?thesis by (auto simp: half_reversed_def rev_nth)
    qed (use that "1.prems" in \<open>auto simp: half_reversed_def\<close>)
    with False "1.prems" show ?thesis
      by (subst reverse_loop.simps) (auto simp: half_reversed_def intro: nth_equalityI)
  qed
qed

lemma slice_Reverse_rev: "slice_Reverse xs = rev xs"
  unfolding slice_Reverse_def
  by (rule reverse_loop_half) (auto simp: half_reversed_def)

text \<open>
  Slicing \<open>xs[a:b]\<close> panics out of range. Every slice expression of the program bounds \<open>b\<close> by
  the length, so that the capacity plays no part.
\<close>

definition go_slice :: "'a list \<Rightarrow> int \<Rightarrow> int \<Rightarrow> 'a list outcome" where
  "go_slice xs a b = (if 0 \<le> a \<and> a \<le> b \<and> b \<le> int (length xs)
     then Ret (drop (nat a) (take (nat b) xs)) else Panic)"

text \<open>
  \<open>make([]T, n)\<close> panics for a negative length and for one whose bytes exceed the 48-bit address
  space. Running out of physical memory below that bound is not modelled.
\<close>

definition make_panics :: "int \<Rightarrow> int \<Rightarrow> bool" where
  "make_panics n elem_size \<longleftrightarrow> n < 0 \<or> 281474976710656 < n * elem_size"

end
