(* ===== verification/Protocol.thy ===== *)
theory Protocol
  imports GoRuntime
begin

text \<open>
  The values of the wire protocol (\<open>internal/protocol/types.go\<close>). A Go \<open>float64\<close> is only ever
  stored and printed, so it is represented by the text \<open>%v\<close> prints for it. A nil
  \<open>BulkString\<close> and a nil \<open>Array\<close> are \<open>None\<close>.
\<close>

datatype float64 = F64 string

datatype RESPValue =
    SimpleString string
  | ErrorString string
  | Integer int
  | BulkString "string option"
  | Array "RESPValue list option"
  | RMap "(RESPValue \<times> RESPValue) list"
  | RSet "RESPValue list"
  | RBoolean bool
  | RDouble float64
  | BigNumber string
  | Null
  | RPush "RESPValue list"

text \<open>The usual shapes of a reply.\<close>

abbreviation bulk :: "string \<Rightarrow> RESPValue" where
  "bulk s \<equiv> BulkString (Some s)"

abbreviation arr :: "RESPValue list \<Rightarrow> RESPValue" where
  "arr vs \<equiv> Array (Some vs)"

end
