(* ===== verification/GoTime.thy ===== *)
theory GoTime
  imports GoRuntime
begin

text \<open>
  Instants and durations. An instant is a count of nanoseconds; a \<open>time.Duration\<close> is a 64-bit
  count of nanoseconds whose arithmetic wraps around. \<open>Duration.Seconds\<close> works in \<open>float64\<close>, so
  the conversion back to whole seconds is modelled with the rounding of IEEE double precision.
\<close>

type_synonym time = int
type_synonym duration = int

definition Nanosecond :: duration where "Nanosecond = 1"
definition Millisecond :: duration where "Millisecond = 1000000"
definition Second :: duration where "Second = 1000000000"

text \<open>\<open>time.Duration(n) * unit\<close>\<close>

definition Duration_mul :: "int \<Rightarrow> duration \<Rightarrow> duration" where
  "Duration_mul n unit = wrap64 (n * unit)"

definition Time_Add :: "time \<Rightarrow> duration \<Rightarrow> time" where
  "Time_Add t d = t + d"

definition Time_After :: "time \<Rightarrow> time \<Rightarrow> bool" where
  "Time_After t u \<longleftrightarrow> u < t"

text \<open>\<open>time.Until(t)\<close> at the instant \<open>now\<close>; the difference of two instants saturates.\<close>

definition time_Until :: "time \<Rightarrow> time \<Rightarrow> duration" where
  "time_Until now t = max min_int (min max_int (t - now))"

section \<open>Durations as text\<close>

text \<open>
  \<open>Duration.String\<close> and the helper that prints a fraction of \<open>prec\<close> digits without its trailing zeros, in front of
  what is in the buffer. The two bytes of the sign for micro are those of its UTF-8 encoding.
\<close>

fun fmtFrac :: "nat \<Rightarrow> nat \<Rightarrow> bool \<Rightarrow> string \<Rightarrow> string" where
  "fmtFrac u 0 printing buf = (if printing then CHR ''.'' # buf else buf)"
| "fmtFrac u (Suc n) printing buf = (let digit = u mod 10; printing' = printing \<or> digit \<noteq> 0
     in fmtFrac (u div 10) n printing' (if printing' then digit_char digit # buf else buf))"

definition Duration_String :: "duration \<Rightarrow> string" where
  "Duration_String d = (let u = nat \<bar>d\<bar>;
       scaled = (\<lambda>prec unit. nat_dec (u div 10 ^ prec) @ fmtFrac u prec False unit) in
     (if d < 0 then ''-'' else []) @
     (if u = 0 then ''0s''
      else if u < 1000 then nat_dec u @ ''ns''
      else if u < 1000000 then scaled 3 [CHR 0xC2, CHR 0xB5, CHR ''s'']
      else if u < 1000000000 then scaled 6 ''ms''
      else (let s = u div 1000000000; m = s div 60; h = m div 60 in
        (if h = 0 then [] else nat_dec h @ ''h'') @
        (if m = 0 then [] else nat_dec (m mod 60) @ ''m'') @
        nat_dec (s mod 60) @ fmtFrac u 9 False ''s'')))"

section \<open>Seconds as a double\<close>

definition pow2 :: "int \<Rightarrow> rat" where
  "pow2 e = (if 0 \<le> e then 2 ^ nat e else 1 / 2 ^ nat (- e))"

definition round_half_even :: "rat \<Rightarrow> int" where
  "round_half_even x = (let f = \<lfloor>x\<rfloor>; d = x - of_int f in
     if d < 1 / 2 then f else if 1 / 2 < d then f + 1 else if even f then f else f + 1)"

text \<open>The exponent \<open>k\<close> with \<open>2\<^sup>k \<le> a / b < 2\<^sup>k\<^sup>+\<^sup>1\<close> for positive \<open>a\<close> and \<open>b\<close>.\<close>

definition binary_exponent :: "nat \<Rightarrow> nat \<Rightarrow> int" where
  "binary_exponent a b = (let k = int (floorlog 2 a) - int (floorlog 2 b) in
     if pow2 k \<le> of_nat a / of_nat b then k else k - 1)"

text \<open>
  Rounding to 53 significant bits, to the nearest, ties to even. The values met here are far
  from the limits of the exponent.
\<close>

definition f64_round :: "rat \<Rightarrow> rat" where
  "f64_round x = (if x = 0 then 0 else
     let (a, b) = quotient_of \<bar>x\<bar>; u = pow2 (binary_exponent (nat a) (nat b) - 52)
     in sgn x * (of_int (round_half_even (\<bar>x\<bar> / u)) * u))"

definition trunc_rat :: "rat \<Rightarrow> int" where
  "trunc_rat x = (if 0 \<le> x then \<lfloor>x\<rfloor> else - \<lfloor>- x\<rfloor>)"

definition quot_trunc :: "int \<Rightarrow> int \<Rightarrow> int" where
  "quot_trunc a b = sgn a * sgn b * (\<bar>a\<bar> div \<bar>b\<bar>)"

definition rem_trunc :: "int \<Rightarrow> int \<Rightarrow> int" where
  "rem_trunc a b = a - b * quot_trunc a b"

text \<open>\<open>int(d.Seconds())\<close>: \<open>float64(d / Second) + float64(d % Second) / 1e9\<close>, truncated.\<close>

definition seconds_int :: "duration \<Rightarrow> int" where
  "seconds_int d = trunc_rat (f64_round
     (of_int (quot_trunc d Second) + f64_round (of_int (rem_trunc d Second) / 1000000000)))"

lemma binary_exponent_whole:
  assumes "0 < a" shows "binary_exponent a (Suc 0) = int (floorlog 2 a) - 1"
proof -
  have pos: "floorlog 2 a > 0" using assms by (simp add: floorlog_def)
  have le: "2 ^ (floorlog 2 a - 1) \<le> a"
    using floorlog_bounds [of a 2] assms by simp
  have "pow2 (int (floorlog 2 a) - 1) = 2 ^ (floorlog 2 a - 1)"
    using pos by (simp add: pow2_def nat_diff_distrib)
  also have "\<dots> \<le> (of_nat a :: rat)"
    using le by (metis of_nat_le_iff of_nat_numeral of_nat_power)
  finally show ?thesis by (simp add: binary_exponent_def floorlog_def Let_def)
qed

lemma round_half_even_whole [simp]: "round_half_even (of_int i) = i"
  by (simp add: round_half_even_def)

lemma pow2_neg: "pow2 (- int n) = 1 / 2 ^ n"
  by (cases n) (simp_all add: pow2_def nat_add_distrib)

lemma f64_round_nat:
  assumes "a < 2 ^ 53" shows "f64_round (of_nat a) = of_nat a"
proof (cases "a = 0")
  case False
  have le: "floorlog 2 a \<le> 53" using assms by (intro floorlog_leI) simp_all
  define m where "m = 53 - floorlog 2 a"
  have k: "binary_exponent a (Suc 0) - 52 = - int m"
    using False le by (simp add: binary_exponent_whole m_def)
  have "(of_nat a :: rat) / (1 / 2 ^ m) = of_int (int a * 2 ^ m)" by simp
  then have "round_half_even (of_nat a / (1 / 2 ^ m)) = int a * 2 ^ m"
    by (metis round_half_even_whole)
  then have "of_int (round_half_even (of_nat a / (1 / 2 ^ m))) * (1 / 2 ^ m) = (of_nat a :: rat)"
    by simp
  with False show ?thesis
    unfolding f64_round_def by (simp add: k pow2_neg Let_def)
qed (simp add: f64_round_def)

lemma f64_round_minus: "f64_round (- x) = - f64_round x"
  by (cases "quotient_of \<bar>x\<bar>") (simp add: f64_round_def Let_def sgn_minus)

lemma f64_round_whole:
  assumes "\<bar>i\<bar> < 2 ^ 53" shows "f64_round (of_int i) = of_int i"
proof (cases "0 \<le> i")
  case True
  with f64_round_nat [of "nat i"] assms show ?thesis by (simp add: nat_less_iff)
next
  case False
  with f64_round_nat [of "nat (- i)"] assms have "f64_round (of_int (- i)) = of_int (- i)"
    by (simp add: nat_less_iff)
  then show ?thesis by (simp add: f64_round_minus)
qed

lemma trunc_rat_whole [simp]: "trunc_rat (of_int i) = i"
  by (simp add: trunc_rat_def)

text \<open>A whole number of seconds is read back exactly.\<close>

lemma quot_trunc_mult: "0 < b \<Longrightarrow> quot_trunc (a * b) b = a"
  by (simp add: quot_trunc_def abs_mult sgn_mult mult.commute mult.left_commute
      flip: mult.assoc) (metis abs_mult_sgn mult.commute sgn_sgn)

lemma seconds_int_whole:
  assumes "\<bar>s\<bar> < 2 ^ 53" shows "seconds_int (s * Second) = s"
proof -
  have q: "quot_trunc (s * Second) Second = s"
    by (rule quot_trunc_mult) (simp add: Second_def)
  have "f64_round 0 = 0" by (simp add: f64_round_def)
  with q f64_round_whole [OF assms] show ?thesis
    by (simp add: seconds_int_def rem_trunc_def mult.commute)
qed

lemma Duration_mul_Second:
  "\<bar>s\<bar> \<le> 9223372036 \<Longrightarrow> Duration_mul s Second = s * Second"
  unfolding Duration_mul_def by (rule wrap64_id) (auto simp: Second_def int_bounds abs_le_iff)

lemma seconds_int_Duration:
  "\<bar>s\<bar> \<le> 9223372036 \<Longrightarrow> seconds_int (Duration_mul s Second) = s"
  by (simp add: Duration_mul_Second seconds_int_whole)

end
