(* ===== verification/Values.thy ===== *)
theory Values
  imports Protocol GoTime
begin

text \<open>
  The values of the store (\<open>internal/core/store/types.go\<close>): a type tag, the payload held in an
  interface, and an optional expiry instant. \<open>goval\<close> is what \<open>interface{}\<close> holds.
\<close>

section \<open>Interface values and their text\<close>

datatype goval =
    GNil
  | GStr string
  | GInt int
  | GList "goval list"
  | GMap "(string, goval) fmap"
  | GSet "string fset"
  | GZSet "(string, float64) fmap"

definition sorted_keys :: "(string, 'v) fmap \<Rightarrow> string list" where
  "sorted_keys m = sorted_list_of_fset (fmdom m)"

text \<open>\<open>fmt\<close> prints the entries of a map in the order of their keys.\<close>

definition fmt_map :: "(string, string) fmap \<Rightarrow> string" where
  "fmt_map m = ''map['' @
     Join (map (\<lambda>k. k @ '':'' @ (case fmlookup m k of None \<Rightarrow> [] | Some v \<Rightarrow> v)) (sorted_keys m)) '' ''
     @ '']''"

fun float_text :: "float64 \<Rightarrow> string" where
  "float_text (F64 s) = s"

text \<open>\<open>fmt.Sprintf("%v", x)\<close>\<close>

primrec Sprintf_v :: "goval \<Rightarrow> string" where
  "Sprintf_v GNil = ''<nil>''"
| "Sprintf_v (GStr s) = s"
| "Sprintf_v (GInt i) = Itoa i"
| "Sprintf_v (GList xs) = ''['' @ Join (map Sprintf_v xs) '' '' @ '']''"
| "Sprintf_v (GMap m) = fmt_map (fmmap Sprintf_v m)"
| "Sprintf_v (GSet A) = ''map['' @ Join (map (\<lambda>k. k @ '':{}'') (sorted_list_of_fset A)) '' '' @ '']''"
| "Sprintf_v (GZSet m) = fmt_map (fmmap float_text m)"

section \<open>Errors\<close>

text \<open>An error is the text that \<open>Error()\<close> returns.\<close>

type_synonym goerror = string

definition ErrWrongType :: goerror where
  "ErrWrongType = ''WRONGTYPE Operation against a key holding the wrong kind of value''"

definition ErrNotInteger :: goerror where
  "ErrNotInteger = ''ERR value is not an integer or out of range''"

section \<open>Values\<close>

datatype ValueType = TypeString | TypeList | TypeHash | TypeSet | TypeZSet | TypeNull

record Value =
  Type :: ValueType
  Data :: goval
  ExpiresAt :: "time option"

definition NewStringValue :: "string \<Rightarrow> Value" where
  "NewStringValue val = \<lparr>Type = TypeString, Data = GStr val, ExpiresAt = None\<rparr>"

definition NewListValue :: "goval list \<Rightarrow> Value" where
  "NewListValue val = \<lparr>Type = TypeList, Data = GList val, ExpiresAt = None\<rparr>"

definition NewHashValue :: "(string, goval) fmap \<Rightarrow> Value" where
  "NewHashValue val = \<lparr>Type = TypeHash, Data = GMap val, ExpiresAt = None\<rparr>"

definition NewSetValue :: "string fset \<Rightarrow> Value" where
  "NewSetValue val = \<lparr>Type = TypeSet, Data = GSet val, ExpiresAt = None\<rparr>"

definition NewZSetValue :: "(string, float64) fmap \<Rightarrow> Value" where
  "NewZSetValue val = \<lparr>Type = TypeZSet, Data = GZSet val, ExpiresAt = None\<rparr>"

definition AsString :: "Value \<Rightarrow> goerror + string" where
  "AsString v = (if Type v \<noteq> TypeString then Inl ErrWrongType
     else case Data v of GStr s \<Rightarrow> Inr s | _ \<Rightarrow> Inl ErrWrongType)"

definition AsList :: "Value \<Rightarrow> goerror + goval list" where
  "AsList v = (if Type v \<noteq> TypeList then Inl ErrWrongType
     else case Data v of GList xs \<Rightarrow> Inr xs | _ \<Rightarrow> Inl ErrWrongType)"

definition AsHash :: "Value \<Rightarrow> goerror + (string, goval) fmap" where
  "AsHash v = (if Type v \<noteq> TypeHash then Inl ErrWrongType
     else case Data v of GMap m \<Rightarrow> Inr m | _ \<Rightarrow> Inl ErrWrongType)"

definition AsSet :: "Value \<Rightarrow> goerror + string fset" where
  "AsSet v = (if Type v \<noteq> TypeSet then Inl ErrWrongType
     else case Data v of GSet A \<Rightarrow> Inr A | _ \<Rightarrow> Inl ErrWrongType)"

definition AsZSet :: "Value \<Rightarrow> goerror + (string, float64) fmap" where
  "AsZSet v = (if Type v \<noteq> TypeZSet then Inl ErrWrongType
     else case Data v of GZSet m \<Rightarrow> Inr m | _ \<Rightarrow> Inl ErrWrongType)"

text \<open>\<open>ToRESP\<close> drops the error of the getters, so a badly typed payload reads as empty.\<close>

definition ToRESP :: "Value \<Rightarrow> RESPValue" where
  "ToRESP v = (case Type v of
     TypeString \<Rightarrow> bulk (case AsString v of Inl _ \<Rightarrow> [] | Inr s \<Rightarrow> s)
   | TypeList \<Rightarrow> arr (map (\<lambda>x. bulk (Sprintf_v x)) (case AsList v of Inl _ \<Rightarrow> [] | Inr xs \<Rightarrow> xs))
   | _ \<Rightarrow> Null)"

definition IsExpired :: "time \<Rightarrow> Value \<Rightarrow> bool" where
  "IsExpired now v = (case ExpiresAt v of None \<Rightarrow> False | Some t \<Rightarrow> Time_After now t)"

definition SetExpiration :: "time \<Rightarrow> duration \<Rightarrow> Value \<Rightarrow> Value" where
  "SetExpiration now ttl v = v\<lparr>ExpiresAt := Some (Time_Add now ttl)\<rparr>"

definition GetTTL :: "time \<Rightarrow> Value \<Rightarrow> duration" where
  "GetTTL now v = (case ExpiresAt v of None \<Rightarrow> -1 | Some t \<Rightarrow> time_Until now t)"

definition ToString :: "Value \<Rightarrow> goerror + string" where
  "ToString v = (case Type v of
     TypeString \<Rightarrow> AsString v
   | TypeList \<Rightarrow> (case AsList v of Inl e \<Rightarrow> Inl e | Inr xs \<Rightarrow> Inr (Sprintf_v (GList xs)))
   | TypeHash \<Rightarrow> (case AsHash v of Inl e \<Rightarrow> Inl e | Inr m \<Rightarrow> Inr (Sprintf_v (GMap m)))
   | TypeSet \<Rightarrow> (case AsSet v of Inl e \<Rightarrow> Inl e | Inr A \<Rightarrow> Inr (Sprintf_v (GSet A)))
   | TypeZSet \<Rightarrow> (case AsZSet v of Inl e \<Rightarrow> Inl e | Inr m \<Rightarrow> Inr (Sprintf_v (GZSet m)))
   | TypeNull \<Rightarrow> Inl ''unknown value type'')"

section \<open>Well-typed values\<close>

text \<open>The payload has the kind its tag announces. Every constructor builds such a value.\<close>

fun payload_ok :: "ValueType \<Rightarrow> goval \<Rightarrow> bool" where
  "payload_ok TypeString (GStr _) = True"
| "payload_ok TypeList (GList _) = True"
| "payload_ok TypeHash (GMap _) = True"
| "payload_ok TypeSet (GSet _) = True"
| "payload_ok TypeZSet (GZSet _) = True"
| "payload_ok _ _ = False"

definition wf_value :: "Value \<Rightarrow> bool" where
  "wf_value v \<longleftrightarrow> payload_ok (Type v) (Data v)"

lemmas New_defs = NewStringValue_def NewListValue_def NewHashValue_def NewSetValue_def NewZSetValue_def

lemma wf_value_New [simp]:
  "wf_value (NewStringValue s)" "wf_value (NewListValue xs)" "wf_value (NewHashValue m)"
  "wf_value (NewSetValue A)" "wf_value (NewZSetValue z)"
  by (simp_all add: New_defs wf_value_def)

lemma wf_value_expiry [simp]: "wf_value (v\<lparr>ExpiresAt := e\<rparr>) = wf_value v"
  by (simp add: wf_value_def)

lemma wf_value_SetExpiration [simp]: "wf_value (SetExpiration now d v) = wf_value v"
  by (simp add: SetExpiration_def)

fun_cases payload_okE: "payload_ok t d"

lemma payload_ok_cases:
  "payload_ok t d \<longleftrightarrow> (\<exists>s. t = TypeString \<and> d = GStr s) \<or> (\<exists>xs. t = TypeList \<and> d = GList xs) \<or>
     (\<exists>m. t = TypeHash \<and> d = GMap m) \<or> (\<exists>A. t = TypeSet \<and> d = GSet A) \<or>
     (\<exists>z. t = TypeZSet \<and> d = GZSet z)"
  by (cases t; cases d) simp_all

lemma wf_value_string: "wf_value v \<Longrightarrow> Type v = TypeString \<longleftrightarrow> (\<exists>s. Data v = GStr s)"
  by (auto simp: wf_value_def payload_ok_cases)

lemma wf_value_data_not_nil: "wf_value v \<Longrightarrow> Data v \<noteq> GNil"
  by (auto simp: wf_value_def payload_ok_cases)

lemma AsList_Inr: "AsList v = Inr xs \<longleftrightarrow> Type v = TypeList \<and> Data v = GList xs"
  by (auto simp: AsList_def split: goval.splits)

lemma AsHash_Inr: "AsHash v = Inr m \<longleftrightarrow> Type v = TypeHash \<and> Data v = GMap m"
  by (auto simp: AsHash_def split: goval.splits)

lemma AsList_Inl: "AsList v = Inl e \<Longrightarrow> e = ErrWrongType"
  by (auto simp: AsList_def split: if_splits goval.splits)

lemma AsHash_Inl: "AsHash v = Inl e \<Longrightarrow> e = ErrWrongType"
  by (auto simp: AsHash_def split: if_splits goval.splits)

lemma AsList_wf_Inl: "wf_value v \<Longrightarrow> AsList v = Inl e \<Longrightarrow> Type v \<noteq> TypeList"
  by (auto simp: AsList_def wf_value_def payload_ok_cases split: if_splits)

lemma AsHash_wf_Inl: "wf_value v \<Longrightarrow> AsHash v = Inl e \<Longrightarrow> Type v \<noteq> TypeHash"
  by (auto simp: AsHash_def wf_value_def payload_ok_cases split: if_splits)

text \<open>A value without an expiry never expires.\<close>

lemma IsExpired_None [simp]: "ExpiresAt v = None \<Longrightarrow> \<not> IsExpired now v"
  by (simp add: IsExpired_def)

lemma IsExpired_mono: "IsExpired now v \<Longrightarrow> now \<le> now' \<Longrightarrow> IsExpired now' v"
  by (auto simp: IsExpired_def Time_After_def split: option.splits)

lemma IsExpired_SetExpiration:
  "IsExpired t (SetExpiration now ttl v) \<longleftrightarrow> now + ttl < t"
  by (simp add: IsExpired_def SetExpiration_def Time_After_def Time_Add_def)

lemma ToString_wf: "wf_value v \<Longrightarrow> \<exists>s. ToString v = Inr s"
  by (auto simp: wf_value_def payload_ok_cases ToString_def AsString_def AsList_def AsHash_def
      AsSet_def AsZSet_def)

end
