(* ===== verification/GoChannel.thy ===== *)
theory GoChannel
  imports GoRuntime
begin

text \<open>
  Buffered Go channels. A channel is a queue with a capacity and a closed flag. \<open>c <- x\<close> waits
  on a full channel and panics on a closed one; the \<open>select\<close> with a \<open>default\<close> branch never
  waits; closing twice panics; a receive takes the oldest element, and still does after the
  channel was closed.
\<close>

section \<open>The interface\<close>

text \<open>
  What the clients of a channel rely on: a queue of bounded room, in order, with no element lost.
  \<open>content\<close> is the abstraction of a channel to the list of its pending elements.
\<close>

locale fifo_channel =
  fixes send :: "'c \<Rightarrow> 'a \<Rightarrow> 'c outcome"
    and recv :: "'c \<Rightarrow> ('a \<times> 'c) option"
    and content :: "'c \<Rightarrow> 'a list"
    and room :: "'c \<Rightarrow> nat"
    and is_open :: "'c \<Rightarrow> bool"
  assumes send_room: "is_open c \<Longrightarrow> 0 < room c \<Longrightarrow>
      \<exists>c'. send c x = Ret c' \<and> content c' = content c @ [x] \<and> Suc (room c') = room c \<and> is_open c'"
    and send_full: "is_open c \<Longrightarrow> room c = 0 \<Longrightarrow> send c x = Block"
    and send_closed: "\<not> is_open c \<Longrightarrow> send c x = Panic"
    and recv_empty: "recv c = None \<longleftrightarrow> content c = []"
    and recv_first: "recv c = Some (x, c') \<Longrightarrow> content c = x # content c'"

text \<open>A sequence of sends, and the loop \<open>for x := range c\<close> that takes what is pending.\<close>

fun send_all :: "('c \<Rightarrow> 'a \<Rightarrow> 'c outcome) \<Rightarrow> 'c \<Rightarrow> 'a list \<Rightarrow> 'c outcome" where
  "send_all send c [] = Ret c"
| "send_all send c (x # xs) = andThen (send c x) (\<lambda>c'. send_all send c' xs)"

fun receive :: "('c \<Rightarrow> ('a \<times> 'c) option) \<Rightarrow> nat \<Rightarrow> 'c \<Rightarrow> 'a list \<times> 'c" where
  "receive recv 0 c = ([], c)"
| "receive recv (Suc n) c = (case recv c of None \<Rightarrow> ([], c)
     | Some (x, c') \<Rightarrow> (let (xs, c'') = receive recv n c' in (x # xs, c'')))"

context fifo_channel
begin

lemma send_all_fits:
  assumes "is_open c" and "length xs \<le> room c"
  shows "\<exists>c'. send_all send c xs = Ret c' \<and> content c' = content c @ xs \<and>
    room c' + length xs = room c \<and> is_open c'"
  using assms
proof (induction xs arbitrary: c)
  case (Cons x xs)
  then obtain c1 where c1: "send c x = Ret c1" "content c1 = content c @ [x]"
      "Suc (room c1) = room c" "is_open c1"
    using send_room [of c x] by fastforce
  with Cons.IH [of c1] Cons.prems show ?case by fastforce
qed simp

lemma send_all_blocks:
  assumes "is_open c" and "room c < length xs"
  shows "send_all send c xs = Block"
  using assms
proof (induction xs arbitrary: c)
  case (Cons x xs)
  show ?case
  proof (cases "room c = 0")
    case True
    with Cons.prems send_full show ?thesis by simp
  next
    case False
    with Cons.prems send_room [of c x] obtain c1 where
      "send c x = Ret c1" "Suc (room c1) = room c" "is_open c1" by fastforce
    with Cons show ?thesis by simp
  qed
qed simp

lemma receive_content:
  "fst (receive recv (length (content c)) c) = content c"
proof (induction "length (content c)" arbitrary: c)
  case 0
  then show ?case by simp
next
  case (Suc n)
  then obtain x c' where r: "recv c = Some (x, c')"
    using recv_empty by (metis list.size(3) nat.simps(3) option.exhaust surj_pair)
  then have "content c = x # content c'" by (rule recv_first)
  with Suc r show ?case by (simp add: split_def)
qed

text \<open>First in, first out: draining after a run of sends yields what was pending, then the run.\<close>

lemma fifo:
  assumes "is_open c" and "send_all send c xs = Ret c'"
  shows "fst (receive recv (length (content c) + length xs) c') = content c @ xs"
proof -
  have "length xs \<le> room c"
    using assms send_all_blocks [of c xs] by (cases "room c < length xs") auto
  with send_all_fits [of c xs] assms have "content c' = content c @ xs" by auto
  with receive_content [of c'] show ?thesis by simp
qed

end

section \<open>The implementation\<close>

record 'a chan =
  ch_buf :: "'a list"
  ch_cap :: nat
  ch_closed :: bool

definition make_chan :: "nat \<Rightarrow> 'a chan" where
  "make_chan n = \<lparr>ch_buf = [], ch_cap = n, ch_closed = False\<rparr>"

definition chan_send :: "'a chan \<Rightarrow> 'a \<Rightarrow> 'a chan outcome" where
  "chan_send c x = (if ch_closed c then Panic
     else if length (ch_buf c) < ch_cap c then Ret (c\<lparr>ch_buf := ch_buf c @ [x]\<rparr>) else Block)"

definition chan_try_send :: "'a chan \<Rightarrow> 'a \<Rightarrow> ('a chan \<times> bool) outcome" where
  "chan_try_send c x = (if ch_closed c then Panic
     else if length (ch_buf c) < ch_cap c then Ret (c\<lparr>ch_buf := ch_buf c @ [x]\<rparr>, True)
     else Ret (c, False))"

definition chan_recv :: "'a chan \<Rightarrow> ('a \<times> 'a chan) option" where
  "chan_recv c = (case ch_buf c of [] \<Rightarrow> None | x # xs \<Rightarrow> Some (x, c\<lparr>ch_buf := xs\<rparr>))"

definition chan_close :: "'a chan \<Rightarrow> 'a chan outcome" where
  "chan_close c = (if ch_closed c then Panic else Ret (c\<lparr>ch_closed := True\<rparr>))"

definition chan_room :: "'a chan \<Rightarrow> nat" where
  "chan_room c = ch_cap c - length (ch_buf c)"

interpretation chan: fifo_channel chan_send chan_recv ch_buf chan_room "\<lambda>c. \<not> ch_closed c"
  by unfold_locales
     (auto simp: chan_send_def chan_recv_def chan_room_def split: list.splits)

end
