(* ===== verification/StoreCore.thy ===== *)
theory StoreCore
  imports Values GoChannel
begin

text \<open>
  The store and the helpers every operation uses: \<open>internal/core/store/store.go\<close> (the struct,
  constructor and snapshots), \<open>store_utils.go\<close> and \<open>aof_command.go\<close>. A database is a finite map
  from keys to values, the store a list of databases and the channel of the append-only file.
  The mutex of the Go struct makes each method one atomic step; a method reads the clock once.
\<close>

section \<open>State\<close>

type_synonym AOFCommand = "string list"
type_synonym database = "(string, Value) fmap"

record Store =
  data :: "database list"
  aofChan :: "AOFCommand chan option"

definition ErrNoSuchKey :: goerror where
  "ErrNoSuchKey = ''no such key''"

definition NewAOFCommand :: "string \<Rightarrow> string list \<Rightarrow> AOFCommand" where
  "NewAOFCommand name args = name # args"

definition NewStore :: "AOFCommand chan option \<Rightarrow> Store" where
  "NewStore ch = \<lparr>data = replicate 16 fmempty, aofChan = ch\<rparr>"

definition Count :: "Store \<Rightarrow> int" where
  "Count s = int (length (data s))"

section \<open>Access to a database\<close>

text \<open>\<open>s.data[dbIndex]\<close> panics when the index is out of range.\<close>

definition valid_index :: "Store \<Rightarrow> int \<Rightarrow> bool" where
  "valid_index s i \<longleftrightarrow> 0 \<le> i \<and> i < int (length (data s))"

definition db_at :: "Store \<Rightarrow> int \<Rightarrow> database outcome" where
  "db_at s i = (if valid_index s i then Ret (data s ! nat i) else Panic)"

definition put_db :: "Store \<Rightarrow> int \<Rightarrow> database \<Rightarrow> Store" where
  "put_db s i db = s\<lparr>data := (data s)[nat i := db]\<rparr>"

definition appendAOF :: "Store \<Rightarrow> string \<Rightarrow> string list \<Rightarrow> Store outcome" where
  "appendAOF s name args = (case aofChan s of None \<Rightarrow> Ret s
     | Some ch \<Rightarrow> andThen (chan_send ch (NewAOFCommand name args)) (\<lambda>ch'. Ret (s\<lparr>aofChan := Some ch'\<rparr>)))"

definition dbIndexArg :: "int \<Rightarrow> string" where
  "dbIndexArg i = Itoa i"

definition delKey :: "Store \<Rightarrow> int \<Rightarrow> string \<Rightarrow> Store outcome" where
  "delKey s i key = andThen (db_at s i) (\<lambda>db. Ret (put_db s i (fmdrop key db)))"

definition setKey :: "Store \<Rightarrow> int \<Rightarrow> string \<Rightarrow> Value \<Rightarrow> Store outcome" where
  "setKey s i key v = andThen (db_at s i) (\<lambda>db. Ret (put_db s i (fmupd key v db)))"

definition lookup :: "Store \<Rightarrow> int \<Rightarrow> string \<Rightarrow> Value option outcome" where
  "lookup s i key = andThen (db_at s i) (\<lambda>db. Ret (fmlookup db key))"

definition flushDb :: "Store \<Rightarrow> int \<Rightarrow> Store outcome" where
  "flushDb s i = andThen (db_at s i) (\<lambda>_. Ret (put_db s i fmempty))"

definition Store_Delete :: "Store \<Rightarrow> int \<Rightarrow> string \<Rightarrow> Store outcome" where
  "Store_Delete s i key = delKey s i key"

section \<open>Snapshots and test helpers\<close>

text \<open>
  \<open>GetSnapshot\<close> copies every database into a fresh map with \<open>maps.Copy\<close>. The copy holds the
  same \<open>*Value\<close> pointers; here, where values are immutable, it holds the same values.
\<close>

definition GetSnapshot :: "Store \<Rightarrow> database list" where
  "GetSnapshot s = map (\<lambda>db. fmempty ++\<^sub>f db) (data s)"

definition RestoreFromSnapshot :: "Store \<Rightarrow> database list \<Rightarrow> Store" where
  "RestoreFromSnapshot s d = s\<lparr>data := d\<rparr>"

definition GetListLength :: "Store \<Rightarrow> int \<Rightarrow> string \<Rightarrow> int outcome" where
  "GetListLength s i key = andThen (lookup s i key) (\<lambda>r. case r of None \<Rightarrow> Ret 0
     | Some v \<Rightarrow> (case AsList v of Inl _ \<Rightarrow> Ret 0 | Inr xs \<Rightarrow> Ret (int (length xs))))"

definition GetList :: "Store \<Rightarrow> int \<Rightarrow> string \<Rightarrow> goval list outcome" where
  "GetList s i key = andThen (lookup s i key) (\<lambda>r. case r of None \<Rightarrow> Ret []
     | Some v \<Rightarrow> (case AsList v of Inl _ \<Rightarrow> Ret [] | Inr xs \<Rightarrow> Ret xs))"

definition SetRawValue :: "Store \<Rightarrow> int \<Rightarrow> string \<Rightarrow> goval \<Rightarrow> Store outcome" where
  "SetRawValue s i key x = setKey s i key \<lparr>Type = TypeString, Data = x, ExpiresAt = None\<rparr>"

section \<open>Well-formed stores\<close>

definition wf_db :: "database \<Rightarrow> bool" where
  "wf_db db \<longleftrightarrow> fmpred (\<lambda>_. wf_value) db"

definition wf_store :: "Store \<Rightarrow> bool" where
  "wf_store s \<longleftrightarrow> length (data s) = 16 \<and> list_all wf_db (data s)"

definition aof_open :: "Store \<Rightarrow> bool" where
  "aof_open s \<longleftrightarrow> (case aofChan s of None \<Rightarrow> True | Some ch \<Rightarrow> \<not> ch_closed ch)"

text \<open>The commands waiting in the channel of the append-only file.\<close>

definition pending :: "Store \<Rightarrow> AOFCommand list" where
  "pending s = (case aofChan s of None \<Rightarrow> [] | Some ch \<Rightarrow> ch_buf ch)"

text \<open>How many commands can still be sent before a send waits: \<open>None\<close> for no bound.\<close>

definition aof_room :: "Store \<Rightarrow> nat \<Rightarrow> bool" where
  "aof_room s n \<longleftrightarrow> (case aofChan s of None \<Rightarrow> True
     | Some ch \<Rightarrow> \<not> ch_closed ch \<and> n \<le> chan_room ch)"

lemmas store_helpers [op_defs] =
  db_at_def delKey_def setKey_def lookup_def flushDb_def

lemma wf_db_empty [simp]: "wf_db fmempty"
  by (simp add: wf_db_def)

lemma wf_db_upd [intro]: "wf_db db \<Longrightarrow> wf_value v \<Longrightarrow> wf_db (fmupd k v db)"
  by (auto simp: wf_db_def)

lemma wf_db_drop [intro]: "wf_db db \<Longrightarrow> wf_db (fmdrop k db)"
  by (auto simp: wf_db_def)

lemma wf_db_lookup: "wf_db db \<Longrightarrow> fmlookup db k = Some v \<Longrightarrow> wf_value v"
  by (auto simp: wf_db_def)

lemma wf_store_NewStore [simp]: "wf_store (NewStore ch)"
  by (simp add: wf_store_def NewStore_def list_all_iff)

lemma wf_store_db: "wf_store s \<Longrightarrow> valid_index s i \<Longrightarrow> wf_db (data s ! nat i)"
  by (auto simp: wf_store_def valid_index_def list_all_length)

lemma wf_store_put: "wf_store s \<Longrightarrow> wf_db db \<Longrightarrow> wf_store (put_db s i db)"
  by (auto simp: wf_store_def put_db_def list_all_iff dest: set_update_subset_insert [THEN subsetD])

lemma wf_store_valid: "wf_store s \<Longrightarrow> valid_index s i \<longleftrightarrow> 0 \<le> i \<and> i < 16"
  by (simp add: valid_index_def wf_store_def)

lemma valid_index_put [simp]: "valid_index (put_db s i db) j = valid_index s j"
  by (simp add: valid_index_def put_db_def)

lemma put_db_same [simp]: "valid_index s i \<Longrightarrow> data (put_db s i db) ! nat i = db"
  by (simp add: valid_index_def put_db_def nat_less_iff)

lemma put_db_put [simp]: "put_db (put_db s i a) i b = put_db s i b"
  by (simp add: put_db_def)

lemma put_db_other:
  "valid_index s i \<Longrightarrow> valid_index s j \<Longrightarrow> i \<noteq> j \<Longrightarrow> data (put_db s i db) ! nat j = data s ! nat j"
  by (simp add: valid_index_def put_db_def nat_eq_iff)

lemma aofChan_put [simp]: "aofChan (put_db s i db) = aofChan s"
  by (simp add: put_db_def)

lemma pending_put [simp]: "pending (put_db s i db) = pending s"
  by (simp add: pending_def)

lemma aof_room_put [simp]: "aof_room (put_db s i db) n = aof_room s n"
  by (simp add: aof_room_def)

lemma aof_open_put [simp]: "aof_open (put_db s i db) = aof_open s"
  by (simp add: aof_open_def)

lemma data_put: "data (put_db s i db) = (data s)[nat i := db]"
  by (simp add: put_db_def)

text \<open>
  \<open>appendAOF\<close> changes the channel only. When the channel has room it returns, with the command
  appended to what is pending.
\<close>

lemma appendAOF_data: "appendAOF s name args = Ret s' \<Longrightarrow> data s' = data s"
  by (auto simp: appendAOF_def split: option.splits)

lemma appendAOF_wf: "appendAOF s name args = Ret s' \<Longrightarrow> wf_store s' = wf_store s"
  by (simp add: wf_store_def appendAOF_data)

lemma appendAOF_valid: "appendAOF s name args = Ret s' \<Longrightarrow> valid_index s' i = valid_index s i"
  by (simp add: valid_index_def appendAOF_data)

lemma appendAOF_open: "appendAOF s name args = Ret s' \<Longrightarrow> aof_open s' = aof_open s"
  by (auto simp: appendAOF_def aof_open_def chan_send_def split: option.splits if_splits)

lemma appendAOF_no_panic: "aof_open s \<Longrightarrow> appendAOF s name args \<noteq> Panic"
  by (auto simp: appendAOF_def aof_open_def chan_send_def split: option.splits if_splits)

text \<open>The store after a send that found room.\<close>

definition with_sent :: "Store \<Rightarrow> AOFCommand \<Rightarrow> Store" where
  "with_sent s cmd = s\<lparr>aofChan := map_option (\<lambda>ch. ch\<lparr>ch_buf := ch_buf ch @ [cmd]\<rparr>) (aofChan s)\<rparr>"

lemma appendAOF_room:
  "aof_room s (Suc n) \<Longrightarrow> appendAOF s name args = Ret (with_sent s (name # args))"
  by (auto simp: appendAOF_def aof_room_def chan_send_def chan_room_def with_sent_def
      NewAOFCommand_def split: option.splits)

lemma appendAOF_Ret: "appendAOF s name args = Ret s' \<Longrightarrow> s' = with_sent s (name # args)"
  by (auto simp: appendAOF_def chan_send_def with_sent_def NewAOFCommand_def
      split: option.splits if_splits)

lemma aof_room_sent: "aof_room s (Suc n) \<Longrightarrow> aof_room (with_sent s cmd) n"
  by (auto simp: aof_room_def with_sent_def chan_room_def split: option.splits)

lemma aof_room_mono: "aof_room s n \<Longrightarrow> m \<le> n \<Longrightarrow> aof_room s m"
  by (auto simp: aof_room_def split: option.splits)

lemma data_sent [simp]: "data (with_sent s cmd) = data s"
  by (simp add: with_sent_def)

lemma put_db_sent: "put_db (with_sent s cmd) i db = with_sent (put_db s i db) cmd"
  by (simp add: put_db_def with_sent_def)

lemma valid_index_sent [simp]: "valid_index (with_sent s cmd) i = valid_index s i"
  by (simp add: valid_index_def)

lemma wf_store_sent [simp]: "wf_store (with_sent s cmd) = wf_store s"
  by (simp add: wf_store_def)

lemma with_sent_nil [simp]: "aofChan s = None \<Longrightarrow> with_sent s cmd = s"
  by (simp add: with_sent_def)

lemma aof_open_sent [simp]: "aof_open (with_sent s cmd) = aof_open s"
  by (simp add: aof_open_def with_sent_def split: option.splits)

text \<open>Without a channel (\<open>aofChan == nil\<close>) nothing is ever sent.\<close>

lemma appendAOF_nil [simp]: "aofChan s = None \<Longrightarrow> appendAOF s name args = Ret s"
  by (simp add: appendAOF_def)

lemma pending_sent: "aofChan s \<noteq> None \<Longrightarrow> pending (with_sent s cmd) = pending s @ [cmd]"
  by (auto simp: pending_def with_sent_def)

text \<open>A full channel that nobody drains makes every send wait.\<close>

lemma appendAOF_full:
  "aofChan s = Some ch \<Longrightarrow> \<not> ch_closed ch \<Longrightarrow> ch_cap ch \<le> length (ch_buf ch) \<Longrightarrow>
    appendAOF s name args = Block"
  by (simp add: appendAOF_def chan_send_def)

end
