(* ===== verification/StoreStrings.thy ===== *)
theory StoreStrings
  imports StoreCore
begin

text \<open>
  The string and key-space operations of the store (\<open>commands.go\<close> and \<open>store.go\<close>). Operations
  that can fail return \<open>Inl\<close> with the error; operations that write return the new store.
  Pattern matching goes through \<open>regexp.Compile\<close>, whose result is a parameter: an error, or the
  predicate \<open>MatchString\<close>. Loops that range over a map take the visiting order as an argument.
\<close>

type_synonym regexp_lib = "string \<Rightarrow> goerror + (string \<Rightarrow> bool)"

section \<open>SET and its options\<close>

record SetOptions =
  opt_NX :: bool
  opt_XX :: bool
  opt_EX :: int
  opt_PX :: int

definition no_options :: SetOptions where
  "no_options = \<lparr>opt_NX = False, opt_XX = False, opt_EX = 0, opt_PX = 0\<rparr>"

fun parse_options_loop :: "SetOptions \<Rightarrow> string list \<Rightarrow> goerror + SetOptions" where
  "parse_options_loop opts [] = Inr opts"
| "parse_options_loop opts (a # args) =
     (if ToUpper a = ''NX'' then parse_options_loop (opts\<lparr>opt_NX := True\<rparr>) args
      else if ToUpper a = ''XX'' then parse_options_loop (opts\<lparr>opt_XX := True\<rparr>) args
      else if ToUpper a = ''EX'' then
        (case args of [] \<Rightarrow> Inl ''missing value for EX option''
         | v # rest \<Rightarrow> (case Atoi v of
             (seconds, None) \<Rightarrow> parse_options_loop (opts\<lparr>opt_EX := seconds\<rparr>) rest
           | (_, Some _) \<Rightarrow> Inl ''invalid value for EX option''))
      else if ToUpper a = ''PX'' then
        (case args of [] \<Rightarrow> Inl ''missing value for PX option''
         | v # rest \<Rightarrow> (case Atoi v of
             (milliseconds, None) \<Rightarrow> parse_options_loop (opts\<lparr>opt_PX := milliseconds\<rparr>) rest
           | (_, Some _) \<Rightarrow> Inl ''invalid value for PX option''))
      else Inl (''unknown option: '' @ a))"

definition parseSetOptions :: "string list \<Rightarrow> goerror + SetOptions" where
  "parseSetOptions args = (case parse_options_loop no_options args of
     Inl e \<Rightarrow> Inl e
   | Inr opts \<Rightarrow> if opt_NX opts \<and> opt_XX opts then Inl ''ERR syntax error'' else Inr opts)"

text \<open>A key counts as present when it has a live value whose payload is not nil.\<close>

definition present :: "time \<Rightarrow> Value option \<Rightarrow> bool" where
  "present now r = (case r of None \<Rightarrow> False | Some v \<Rightarrow> \<not> IsExpired now v \<and> Data v \<noteq> GNil)"

definition value_of_raw :: "goval \<Rightarrow> Value" where
  "value_of_raw raw = (case raw of
     GStr s \<Rightarrow> NewStringValue s
   | GList xs \<Rightarrow> NewListValue xs
   | GMap m \<Rightarrow> NewHashValue m
   | GSet A \<Rightarrow> NewSetValue A
   | GZSet z \<Rightarrow> NewZSetValue z
   | _ \<Rightarrow> NewStringValue (Sprintf_v raw))"

definition set_write :: "Store \<Rightarrow> time \<Rightarrow> int \<Rightarrow> string \<Rightarrow> goval \<Rightarrow> SetOptions \<Rightarrow> Store outcome" where
  "set_write s now i key raw opts =
     andThen (appendAOF s ''SET'' [dbIndexArg i, key, Sprintf_v raw]) (\<lambda>s.
       let value = value_of_raw raw in
       if 0 < opt_EX opts then
         andThen (appendAOF s ''EXPIRE'' [dbIndexArg i, key, Itoa (opt_EX opts)])
           (\<lambda>s. setKey s i key (SetExpiration now (Duration_mul (opt_EX opts) Second) value))
       else if 0 < opt_PX opts then
         andThen (appendAOF s ''EXPIRE'' [dbIndexArg i, key, Itoa (quot_trunc (opt_PX opts) 1000)])
           (\<lambda>s. setKey s i key (SetExpiration now (Duration_mul (opt_PX opts) Millisecond) value))
       else setKey s i key value)"

definition Store_Set :: "Store \<Rightarrow> time \<Rightarrow> int \<Rightarrow> string \<Rightarrow> goval \<Rightarrow> string list \<Rightarrow>
    ((goerror + bool) \<times> Store) outcome" where
  "Store_Set s now i key raw args = (case parseSetOptions args of
     Inl e \<Rightarrow> Ret (Inl e, s)
   | Inr opts \<Rightarrow>
       andThen (if opt_NX opts \<or> opt_XX opts then lookup s i key else Ret None) (\<lambda>existing.
         if opt_NX opts \<and> present now existing then Ret (Inr False, s)
         else if opt_XX opts \<and> \<not> present now existing then Ret (Inr False, s)
         else andThen (set_write s now i key raw opts) (\<lambda>s. Ret (Inr True, s))))"

definition Store_Get :: "Store \<Rightarrow> time \<Rightarrow> int \<Rightarrow> string \<Rightarrow> Value option outcome" where
  "Store_Get s now i key = andThen (lookup s i key) (\<lambda>r. case r of
     None \<Rightarrow> Ret None
   | Some v \<Rightarrow> if IsExpired now v then Ret None else Ret (Some v))"

section \<open>Reading strings\<close>

text \<open>
  The bounds of a range: negative indices count from the end, \<open>start\<close> is clamped to 0 and
  \<open>stop\<close> to the last element. \<open>GETRANGE\<close>, \<open>LRANGE\<close> and \<open>LTRIM\<close> contain the same four
  statements.
\<close>

definition clamp_range :: "int \<Rightarrow> int \<Rightarrow> int \<Rightarrow> int \<times> int" where
  "clamp_range len start stop =
     (let start = (if start < 0 then len + start else start);
          stop = (if stop < 0 then len + stop else stop);
          start = (if start < 0 then 0 else start);
          stop = (if stop \<ge> len then len - 1 else stop)
      in (start, stop))"

definition Store_GetRange :: "Store \<Rightarrow> time \<Rightarrow> int \<Rightarrow> string \<Rightarrow> int \<Rightarrow> int \<Rightarrow> (goerror + string) outcome"
where
  "Store_GetRange s now i key start stop = andThen (lookup s i key) (\<lambda>r. case r of
     None \<Rightarrow> Ret (Inl ErrNoSuchKey)
   | Some v \<Rightarrow>
       if IsExpired now v then Ret (Inl ErrNoSuchKey)
       else (case Data v of
         GStr str \<Rightarrow>
           (let (start, stop) = clamp_range (int (length str)) start stop
            in if start > stop then Ret (Inr [])
               else andThen (go_slice str start (stop + 1)) (\<lambda>x. Ret (Inr x)))
       | _ \<Rightarrow> Ret (Inl ''value is not a string'')))"

definition Store_StrLen :: "Store \<Rightarrow> time \<Rightarrow> int \<Rightarrow> string \<Rightarrow> (goerror + int) outcome" where
  "Store_StrLen s now i key = andThen (lookup s i key) (\<lambda>r. case r of
     None \<Rightarrow> Ret (Inl ErrNoSuchKey)
   | Some v \<Rightarrow>
       if IsExpired now v then Ret (Inl ErrNoSuchKey)
       else (case Data v of GStr str \<Rightarrow> Ret (Inr (int (length str))) | _ \<Rightarrow> Ret (Inl ErrWrongType)))"

section \<open>Keys\<close>

definition Store_Del :: "Store \<Rightarrow> int \<Rightarrow> string \<Rightarrow> Store outcome" where
  "Store_Del s i key = andThen (delKey s i key) (\<lambda>s. appendAOF s ''DEL'' [dbIndexArg i, key])"

fun exists_loop :: "Store \<Rightarrow> time \<Rightarrow> int \<Rightarrow> string list \<Rightarrow> int \<Rightarrow> int outcome" where
  "exists_loop s now i [] count = Ret count"
| "exists_loop s now i (key # keys) count = andThen (lookup s i key) (\<lambda>r.
     exists_loop s now i keys (if present now r then count + 1 else count))"

definition Store_Exists :: "Store \<Rightarrow> time \<Rightarrow> int \<Rightarrow> string list \<Rightarrow> int outcome" where
  "Store_Exists s now i keys = exists_loop s now i keys 0"

text \<open>
  \<open>SetNX\<close> takes the lock twice, once in \<open>Exists\<close> and once in \<open>Set\<close>; each has its own reading
  of the clock, and another connection may run in between.
\<close>

definition setnx_check :: "Store \<Rightarrow> time \<Rightarrow> int \<Rightarrow> string \<Rightarrow> bool outcome" where
  "setnx_check s now i key = andThen (Store_Exists s now i [key]) (\<lambda>n. Ret (0 < n))"

definition setnx_store :: "Store \<Rightarrow> time \<Rightarrow> int \<Rightarrow> string \<Rightarrow> string \<Rightarrow> (int \<times> Store) outcome" where
  "setnx_store s now i key value = andThen (Store_Set s now i key (GStr value) []) (\<lambda>(r, s).
     case r of Inr True \<Rightarrow> Ret (1, s) | _ \<Rightarrow> Ret (0, s))"

definition Store_SetNX :: "Store \<Rightarrow> time \<Rightarrow> time \<Rightarrow> int \<Rightarrow> string \<Rightarrow> string \<Rightarrow> (int \<times> Store) outcome" where
  "Store_SetNX s now now' i key value = andThen (setnx_check s now i key) (\<lambda>taken.
     if taken then Ret (0, s) else setnx_store s now' i key value)"

definition Store_Expire :: "Store \<Rightarrow> time \<Rightarrow> int \<Rightarrow> string \<Rightarrow> duration \<Rightarrow> (bool \<times> Store) outcome" where
  "Store_Expire s now i key ttl = andThen (lookup s i key) (\<lambda>r. case r of
     None \<Rightarrow> Ret (False, s)
   | Some v \<Rightarrow>
       andThen (setKey s i key (v\<lparr>ExpiresAt := Some (Time_Add now ttl)\<rparr>)) (\<lambda>s.
       andThen (appendAOF s ''EXPIRE'' [dbIndexArg i, key, Itoa (seconds_int ttl)]) (\<lambda>s.
       Ret (True, s))))"

text \<open>
  \<open>Incr\<close> and \<open>Decr\<close> differ in the step and the logged name. The assertion
  \<open>value.Data.(string)\<close> panics for another payload.
\<close>

definition add_step :: "Store \<Rightarrow> int \<Rightarrow> string \<Rightarrow> int \<Rightarrow> string \<Rightarrow> ((goerror + int) \<times> Store) outcome" where
  "add_step s i key step name = andThen (lookup s i key) (\<lambda>r.
     let v = (case r of None \<Rightarrow> \<lparr>Type = TypeString, Data = GStr ''0'', ExpiresAt = None\<rparr>
              | Some v \<Rightarrow> v) in
     if Type v \<noteq> TypeString then Ret (Inl ErrNotInteger, s)
     else (case Data v of
       GStr str \<Rightarrow> (case Atoi str of
           (_, Some _) \<Rightarrow> Ret (Inl ErrNotInteger, s)
         | (n, None) \<Rightarrow>
             let n = wrap64 (n + step) in
             andThen (setKey s i key (v\<lparr>Data := GStr (Itoa n)\<rparr>)) (\<lambda>s.
             andThen (appendAOF s name [dbIndexArg i, key]) (\<lambda>s.
             Ret (Inr n, s))))
     | _ \<Rightarrow> Panic))"

definition Store_Incr :: "Store \<Rightarrow> int \<Rightarrow> string \<Rightarrow> ((goerror + int) \<times> Store) outcome" where
  "Store_Incr s i key = add_step s i key 1 ''INCR''"

definition Store_Decr :: "Store \<Rightarrow> int \<Rightarrow> string \<Rightarrow> ((goerror + int) \<times> Store) outcome" where
  "Store_Decr s i key = add_step s i key (-1) ''DECR''"

definition Store_TTL :: "Store \<Rightarrow> time \<Rightarrow> int \<Rightarrow> string \<Rightarrow> int outcome" where
  "Store_TTL s now i key = andThen (lookup s i key) (\<lambda>r. case r of
     None \<Rightarrow> Ret (-2)
   | Some v \<Rightarrow> (case ExpiresAt v of
       None \<Rightarrow> Ret (-1)
     | Some t \<Rightarrow> Ret (seconds_int (time_Until now t))))"

definition Store_Rename :: "Store \<Rightarrow> time \<Rightarrow> int \<Rightarrow> string \<Rightarrow> string \<Rightarrow> (goerror option \<times> Store) outcome"
where
  "Store_Rename s now i oldKey newKey = andThen (lookup s i oldKey) (\<lambda>r. case r of
     None \<Rightarrow> Ret (Some ErrNoSuchKey, s)
   | Some v \<Rightarrow>
       if IsExpired now v then Ret (None, s)
       else
         andThen (lookup s i newKey) (\<lambda>dest.
         andThen (if dest \<noteq> None then delKey s i newKey else Ret s) (\<lambda>s.
         andThen (setKey s i newKey v) (\<lambda>s.
         andThen (delKey s i oldKey) (\<lambda>s.
         andThen (appendAOF s ''RENAME'' [dbIndexArg i, oldKey, newKey]) (\<lambda>s.
         Ret (None, s)))))))"

definition type_name :: "ValueType \<Rightarrow> string" where
  "type_name t = (case t of TypeString \<Rightarrow> ''string'' | TypeList \<Rightarrow> ''list'' | TypeHash \<Rightarrow> ''hash''
     | TypeSet \<Rightarrow> ''set'' | TypeZSet \<Rightarrow> ''zset'' | TypeNull \<Rightarrow> ''none'')"

definition Store_Type :: "Store \<Rightarrow> int \<Rightarrow> string \<Rightarrow> string outcome" where
  "Store_Type s i key = andThen (lookup s i key) (\<lambda>r. case r of
     None \<Rightarrow> Ret ''none'' | Some v \<Rightarrow> Ret (type_name (Type v)))"

section \<open>The key space\<close>

definition ReplaceAll :: "string \<Rightarrow> char \<Rightarrow> string \<Rightarrow> string" where
  "ReplaceAll s c new = concat (map (\<lambda>x. if x = c then new else [x]) s)"

definition Store_Keys :: "regexp_lib \<Rightarrow> Store \<Rightarrow> int \<Rightarrow> string \<Rightarrow> string list \<Rightarrow>
    (goerror + string list) outcome" where
  "Store_Keys re s i pattern order =
     (case re (''^'' @ ReplaceAll pattern (CHR ''*'') ''.*'' @ ''$'') of
        Inl e \<Rightarrow> Ret (Inl e)
      | Inr matches \<Rightarrow> andThen (db_at s i) (\<lambda>_. Ret (Inr (filter matches order))))"

definition Store_FlushDb :: "Store \<Rightarrow> int \<Rightarrow> (string \<times> Store) outcome" where
  "Store_FlushDb s i = andThen (flushDb s i) (\<lambda>s.
     andThen (appendAOF s ''FLUSHDB'' [dbIndexArg i]) (\<lambda>s. Ret (''OK'', s)))"

fun flush_each :: "Store \<Rightarrow> int list \<Rightarrow> Store outcome" where
  "flush_each s [] = Ret s"
| "flush_each s (i # is) = andThen (flushDb s i) (\<lambda>s. flush_each s is)"

definition Store_FlushAll :: "Store \<Rightarrow> (string \<times> Store) outcome" where
  "Store_FlushAll s = andThen (flush_each s (map int [0..<length (data s)])) (\<lambda>s.
     andThen (appendAOF s ''FLUSHALL'' []) (\<lambda>s. Ret (''OK'', s)))"

text \<open>
  \<open>Scan\<close> collects the live keys in the order of one \<open>range\<close> loop, takes the window that the
  cursor and the count select, and filters it. \<open>cursor + count\<close> is 64-bit addition.
\<close>

definition scan_matches :: "regexp_lib \<Rightarrow> string \<Rightarrow> string list \<Rightarrow> goerror + string list" where
  "scan_matches re pattern window =
     (if pattern \<noteq> [] \<and> pattern \<noteq> ''*'' then
        (case re (''^'' @ ReplaceAll (ReplaceAll pattern (CHR ''?'') ''.'') (CHR ''*'') ''.*'' @ ''$'') of
           Inl e \<Rightarrow> Inl e
         | Inr matches \<Rightarrow> Inr (filter matches window))
      else Inr window)"

definition live_keys :: "time \<Rightarrow> database \<Rightarrow> string list \<Rightarrow> string list" where
  "live_keys now db order = filter (\<lambda>k. case fmlookup db k of
     Some v \<Rightarrow> \<not> IsExpired now v | None \<Rightarrow> True) order"

definition Store_Scan :: "regexp_lib \<Rightarrow> Store \<Rightarrow> time \<Rightarrow> int \<Rightarrow> int \<Rightarrow> string \<Rightarrow> int \<Rightarrow> string list \<Rightarrow>
    (goerror + int \<times> string list) outcome" where
  "Store_Scan re s now i cursor pattern count order = andThen (db_at s i) (\<lambda>db.
     let allKeys = live_keys now db order; n = int (length allKeys) in
     if cursor < 0 \<or> n \<le> cursor then Ret (Inr (0, []))
     else
       let count = (if count \<le> 0 then 10 else count);
           stop = wrap64 (cursor + count);
           stop = (if n < stop then n else stop) in
       andThen (go_slice allKeys cursor stop) (\<lambda>window.
         case scan_matches re pattern window of
           Inl e \<Rightarrow> Ret (Inl e)
         | Inr matched \<Rightarrow> Ret (Inr (if n \<le> stop then 0 else stop, matched))))"

lemmas store_string_defs [op_defs] =
  Store_Set_def set_write_def Store_Get_def Store_GetRange_def Store_StrLen_def Store_Del_def
  Store_Exists_def setnx_check_def setnx_store_def Store_SetNX_def Store_Expire_def add_step_def
  Store_Incr_def Store_Decr_def Store_TTL_def Store_Rename_def Store_Type_def Store_Keys_def
  Store_FlushDb_def Store_FlushAll_def Store_Scan_def

end
