(* ===== verification/StoreLists.thy ===== *)
theory StoreLists
  imports StoreStrings
begin

text \<open>
  The list operations of the store (\<open>LPush\<close>, \<open>RPush\<close>, \<open>LPop\<close>, \<open>RPop\<close>, \<open>LRange\<close>, \<open>LTrim\<close> of
  \<open>store.go\<close>). The result of a pop is an \<open>interface{}\<close>: nil, one element, or a slice.
\<close>

section \<open>Pushing\<close>

definition Store_LPush :: "Store \<Rightarrow> int \<Rightarrow> string \<Rightarrow> goval list \<Rightarrow> ((goerror + int) \<times> Store) outcome" where
  "Store_LPush s i key values =
     (let strValues = map Sprintf_v values;
          values = (if 1 < length values then slice_Reverse values else values) in
      andThen (lookup s i key) (\<lambda>r. case r of
        None \<Rightarrow>
          andThen (appendAOF s ''LPUSH'' ([dbIndexArg i, key] @ strValues)) (\<lambda>s.
          andThen (setKey s i key (NewListValue values)) (\<lambda>s.
          Ret (Inr (int (length values)), s)))
      | Some v \<Rightarrow> (case AsList v of
          Inl e \<Rightarrow> Ret (Inl e, s)
        | Inr list \<Rightarrow>
            andThen (appendAOF s ''LPUSH'' ([dbIndexArg i, key] @ strValues)) (\<lambda>s.
            let list = values @ list in
            andThen (setKey s i key (v\<lparr>Data := GList list\<rparr>)) (\<lambda>s.
            Ret (Inr (int (length list)), s))))))"

definition Store_RPush :: "Store \<Rightarrow> int \<Rightarrow> string \<Rightarrow> goval list \<Rightarrow> ((goerror + int) \<times> Store) outcome" where
  "Store_RPush s i key values =
     (let strValues = map Sprintf_v values in
      andThen (lookup s i key) (\<lambda>r. case r of
        None \<Rightarrow>
          andThen (appendAOF s ''RPUSH'' ([dbIndexArg i, key] @ strValues)) (\<lambda>s.
          andThen (setKey s i key (NewListValue values)) (\<lambda>s.
          Ret (Inr (int (length values)), s)))
      | Some v \<Rightarrow> (case AsList v of
          Inl e \<Rightarrow> Ret (Inl e, s)
        | Inr list \<Rightarrow>
            andThen (appendAOF s ''RPUSH'' ([dbIndexArg i, key] @ strValues)) (\<lambda>s.
            let list = list @ values in
            andThen (setKey s i key (v\<lparr>Data := GList list\<rparr>)) (\<lambda>s.
            Ret (Inr (int (length list)), s))))))"

section \<open>Popping\<close>

definition ErrPositive :: goerror where
  "ErrPositive = ''value is out of range, must be positive''"

text \<open>A single pop without a count returns the element itself, any other the slice.\<close>

definition pop_reply :: "int \<Rightarrow> int option \<Rightarrow> goval list \<Rightarrow> goval outcome" where
  "pop_reply count pcount popped = (if count = 1 \<and> pcount = None
     then (case popped of [] \<Rightarrow> Panic | x # _ \<Rightarrow> Ret x) else Ret (GList popped))"

definition Store_LPop :: "Store \<Rightarrow> time \<Rightarrow> int \<Rightarrow> string \<Rightarrow> int option \<Rightarrow>
    ((goerror + goval) \<times> Store) outcome" where
  "Store_LPop s now i key pcount = andThen (lookup s i key) (\<lambda>r. case r of
     None \<Rightarrow> Ret (Inr GNil, s)
   | Some v \<Rightarrow>
       if IsExpired now v then Ret (Inr GNil, s)
       else
         let count = (case pcount of None \<Rightarrow> 1 | Some c \<Rightarrow> c) in
         if count < 0 then Ret (Inl ErrPositive, s)
         else (case AsList v of
           Inl e \<Rightarrow> Ret (Inl e, s)
         | Inr list \<Rightarrow>
             let n = int (length list) in
             if n = 0 then Ret (Inr GNil, s)
             else
               let count = (if n < count then n else count) in
               andThen (go_slice list 0 count) (\<lambda>popped.
               andThen (go_slice list count n) (\<lambda>rest.
               andThen (setKey s i key (v\<lparr>Data := GList rest\<rparr>)) (\<lambda>s.
               andThen (appendAOF s ''LPOP'' [dbIndexArg i, key, Itoa count]) (\<lambda>s.
               andThen (pop_reply count pcount popped) (\<lambda>x.
               Ret (Inr x, s))))))))"

definition Store_RPop :: "Store \<Rightarrow> time \<Rightarrow> int \<Rightarrow> string \<Rightarrow> int option \<Rightarrow>
    ((goerror + goval) \<times> Store) outcome" where
  "Store_RPop s now i key pcount = andThen (lookup s i key) (\<lambda>r. case r of
     None \<Rightarrow> Ret (Inr GNil, s)
   | Some v \<Rightarrow>
       if IsExpired now v then Ret (Inr GNil, s)
       else
         let count = (case pcount of None \<Rightarrow> 1 | Some c \<Rightarrow> c) in
         if count < 0 \<and> pcount \<noteq> None then Ret (Inl ErrPositive, s)
         else (case AsList v of
           Inl e \<Rightarrow> Ret (Inl e, s)
         | Inr list \<Rightarrow>
             let n = int (length list) in
             if n = 0 then Ret (Inr GNil, s)
             else
               let count = (if n < count then n else count) in
               andThen (go_slice list (n - count) n) (\<lambda>popped.
               andThen (go_slice list 0 (n - count)) (\<lambda>rest.
               andThen (setKey s i key (v\<lparr>Data := GList rest\<rparr>)) (\<lambda>s.
               andThen (appendAOF s ''RPOP'' [dbIndexArg i, key, Itoa count]) (\<lambda>s.
               andThen (pop_reply count pcount popped) (\<lambda>x.
               Ret (Inr x, s))))))))"

section \<open>Ranges\<close>

definition Store_LRange :: "Store \<Rightarrow> time \<Rightarrow> int \<Rightarrow> string \<Rightarrow> int \<Rightarrow> int \<Rightarrow>
    (goerror + goval list) outcome" where
  "Store_LRange s now i key start stop = andThen (lookup s i key) (\<lambda>r. case r of
     None \<Rightarrow> Ret (Inr [])
   | Some v \<Rightarrow>
       if IsExpired now v then Ret (Inr [])
       else (case AsList v of
         Inl e \<Rightarrow> Ret (Inl e)
       | Inr list \<Rightarrow>
           let n = int (length list); (start, stop) = clamp_range n start stop in
           if start > stop \<or> start \<ge> n \<or> stop < 0 then Ret (Inr [])
           else andThen (go_slice list start (stop + 1)) (\<lambda>xs. Ret (Inr xs))))"

definition Store_LTrim :: "Store \<Rightarrow> time \<Rightarrow> int \<Rightarrow> string \<Rightarrow> int \<Rightarrow> int \<Rightarrow>
    (goerror option \<times> Store) outcome" where
  "Store_LTrim s now i key start stop = andThen (lookup s i key) (\<lambda>r. case r of
     None \<Rightarrow> Ret (None, s)
   | Some v \<Rightarrow>
       if IsExpired now v then Ret (None, s)
       else (case AsList v of
         Inl e \<Rightarrow> Ret (None, s)
       | Inr list \<Rightarrow>
           let n = int (length list); (start, stop) = clamp_range n start stop in
           if start > stop \<or> start \<ge> n then
             andThen (delKey s i key) (\<lambda>s.
             andThen (appendAOF s ''DEL'' [dbIndexArg i, key]) (\<lambda>s.
             Ret (None, s)))
           else
             andThen (go_slice list start (stop + 1)) (\<lambda>xs.
             andThen (setKey s i key (v\<lparr>Data := GList xs\<rparr>)) (\<lambda>s.
             andThen (appendAOF s ''LTRIM'' [dbIndexArg i, key, Itoa start, Itoa stop]) (\<lambda>s.
             Ret (None, s))))))"

lemmas store_list_defs [op_defs] =
  Store_LPush_def Store_RPush_def Store_LPop_def Store_RPop_def Store_LRange_def Store_LTrim_def

section \<open>Facts\<close>

lemma go_slice_ok: "0 \<le> a \<Longrightarrow> a \<le> b \<Longrightarrow> b \<le> int (length xs) \<Longrightarrow>
    go_slice xs a b = Ret (drop (nat a) (take (nat b) xs))"
  by (simp add: go_slice_def)

text \<open>
  What the four clamping statements compute, over mathematical integers: the reference
  \<open>range_spec\<close> is the list of the elements at the positions between the two (negative positions
  count from the end).
\<close>

definition from_end :: "nat \<Rightarrow> int \<Rightarrow> int" where
  "from_end n i = (if i < 0 then int n + i else i)"

definition range_spec :: "'a list \<Rightarrow> int \<Rightarrow> int \<Rightarrow> 'a list" where
  "range_spec xs start stop = map ((!) xs)
     (filter (\<lambda>k. from_end (length xs) start \<le> int k \<and> int k \<le> from_end (length xs) stop)
       [0..<length xs])"

lemma nths_filter: "nths xs {k. P k} = map ((!) xs) (filter P [0..<length xs])"
proof -
  have "zip xs [0..<length xs] = map (\<lambda>k. (xs ! k, k)) [0..<length xs]"
    by (rule nth_equalityI) simp_all
  then show ?thesis by (simp add: nths_def filter_map comp_def)
qed

lemma clamp_range_bounds:
  assumes "clamp_range (int n) start stop = (a, b)"
  shows "0 \<le> a \<and> b < int n"
  using assms by (auto simp: clamp_range_def Let_def split: if_splits)

lemma range_spec_clamp:
  assumes "clamp_range (int (length xs)) start stop = (a, b)"
  shows "range_spec xs start stop = (if a > b then [] else drop (nat a) (take (nat (b + 1)) xs))"
proof -
  let ?n = "length xs"
  have a: "a = max 0 (from_end ?n start)" and b: "b = min (int ?n - 1) (from_end ?n stop)"
    using assms by (auto simp: clamp_range_def from_end_def Let_def)
  have "range_spec xs start stop = nths xs {k. nat a \<le> k \<and> k < nat (b + 1)}"
    unfolding range_spec_def nths_filter [symmetric]
  proof (rule nths_cong)
    fix k assume "k < length xs"
    then show "(k \<in> {k. from_end ?n start \<le> int k \<and> int k \<le> from_end ?n stop}) =
        (k \<in> {k. nat a \<le> k \<and> k < nat (b + 1)})"
      unfolding a b by auto
  qed
  also have "\<dots> = drop (nat a) (take (nat (b + 1)) xs)" by (rule nths_interval)
  finally show ?thesis using a by auto
qed

end
