(* ===== verification/StoreHash.thy ===== *)
theory StoreHash
  imports StoreStrings
begin

text \<open>
  The hash operations of the store (\<open>internal/core/store/hash.go\<close>). A Go map of fields is a
  finite map. A loop that ranges over a map takes the visiting order as an argument, except where
  the result does not depend on it: the loop of \<open>HSet\<close> writes each field once, so its
  result is given as one map addition and a count of the new fields.
\<close>

definition flattenHashFieldPairs :: "(string, goval) fmap \<Rightarrow> string list" where
  "flattenHashFieldPairs flds = concat (map (\<lambda>f. [f, Sprintf_v (case fmlookup flds f of
     Some x \<Rightarrow> x | None \<Rightarrow> GNil)]) (sorted_keys flds))"

text \<open>The loop of \<open>HSet\<close>, for a visiting order of \<open>flds\<close>: the number of new fields and the hash.\<close>

fun hset_loop :: "(string, goval) fmap \<Rightarrow> string list \<Rightarrow> int \<Rightarrow> (string, goval) fmap \<Rightarrow>
    int \<times> (string, goval) fmap" where
  "hset_loop flds [] added hash = (added, hash)"
| "hset_loop flds (f # fs) added hash =
     hset_loop flds fs (if fmlookup hash f = None then added + 1 else added)
       (case fmlookup flds f of
          Some x \<Rightarrow> fmupd f (GStr (Sprintf_v x)) hash
        | None \<Rightarrow> hash)"

definition Store_HSet :: "Store \<Rightarrow> time \<Rightarrow> int \<Rightarrow> string \<Rightarrow> (string, goval) fmap \<Rightarrow>
    ((goerror + int) \<times> Store) outcome" where
  "Store_HSet s now i key flds = andThen (lookup s i key) (\<lambda>r.
     let write = (\<lambda>s v hash. let (added, hash) = hset_loop flds (sorted_keys flds) 0 hash in
           andThen (setKey s i key (v\<lparr>Data := GMap hash\<rparr>)) (\<lambda>s.
           andThen (appendAOF s ''HSET'' ([dbIndexArg i, key] @ flattenHashFieldPairs flds)) (\<lambda>s.
           Ret (Inr added, s))));
         fresh = (\<lambda>s. andThen (setKey s i key (NewHashValue fmempty)) (\<lambda>s.
           write s (NewHashValue fmempty) fmempty))
     in case r of
       None \<Rightarrow> fresh s
     | Some v \<Rightarrow>
         if IsExpired now v then andThen (delKey s i key) fresh
         else if Type v \<noteq> TypeHash then Ret (Inl ErrWrongType, s)
         else (case AsHash v of Inl e \<Rightarrow> Ret (Inl e, s) | Inr hash \<Rightarrow> write s v hash))"

text \<open>The hash a reader sees: nothing for a missing or expired key.\<close>

definition read_hash :: "Store \<Rightarrow> time \<Rightarrow> int \<Rightarrow> string \<Rightarrow>
    (goerror + (string, goval) fmap option) outcome" where
  "read_hash s now i key = andThen (lookup s i key) (\<lambda>r. case r of
     None \<Rightarrow> Ret (Inr None)
   | Some v \<Rightarrow> if IsExpired now v then Ret (Inr None)
       else (case AsHash v of Inl e \<Rightarrow> Ret (Inl e) | Inr hash \<Rightarrow> Ret (Inr (Some hash))))"

definition Store_HGet :: "Store \<Rightarrow> time \<Rightarrow> int \<Rightarrow> string \<Rightarrow> string \<Rightarrow>
    (goerror + string option) outcome" where
  "Store_HGet s now i key field = andThen (read_hash s now i key) (\<lambda>r. case r of
     Inl e \<Rightarrow> Ret (Inl e)
   | Inr None \<Rightarrow> Ret (Inr None)
   | Inr (Some hash) \<Rightarrow> Ret (Inr (map_option Sprintf_v (fmlookup hash field))))"

definition Store_HGetAll :: "Store \<Rightarrow> time \<Rightarrow> int \<Rightarrow> string \<Rightarrow>
    (goerror + (string, string) fmap) outcome" where
  "Store_HGetAll s now i key = andThen (read_hash s now i key) (\<lambda>r. case r of
     Inl e \<Rightarrow> Ret (Inl e)
   | Inr None \<Rightarrow> Ret (Inr fmempty)
   | Inr (Some hash) \<Rightarrow> Ret (Inr (fmmap Sprintf_v hash)))"

fun hdel_loop :: "string list \<Rightarrow> int \<Rightarrow> (string, goval) fmap \<Rightarrow> int \<times> (string, goval) fmap" where
  "hdel_loop [] deleted hash = (deleted, hash)"
| "hdel_loop (f # fs) deleted hash =
     (if fmlookup hash f \<noteq> None then hdel_loop fs (deleted + 1) (fmdrop f hash)
      else hdel_loop fs deleted hash)"

definition Store_HDel :: "Store \<Rightarrow> time \<Rightarrow> int \<Rightarrow> string \<Rightarrow> string list \<Rightarrow>
    ((goerror + int) \<times> Store) outcome" where
  "Store_HDel s now i key flds = andThen (lookup s i key) (\<lambda>r. case r of
     None \<Rightarrow> Ret (Inr 0, s)
   | Some v \<Rightarrow>
       if IsExpired now v then andThen (delKey s i key) (\<lambda>s. Ret (Inr 0, s))
       else (case AsHash v of
         Inl e \<Rightarrow> Ret (Inl e, s)
       | Inr hash \<Rightarrow>
           let (deleted, hash) = hdel_loop flds 0 hash in
           andThen (setKey s i key (v\<lparr>Data := GMap hash\<rparr>)) (\<lambda>s.
           andThen (if fmsize hash = 0 then delKey s i key else Ret s) (\<lambda>s.
           andThen (if 0 < deleted then appendAOF s ''HDEL'' ([dbIndexArg i, key] @ flds) else Ret s)
             (\<lambda>s. Ret (Inr deleted, s))))))"

definition Store_HExists :: "Store \<Rightarrow> time \<Rightarrow> int \<Rightarrow> string \<Rightarrow> string \<Rightarrow> (goerror + bool) outcome" where
  "Store_HExists s now i key field = andThen (Store_HGet s now i key field) (\<lambda>r. case r of
     Inl e \<Rightarrow> Ret (Inl e) | Inr x \<Rightarrow> Ret (Inr (x \<noteq> None)))"

definition Store_HLen :: "Store \<Rightarrow> time \<Rightarrow> int \<Rightarrow> string \<Rightarrow> (goerror + int) outcome" where
  "Store_HLen s now i key = andThen (read_hash s now i key) (\<lambda>r. case r of
     Inl e \<Rightarrow> Ret (Inl e)
   | Inr None \<Rightarrow> Ret (Inr 0)
   | Inr (Some hash) \<Rightarrow> Ret (Inr (int (fmsize hash))))"

definition Store_HMGet :: "Store \<Rightarrow> time \<Rightarrow> int \<Rightarrow> string \<Rightarrow> string list \<Rightarrow>
    (goerror + string option list) outcome" where
  "Store_HMGet s now i key flds = andThen (read_hash s now i key) (\<lambda>r. case r of
     Inl e \<Rightarrow> Ret (Inl e)
   | Inr None \<Rightarrow> Ret (Inr (map (\<lambda>_. None) flds))
   | Inr (Some hash) \<Rightarrow> Ret (Inr (map (\<lambda>f. map_option Sprintf_v (fmlookup hash f)) flds)))"

definition Store_HKeys :: "Store \<Rightarrow> time \<Rightarrow> int \<Rightarrow> string \<Rightarrow> string list \<Rightarrow>
    (goerror + string list) outcome" where
  "Store_HKeys s now i key order = andThen (read_hash s now i key) (\<lambda>r. case r of
     Inl e \<Rightarrow> Ret (Inl e)
   | Inr None \<Rightarrow> Ret (Inr [])
   | Inr (Some hash) \<Rightarrow> Ret (Inr order))"

definition Store_HVals :: "Store \<Rightarrow> time \<Rightarrow> int \<Rightarrow> string \<Rightarrow> string list \<Rightarrow>
    (goerror + string list) outcome" where
  "Store_HVals s now i key order = andThen (read_hash s now i key) (\<lambda>r. case r of
     Inl e \<Rightarrow> Ret (Inl e)
   | Inr None \<Rightarrow> Ret (Inr [])
   | Inr (Some hash) \<Rightarrow> Ret (Inr (map (\<lambda>f. case fmlookup hash f of
       Some x \<Rightarrow> Sprintf_v x | None \<Rightarrow> []) order)))"

lemmas store_hash_defs [op_defs] =
  Store_HSet_def read_hash_def Store_HGet_def Store_HGetAll_def Store_HDel_def Store_HExists_def
  Store_HLen_def Store_HMGet_def Store_HKeys_def Store_HVals_def

end
