(* ===== verification/StoreOps.thy ===== *)
theory StoreOps
  imports StoreLists StoreHash
begin

text \<open>
  The writing operations of the store as one type, the step they make, and what all of them have in
  common: they keep every value well typed, they do not panic on a database that exists, and they
  touch the database they are given only.
\<close>

section \<open>The writing operations\<close>

text \<open>
  The operations the command layer and the replay of the append-only file call. They pass
  strings only, so \<open>SET\<close> and the pushes carry strings, and \<open>HSET\<close> the map its arguments build.
\<close>

datatype store_op =
    OpSet string string "string list"
  | OpSetNX string string
  | OpDel string
  | OpDelete string
  | OpExpire string duration
  | OpIncr string
  | OpDecr string
  | OpLPush string "string list"
  | OpRPush string "string list"
  | OpLPop string "int option"
  | OpRPop string "int option"
  | OpLTrim string int int
  | OpRename string string
  | OpHSet string "(string, goval) fmap"
  | OpHDel string "string list"
  | OpFlushDb
  | OpFlushAll

definition drop_result :: "('r \<times> Store) outcome \<Rightarrow> Store outcome" where
  "drop_result m = andThen m (\<lambda>(r, s). Ret s)"

fun run_op :: "time \<Rightarrow> int \<Rightarrow> store_op \<Rightarrow> Store \<Rightarrow> Store outcome" where
  "run_op now i (OpSet k v args) s = drop_result (Store_Set s now i k (GStr v) args)"
| "run_op now i (OpSetNX k v) s = drop_result (Store_SetNX s now now i k v)"
| "run_op now i (OpDel k) s = Store_Del s i k"
| "run_op now i (OpDelete k) s = Store_Delete s i k"
| "run_op now i (OpExpire k d) s = drop_result (Store_Expire s now i k d)"
| "run_op now i (OpIncr k) s = drop_result (Store_Incr s i k)"
| "run_op now i (OpDecr k) s = drop_result (Store_Decr s i k)"
| "run_op now i (OpLPush k vs) s = drop_result (Store_LPush s i k (map GStr vs))"
| "run_op now i (OpRPush k vs) s = drop_result (Store_RPush s i k (map GStr vs))"
| "run_op now i (OpLPop k n) s = drop_result (Store_LPop s now i k n)"
| "run_op now i (OpRPop k n) s = drop_result (Store_RPop s now i k n)"
| "run_op now i (OpLTrim k a b) s = drop_result (Store_LTrim s now i k a b)"
| "run_op now i (OpRename k k') s = drop_result (Store_Rename s now i k k')"
| "run_op now i (OpHSet k m) s = drop_result (Store_HSet s now i k m)"
| "run_op now i (OpHDel k fs) s = drop_result (Store_HDel s now i k fs)"
| "run_op now i OpFlushDb s = drop_result (Store_FlushDb s i)"
| "run_op now i OpFlushAll s = drop_result (Store_FlushAll s)"

section \<open>Safety\<close>

definition good :: "int \<Rightarrow> Store \<Rightarrow> bool" where
  "good i s \<longleftrightarrow> wf_store s \<and> aof_open s \<and> valid_index s i"

lemma safely_drop_result:
  "safely m (\<lambda>(r, s). P s) \<Longrightarrow> safely (drop_result m) P"
  by (cases m) (auto simp: drop_result_def)

lemma safely_lookup:
  "good i s \<Longrightarrow> safely (lookup s i k) (\<lambda>r. \<forall>v. r = Some v \<longrightarrow> wf_value v)"
  by (auto simp: good_def lookup_def db_at_def intro: wf_db_lookup wf_store_db)

lemma safely_setKey: "good i s \<Longrightarrow> wf_value v \<Longrightarrow> safely (setKey s i k v) (good i)"
  by (auto simp: good_def setKey_def db_at_def intro!: wf_store_put wf_db_upd wf_store_db)

lemma safely_delKey: "good i s \<Longrightarrow> safely (delKey s i k) (good i)"
  by (auto simp: good_def delKey_def db_at_def intro!: wf_store_put wf_db_drop wf_store_db)

lemma safely_flushDb: "good i s \<Longrightarrow> safely (flushDb s i) (good i)"
  by (auto simp: good_def flushDb_def db_at_def intro!: wf_store_put)

lemma safely_appendAOF: "good i s \<Longrightarrow> safely (appendAOF s name args) (good i)"
  using appendAOF_no_panic [of s name args]
  by (cases "appendAOF s name args")
     (auto simp: good_def dest: appendAOF_wf appendAOF_open appendAOF_valid)

lemma safely_go_slice:
  "0 \<le> a \<Longrightarrow> a \<le> b \<Longrightarrow> b \<le> int (length xs) \<Longrightarrow>
    safely (go_slice xs a b) (\<lambda>ys. length ys = nat (b - a))"
  by (simp add: go_slice_def)

lemma safely_if: "(b \<Longrightarrow> safely m P) \<Longrightarrow> (\<not> b \<Longrightarrow> safely m' P) \<Longrightarrow> safely (if b then m else m') P"
  by simp

lemmas safe_rules = safely_andThen [OF safely_lookup] safely_andThen [OF safely_setKey]
  safely_andThen [OF safely_delKey] safely_andThen [OF safely_appendAOF]
  safely_andThen [OF safely_flushDb]

lemma wf_Data_list: "wf_value v \<Longrightarrow> AsList v = Inr xs \<Longrightarrow> wf_value (v\<lparr>Data := GList ys\<rparr>)"
  by (auto simp: AsList_Inr wf_value_def)

lemma wf_Data_hash: "wf_value v \<Longrightarrow> AsHash v = Inr m \<Longrightarrow> wf_value (v\<lparr>Data := GMap h\<rparr>)"
  by (auto simp: AsHash_Inr wf_value_def)

lemma wf_value_of_raw [simp]: "wf_value (value_of_raw raw)"
  by (simp add: value_of_raw_def split: goval.splits)

lemma safely_set_write: "good i s \<Longrightarrow> safely (set_write s now i k raw opts) (good i)"
  unfolding set_write_def
  by (auto simp: Let_def intro!: safe_rules safely_setKey)

lemma safely_Set: "good i s \<Longrightarrow> safely (Store_Set s now i k raw args) (\<lambda>(r, s). good i s)"
  unfolding Store_Set_def
  by (auto split: sum.splits intro!: safely_andThen [OF safely_lookup]
      safely_andThen [OF safely_set_write])

lemma safely_exists_loop: "good i s \<Longrightarrow> safely (exists_loop s now i ks n) (\<lambda>_. True)"
  by (induction ks arbitrary: n) (auto intro!: safe_rules)

lemma safely_setnx_store: "good i s \<Longrightarrow> safely (setnx_store s now i k v) (\<lambda>(r, s). good i s)"
  unfolding setnx_store_def
  by (rule safely_andThen [OF safely_Set]) (auto split: sum.splits bool.splits)

lemma safely_SetNX: "good i s \<Longrightarrow> safely (Store_SetNX s now now' i k v) (\<lambda>(r, s). good i s)"
  unfolding Store_SetNX_def setnx_check_def Store_Exists_def andThen_assoc
  by (rule safely_andThen [OF safely_exists_loop]) (auto intro: safely_setnx_store)

lemma safely_Del: "good i s \<Longrightarrow> safely (Store_Del s i k) (good i)"
  unfolding Store_Del_def by (auto intro!: safe_rules safely_appendAOF)

lemma safely_Expire: "good i s \<Longrightarrow> safely (Store_Expire s now i k d) (\<lambda>(r, s). good i s)"
  unfolding Store_Expire_def by (auto split: option.splits intro!: safe_rules)

lemma safely_add_step: "good i s \<Longrightarrow> safely (add_step s i k d name) (\<lambda>(r, s). good i s)"
  unfolding add_step_def
  by (rule safely_andThen [OF safely_lookup], assumption)
     (auto simp: Let_def wf_value_def payload_ok_cases split: option.splits goval.splits prod.splits
      intro!: safe_rules)

lemma safely_LPush: "good i s \<Longrightarrow> safely (Store_LPush s i k xs) (\<lambda>(r, s). good i s)"
  unfolding Store_LPush_def
  by (auto simp: Let_def wf_Data_list split: option.splits sum.splits intro!: safe_rules)

lemma safely_RPush: "good i s \<Longrightarrow> safely (Store_RPush s i k xs) (\<lambda>(r, s). good i s)"
  unfolding Store_RPush_def
  by (auto simp: Let_def wf_Data_list split: option.splits sum.splits intro!: safe_rules)

lemma safely_pop_reply: "length xs = nat n \<Longrightarrow> safely (pop_reply n p xs) (\<lambda>_. True)"
  by (auto simp: pop_reply_def split: list.splits)

lemma safely_LPop: "good i s \<Longrightarrow> safely (Store_LPop s now i k n) (\<lambda>(r, s). good i s)"
  unfolding Store_LPop_def
  by (auto simp: Let_def wf_Data_list Suc_le_eq split: option.splits sum.splits
      intro!: safe_rules safely_andThen [OF safely_go_slice] safely_andThen [OF safely_pop_reply])

lemma safely_RPop: "good i s \<Longrightarrow> safely (Store_RPop s now i k n) (\<lambda>(r, s). good i s)"
  unfolding Store_RPop_def
  by (auto simp: Let_def wf_Data_list split: option.splits sum.splits
      intro!: safe_rules safely_andThen [OF safely_go_slice] safely_andThen [OF safely_pop_reply])

lemma safely_LTrim: "good i s \<Longrightarrow> safely (Store_LTrim s now i k a b) (\<lambda>(r, s). good i s)"
  unfolding Store_LTrim_def
  by (auto simp: Let_def wf_Data_list split: option.splits sum.splits prod.splits
      dest!: clamp_range_bounds
      intro!: safe_rules safely_andThen [OF safely_go_slice])

lemma safely_Rename: "good i s \<Longrightarrow> safely (Store_Rename s now i k k') (\<lambda>(r, s). good i s)"
  unfolding Store_Rename_def
  by (auto split: option.splits intro!: safe_rules safely_delKey)

lemma safely_HSet: "good i s \<Longrightarrow> safely (Store_HSet s now i k m) (\<lambda>(r, s). good i s)"
  unfolding Store_HSet_def
  by (auto simp: Let_def wf_Data_hash wf_value_def NewHashValue_def split: option.splits sum.splits prod.splits
      intro!: safe_rules)

lemma safely_HDel: "good i s \<Longrightarrow> safely (Store_HDel s now i k fs) (\<lambda>(r, s). good i s)"
  unfolding Store_HDel_def
  by (auto simp: Let_def wf_Data_hash split: option.splits sum.splits prod.splits
      intro!: safe_rules)

lemma safely_FlushDb: "good i s \<Longrightarrow> safely (Store_FlushDb s i) (\<lambda>(r, s). good i s)"
  unfolding Store_FlushDb_def by (auto intro!: safe_rules)

lemma flush_each_append:
  "flush_each s (xs @ ys) = andThen (flush_each s xs) (\<lambda>s. flush_each s ys)"
  by (induction xs arbitrary: s) (simp_all add: andThen_assoc)

lemma flush_each_upto:
  "n \<le> length (data s) \<Longrightarrow> flush_each s (map int [0..<n]) =
    Ret (s\<lparr>data := replicate n fmempty @ drop n (data s)\<rparr>)"
proof (induction n)
  case (Suc n)
  then have "drop n (data s) = data s ! n # drop (Suc n) (data s)"
    by (simp add: Cons_nth_drop_Suc)
  moreover have "(replicate n fmempty @ data s ! n # drop (Suc n) (data s))[n := fmempty] =
      replicate (Suc n) fmempty @ drop (Suc n) (data s)"
    by (simp add: list_update_append replicate_append_same)
  ultimately show ?case
    using Suc by (simp add: flush_each_append flushDb_def db_at_def put_db_def valid_index_def)
qed simp

lemma flush_each_all:
  "flush_each s (map int [0..<length (data s)]) = Ret (s\<lparr>data := replicate (length (data s)) fmempty\<rparr>)"
  by (simp add: flush_each_upto)

lemma good_flushed: "good i s \<Longrightarrow> good i (s\<lparr>data := replicate (length (data s)) fmempty\<rparr>)"
  by (auto simp: good_def wf_store_def valid_index_def aof_open_def list_all_iff)

lemma safely_FlushAll: "good i s \<Longrightarrow> safely (Store_FlushAll s) (\<lambda>(r, s). good i s)"
  unfolding Store_FlushAll_def flush_each_all andThen.simps
  by (rule safely_andThen [OF safely_appendAOF], rule good_flushed, assumption) simp

lemmas safely_ops = safely_Set safely_SetNX safely_Del safely_delKey safely_Expire safely_add_step
  safely_LPush safely_RPush safely_LPop safely_RPop safely_LTrim safely_Rename safely_HSet
  safely_HDel safely_FlushDb safely_FlushAll

lemma safely_run_op: "good i s \<Longrightarrow> safely (run_op now i op s) (good i)"
  by (cases op) (auto simp: Store_Incr_def Store_Decr_def Store_Delete_def
      intro!: safely_drop_result safely_ops)

end
