(* ===== verification/StoreSpec.thy ===== *)
theory StoreSpec
  imports StoreOps
begin

text \<open>
  An abstract specification of the writing operations: for each, the new contents of the database
  and the commands it logs, as a pure function of the old contents. There is no channel, no panic
  and no slice arithmetic in it; lists are reversed, taken, dropped and cut by the reference
  \<open>range_spec\<close>. The refinement theorem says that an operation of the store, run on
  a good store whose channel has room for two commands, returns exactly the specified store and
  sends exactly the specified commands, in order.
\<close>

section \<open>The specification\<close>

definition set_value_spec :: "time \<Rightarrow> string \<Rightarrow> SetOptions \<Rightarrow> Value" where
  "set_value_spec now v opts =
     (NewStringValue v)\<lparr>ExpiresAt :=
        (if 0 < opt_EX opts then Some (now + wrap64 (opt_EX opts * 1000000000))
         else if 0 < opt_PX opts then Some (now + wrap64 (opt_PX opts * 1000000)) else None)\<rparr>"

definition set_log_spec :: "int \<Rightarrow> string \<Rightarrow> string \<Rightarrow> SetOptions \<Rightarrow> AOFCommand list" where
  "set_log_spec i k v opts = [''SET'', Itoa i, k, v] #
     (if 0 < opt_EX opts then [[''EXPIRE'', Itoa i, k, Itoa (opt_EX opts)]]
      else if 0 < opt_PX opts then [[''EXPIRE'', Itoa i, k, Itoa (opt_PX opts div 1000)]] else [])"

definition set_spec :: "time \<Rightarrow> int \<Rightarrow> string \<Rightarrow> string \<Rightarrow> SetOptions \<Rightarrow> database \<Rightarrow>
    database \<times> AOFCommand list" where
  "set_spec now i k v opts db =
     (if (opt_NX opts \<and> present now (fmlookup db k)) \<or> (opt_XX opts \<and> \<not> present now (fmlookup db k))
      then (db, []) else (fmupd k (set_value_spec now v opts) db, set_log_spec i k v opts))"

text \<open>A live list, hash or counter under a key, as the operations on it see it.\<close>

definition list_under :: "database \<Rightarrow> string \<Rightarrow> goval list option" where
  "list_under db k = (case fmlookup db k of None \<Rightarrow> Some []
     | Some v \<Rightarrow> (case AsList v of Inl _ \<Rightarrow> None | Inr xs \<Rightarrow> Some xs))"

definition put_list :: "database \<Rightarrow> string \<Rightarrow> goval list \<Rightarrow> database" where
  "put_list db k xs = (case fmlookup db k of None \<Rightarrow> fmupd k (NewListValue xs) db
     | Some v \<Rightarrow> fmupd k (v\<lparr>Data := GList xs\<rparr>) db)"

definition push_spec :: "int \<Rightarrow> string \<Rightarrow> string \<Rightarrow> string list \<Rightarrow> (goval list \<Rightarrow> goval list) \<Rightarrow>
    database \<Rightarrow> database \<times> AOFCommand list" where
  "push_spec i name k vs f db = (case list_under db k of None \<Rightarrow> (db, [])
     | Some xs \<Rightarrow> (put_list db k (f xs), [name # Itoa i # k # vs]))"

definition pop_spec :: "time \<Rightarrow> int \<Rightarrow> string \<Rightarrow> string \<Rightarrow> int option \<Rightarrow>
    (nat \<Rightarrow> goval list \<Rightarrow> goval list) \<Rightarrow> database \<Rightarrow> database \<times> AOFCommand list" where
  "pop_spec now i name k n rest db = (case fmlookup db k of None \<Rightarrow> (db, [])
     | Some v \<Rightarrow> (case AsList v of Inl _ \<Rightarrow> (db, [])
       | Inr xs \<Rightarrow>
           let c = (case n of None \<Rightarrow> 1 | Some c \<Rightarrow> c) in
           if IsExpired now v \<or> c < 0 \<or> xs = [] then (db, [])
           else (fmupd k (v\<lparr>Data := GList (rest (min (nat c) (length xs)) xs)\<rparr>) db,
                 [[name, Itoa i, k, Itoa (min c (int (length xs)))]])))"

definition trim_spec :: "time \<Rightarrow> int \<Rightarrow> string \<Rightarrow> int \<Rightarrow> int \<Rightarrow> database \<Rightarrow>
    database \<times> AOFCommand list" where
  "trim_spec now i k a b db = (case fmlookup db k of None \<Rightarrow> (db, [])
     | Some v \<Rightarrow> (case AsList v of Inl _ \<Rightarrow> (db, [])
       | Inr xs \<Rightarrow>
           if IsExpired now v then (db, [])
           else if range_spec xs a b = [] then (fmdrop k db, [[''DEL'', Itoa i, k]])
           else (fmupd k (v\<lparr>Data := GList (range_spec xs a b)\<rparr>) db,
                 [[''LTRIM'', Itoa i, k, Itoa (fst (clamp_range (int (length xs)) a b)),
                   Itoa (snd (clamp_range (int (length xs)) a b))]])))"

definition add_spec :: "int \<Rightarrow> string \<Rightarrow> string \<Rightarrow> int \<Rightarrow> database \<Rightarrow> database \<times> AOFCommand list" where
  "add_spec i name k d db = (case fmlookup db k of
     None \<Rightarrow> (fmupd k (NewStringValue (Itoa d)) db, [[name, Itoa i, k]])
   | Some v \<Rightarrow> (case AsString v of Inl _ \<Rightarrow> (db, [])
     | Inr str \<Rightarrow> (case Atoi str of
         (n, None) \<Rightarrow> (fmupd k (v\<lparr>Data := GStr (Itoa (wrap64 (n + d)))\<rparr>) db, [[name, Itoa i, k]])
       | (_, Some _) \<Rightarrow> (db, []))))"

definition rename_spec :: "time \<Rightarrow> int \<Rightarrow> string \<Rightarrow> string \<Rightarrow> database \<Rightarrow>
    database \<times> AOFCommand list" where
  "rename_spec now i k k' db = (case fmlookup db k of None \<Rightarrow> (db, [])
     | Some v \<Rightarrow> if IsExpired now v then (db, [])
       else (fmdrop k (fmupd k' v db), [[''RENAME'', Itoa i, k, k']]))"

text \<open>The hash a write starts from: an empty one for a missing or expired key.\<close>

definition hset_spec :: "time \<Rightarrow> int \<Rightarrow> string \<Rightarrow> (string, goval) fmap \<Rightarrow> database \<Rightarrow>
    database \<times> AOFCommand list" where
  "hset_spec now i k m db =
     (let put = (\<lambda>v h. (fmupd k (v\<lparr>Data := GMap (h ++\<^sub>f fmmap (\<lambda>x. GStr (Sprintf_v x)) m)\<rparr>) db,
            [''HSET'' # Itoa i # k # flattenHashFieldPairs m])) in
      case fmlookup db k of None \<Rightarrow> put (NewHashValue fmempty) fmempty
      | Some v \<Rightarrow> if IsExpired now v then put (NewHashValue fmempty) fmempty
        else (case AsHash v of Inl _ \<Rightarrow> (db, []) | Inr h \<Rightarrow> put v h))"

definition hdel_spec :: "time \<Rightarrow> int \<Rightarrow> string \<Rightarrow> string list \<Rightarrow> database \<Rightarrow>
    database \<times> AOFCommand list" where
  "hdel_spec now i k fs db = (case fmlookup db k of None \<Rightarrow> (db, [])
     | Some v \<Rightarrow> if IsExpired now v then (fmdrop k db, [])
       else (case AsHash v of Inl _ \<Rightarrow> (db, [])
         | Inr h \<Rightarrow> (let h' = fmfilter (\<lambda>f. f \<notin> set fs) h in
             (if h' = fmempty then fmdrop k db else fmupd k (v\<lparr>Data := GMap h'\<rparr>) db,
              if h' = h then [] else [''HDEL'' # Itoa i # k # fs]))))"

fun db_spec :: "time \<Rightarrow> int \<Rightarrow> store_op \<Rightarrow> database \<Rightarrow> database \<times> AOFCommand list" where
  "db_spec now i (OpSet k v args) db = (case parseSetOptions args of Inl _ \<Rightarrow> (db, [])
     | Inr opts \<Rightarrow> set_spec now i k v opts db)"
| "db_spec now i (OpSetNX k v) db = set_spec now i k v (no_options\<lparr>opt_NX := True\<rparr>) db"
| "db_spec now i (OpDel k) db = (fmdrop k db, [[''DEL'', Itoa i, k]])"
| "db_spec now i (OpDelete k) db = (fmdrop k db, [])"
| "db_spec now i (OpExpire k d) db = (case fmlookup db k of None \<Rightarrow> (db, [])
     | Some v \<Rightarrow> (fmupd k (v\<lparr>ExpiresAt := Some (now + d)\<rparr>) db,
         [[''EXPIRE'', Itoa i, k, Itoa (seconds_int d)]]))"
| "db_spec now i (OpIncr k) db = add_spec i ''INCR'' k 1 db"
| "db_spec now i (OpDecr k) db = add_spec i ''DECR'' k (-1) db"
| "db_spec now i (OpLPush k vs) db = push_spec i ''LPUSH'' k vs (\<lambda>xs. rev (map GStr vs) @ xs) db"
| "db_spec now i (OpRPush k vs) db = push_spec i ''RPUSH'' k vs (\<lambda>xs. xs @ map GStr vs) db"
| "db_spec now i (OpLPop k n) db = pop_spec now i ''LPOP'' k n drop db"
| "db_spec now i (OpRPop k n) db =
     pop_spec now i ''RPOP'' k n (\<lambda>c xs. take (length xs - c) xs) db"
| "db_spec now i (OpLTrim k a b) db = trim_spec now i k a b db"
| "db_spec now i (OpRename k k') db = rename_spec now i k k' db"
| "db_spec now i (OpHSet k m) db = hset_spec now i k m db"
| "db_spec now i (OpHDel k fs) db = hdel_spec now i k fs db"
| "db_spec now i OpFlushDb db = (fmempty, [[''FLUSHDB'', Itoa i]])"
| "db_spec now i OpFlushAll db = (db, [])"

definition op_spec :: "time \<Rightarrow> int \<Rightarrow> store_op \<Rightarrow> database list \<Rightarrow> database list \<times> AOFCommand list" where
  "op_spec now i op dbs = (if op = OpFlushAll then (replicate (length dbs) fmempty, [[''FLUSHALL'']])
     else let (db, cs) = db_spec now i op (dbs ! nat i) in (dbs[nat i := db], cs))"

section \<open>Refinement\<close>

text \<open>The store with new contents and some commands sent.\<close>

definition sent :: "Store \<Rightarrow> AOFCommand list \<Rightarrow> Store" where
  "sent s cs = fold (\<lambda>c s. with_sent s c) cs s"

lemma sent_simps [simp]: "sent s [] = s" "sent s (c # cs) = sent (with_sent s c) cs"
  by (simp_all add: sent_def)

definition result_of :: "Store \<Rightarrow> int \<Rightarrow> database \<times> AOFCommand list \<Rightarrow> Store outcome" where
  "result_of s i r = Ret (sent (put_db s i (fst r)) (snd r))"

definition ready :: "int \<Rightarrow> Store \<Rightarrow> bool" where
  "ready i s \<longleftrightarrow> good i s \<and> aof_room s 2"

named_theorems ready_simps \<open>rewriting an operation on a ready store\<close>

lemma ready_append1 [ready_simps]:
  "ready i s \<Longrightarrow> appendAOF s name args = Ret (with_sent s (name # args))"
  using appendAOF_room [of s 1] by (simp add: ready_def numeral_2_eq_2)

lemma ready_append2 [ready_simps]:
  "ready i s \<Longrightarrow> appendAOF (with_sent s c) name args = Ret (with_sent (with_sent s c) (name # args))"
  using appendAOF_room [of "with_sent s c" 0] aof_room_sent [of s 1 c]
  by (simp add: ready_def numeral_2_eq_2)

lemma ready_put [ready_simps]: "ready i s \<Longrightarrow> wf_db db \<Longrightarrow> ready i (put_db s i db)"
  by (auto simp: ready_def good_def wf_store_put)

lemma ready_append_put [ready_simps]:
  "ready i s \<Longrightarrow> appendAOF (put_db s i db) name args = Ret (with_sent (put_db s i db) (name # args))"
  using appendAOF_room [of "put_db s i db" 1] by (simp add: ready_def numeral_2_eq_2)

lemma ready_db_at [ready_simps]:
  "ready i s \<Longrightarrow> db_at s i = Ret (data s ! nat i)"
  "ready i s \<Longrightarrow> db_at (put_db s i db) i = Ret db"
  "ready i s \<Longrightarrow> db_at (with_sent s c) i = Ret (data s ! nat i)"
  "ready i s \<Longrightarrow> db_at (with_sent (with_sent s c) c') i = Ret (data s ! nat i)"
  by (simp_all add: ready_def good_def db_at_def)

lemma ready_lookup [ready_simps]:
  "ready i s \<Longrightarrow> lookup s i k = Ret (fmlookup (data s ! nat i) k)"
  "ready i s \<Longrightarrow> lookup (put_db s i db) i k = Ret (fmlookup db k)"
  by (simp_all add: lookup_def ready_db_at)

lemma ready_setKey [ready_simps]:
  "ready i s \<Longrightarrow> setKey s i k v = Ret (put_db s i (fmupd k v (data s ! nat i)))"
  "ready i s \<Longrightarrow> setKey (put_db s i db) i k v = Ret (put_db s i (fmupd k v db))"
  "ready i s \<Longrightarrow> setKey (with_sent s c) i k v = Ret (with_sent (put_db s i (fmupd k v (data s ! nat i))) c)"
  "ready i s \<Longrightarrow> setKey (with_sent (with_sent s c) c') i k v =
     Ret (with_sent (with_sent (put_db s i (fmupd k v (data s ! nat i))) c) c')"
  by (simp_all add: setKey_def ready_db_at put_db_sent)

lemma ready_delKey [ready_simps]:
  "ready i s \<Longrightarrow> delKey s i k = Ret (put_db s i (fmdrop k (data s ! nat i)))"
  "ready i s \<Longrightarrow> delKey (put_db s i db) i k = Ret (put_db s i (fmdrop k db))"
  by (simp_all add: delKey_def ready_db_at)

lemma ready_value: "ready i s \<Longrightarrow> fmlookup (data s ! nat i) k = Some v \<Longrightarrow> wf_value v"
  by (auto simp: ready_def good_def intro: wf_db_lookup wf_store_db)

lemma put_db_id [simp]: "put_db s i (data s ! nat i) = s"
  by (simp add: put_db_def)

lemma sent_one: "sent s [c] = with_sent s c"
  by simp

lemmas spec_simps = result_of_def drop_result_def Let_def dbIndexArg_def

section \<open>Each operation meets its specification\<close>

lemma quot_trunc_pos: "0 < a \<Longrightarrow> 0 < b \<Longrightarrow> quot_trunc a b = a div b"
  by (simp add: quot_trunc_def)

lemma set_value_eq:
  "value_of_raw (GStr v) = NewStringValue v"
  "0 < opt_EX opts \<Longrightarrow> SetExpiration now (Duration_mul (opt_EX opts) Second) (NewStringValue v) =
     set_value_spec now v opts"
  "\<not> 0 < opt_EX opts \<Longrightarrow> 0 < opt_PX opts \<Longrightarrow>
     SetExpiration now (Duration_mul (opt_PX opts) Millisecond) (NewStringValue v) =
     set_value_spec now v opts"
  "\<not> 0 < opt_EX opts \<Longrightarrow> \<not> 0 < opt_PX opts \<Longrightarrow> set_value_spec now v opts = NewStringValue v"
  by (simp_all add: value_of_raw_def set_value_spec_def SetExpiration_def Duration_mul_def
      Time_Add_def Second_def Millisecond_def NewStringValue_def)

lemma set_write_spec:
  assumes "ready i s"
  shows "set_write s now i k (GStr v) opts = Ret (sent (put_db s i
    (fmupd k (set_value_spec now v opts) (data s ! nat i))) (set_log_spec i k v opts))"
  using assms
  by (simp add: set_write_def ready_simps Let_def set_log_spec_def set_value_eq dbIndexArg_def
      quot_trunc_pos)

lemma Set_spec:
  assumes "ready i s"
  shows "run_op now i (OpSet k v args) s = result_of s i (db_spec now i (OpSet k v args) (data s ! nat i))"
  using assms
  by (auto simp: Store_Set_def set_write_spec ready_simps spec_simps set_spec_def split: sum.splits)

lemma no_options_sel [simp]:
  "opt_NX no_options = False" "opt_XX no_options = False" "opt_EX no_options = 0" "opt_PX no_options = 0"
  by (simp_all add: no_options_def)

lemma parseSetOptions_Nil [simp]: "parseSetOptions [] = Inr no_options"
  by (simp add: parseSetOptions_def)

lemma set_spec_no_options:
  "set_value_spec now v (no_options\<lparr>opt_NX := b\<rparr>) = set_value_spec now v no_options"
  "set_log_spec i k v (no_options\<lparr>opt_NX := b\<rparr>) = set_log_spec i k v no_options"
  by (simp_all add: set_value_spec_def set_log_spec_def)

lemma SetNX_spec:
  assumes "ready i s"
  shows "run_op now i (OpSetNX k v) s = result_of s i (db_spec now i (OpSetNX k v) (data s ! nat i))"
  using assms
  by (auto simp: Store_SetNX_def setnx_check_def Store_Exists_def setnx_store_def Store_Set_def
      set_write_spec ready_simps spec_simps set_spec_def set_spec_no_options)

lemma Del_spec:
  assumes "ready i s"
  shows "run_op now i (OpDel k) s = result_of s i (db_spec now i (OpDel k) (data s ! nat i))"
    "run_op now i (OpDelete k) s = result_of s i (db_spec now i (OpDelete k) (data s ! nat i))"
  using assms by (simp_all add: Store_Del_def Store_Delete_def ready_simps spec_simps)

lemma Expire_spec:
  assumes "ready i s"
  shows "run_op now i (OpExpire k d) s = result_of s i (db_spec now i (OpExpire k d) (data s ! nat i))"
  using assms
  by (auto simp: Store_Expire_def ready_simps spec_simps Time_Add_def split: option.splits)

lemma Atoi_zero: "Atoi ''0'' = (0, None)"
  using Atoi_Itoa [of 0] by (simp add: int_bounds Itoa_def nat_dec.simps)

lemma add_step_spec:
  assumes "ready i s" and "d = 1 \<or> d = -1"
  shows "drop_result (add_step s i k d name) = result_of s i (add_spec i name k d (data s ! nat i))"
proof (cases "fmlookup (data s ! nat i) k")
  case None
  with assms show ?thesis
    by (auto simp: add_step_def add_spec_def ready_simps spec_simps Atoi_zero NewStringValue_def
        wrap64_id int_bounds)
next
  case (Some v)
  with assms have "wf_value v" using ready_value by blast
  with assms Some show ?thesis
    by (auto simp: add_step_def add_spec_def ready_simps spec_simps AsString_def wf_value_def
        payload_ok_cases split: prod.splits option.splits)
qed

lemma push_spec_None: "list_under db k = None \<longleftrightarrow> (\<exists>v e. fmlookup db k = Some v \<and> AsList v = Inl e)"
  by (auto simp: list_under_def split: option.splits sum.splits)

lemma map_Sprintf_GStr [simp]: "map Sprintf_v (map GStr vs) = vs"
  by (induction vs) simp_all

lemma reverse_if: "(if 1 < length xs then slice_Reverse xs else xs) = rev xs"
proof (cases xs)
  case (Cons x ys)
  then show ?thesis by (cases ys) (simp_all add: slice_Reverse_rev)
qed simp

lemma LPush_spec:
  assumes "ready i s"
  shows "run_op now i (OpLPush k vs) s = result_of s i (db_spec now i (OpLPush k vs) (data s ! nat i))"
  using assms unfolding Store_LPush_def run_op.simps reverse_if
  by (simp add: ready_simps spec_simps push_spec_def list_under_def
      put_list_def split: option.splits sum.splits del: map_map)

lemma RPush_spec:
  assumes "ready i s"
  shows "run_op now i (OpRPush k vs) s = result_of s i (db_spec now i (OpRPush k vs) (data s ! nat i))"
  using assms
  by (simp add: Store_RPush_def ready_simps spec_simps push_spec_def list_under_def
      put_list_def split: option.splits sum.splits del: map_map)

lemma go_slice_take: "0 \<le> b \<Longrightarrow> b \<le> int (length xs) \<Longrightarrow> go_slice xs 0 b = Ret (take (nat b) xs)"
  by (simp add: go_slice_def)

lemma go_slice_drop: "0 \<le> a \<Longrightarrow> a \<le> int (length xs) \<Longrightarrow>
    go_slice xs a (int (length xs)) = Ret (drop (nat a) xs)"
  by (simp add: go_slice_def)

lemma pop_reply_Ret: "xs \<noteq> [] \<or> c \<noteq> 1 \<Longrightarrow> \<exists>x. pop_reply c p xs = Ret x"
  by (cases xs) (auto simp: pop_reply_def)

lemma drop_result_reply:
  "xs \<noteq> [] \<or> c \<noteq> 1 \<Longrightarrow>
    drop_result (andThen (pop_reply c p xs) (\<lambda>x. Ret (f x, s))) = Ret s"
  using pop_reply_Ret [of xs c p] by (auto simp: drop_result_def)

lemma min_int_nat: "0 \<le> c \<Longrightarrow> (if int n < c then int n else c) = int (min (nat c) n)"
  by (simp add: min_def) linarith

lemma LPop_spec:
  assumes "ready i s"
  shows "run_op now i (OpLPop k n) s = result_of s i (db_spec now i (OpLPop k n) (data s ! nat i))"
  using assms
  by (auto simp: Store_LPop_def ready_simps spec_simps pop_spec_def min_int_nat go_slice_take
      go_slice_drop pop_reply_def min_def split: option.splits sum.splits list.splits)

lemma nat_int_minus: "0 \<le> c \<Longrightarrow> nat (int n - c) = n - nat c"
  by linarith

lemma RPop_spec:
  assumes "ready i s"
  shows "run_op now i (OpRPop k n) s = result_of s i (db_spec now i (OpRPop k n) (data s ! nat i))"
  using assms
  by (auto simp: Store_RPop_def ready_simps spec_simps pop_spec_def min_int_nat nat_int_minus go_slice_take
      go_slice_drop pop_reply_def min_def split: option.splits sum.splits list.splits)

lemma range_spec_empty:
  assumes "clamp_range (int (length xs)) a b = (x, y)"
  shows "range_spec xs a b = [] \<longleftrightarrow> x > y \<or> int (length xs) \<le> x"
  using range_spec_clamp [OF assms] clamp_range_bounds [OF assms] by auto

lemma range_spec_slice:
  assumes "clamp_range (int (length xs)) a b = (x, y)" and "\<not> x > y"
  shows "go_slice xs x (y + 1) = Ret (range_spec xs a b)"
  using range_spec_clamp [OF assms(1)] clamp_range_bounds [OF assms(1)] assms(2)
  by (simp add: go_slice_def)

lemma LRange_spec:
  assumes "good i s" and "fmlookup (data s ! nat i) k = Some v" and "\<not> IsExpired now v"
    and "AsList v = Inr xs"
  shows "Store_LRange s now i k a b = Ret (Inr (range_spec xs a b))"
proof -
  obtain x y where xy: "clamp_range (int (length xs)) a b = (x, y)" by (cases "clamp_range (int (length xs)) a b")
  have v: "valid_index s i" using assms(1) by (simp add: good_def)
  note b = clamp_range_bounds [OF xy] and r = range_spec_clamp [OF xy]
  show ?thesis
  proof (cases "x > y")
    case True
    with assms(2-4) xy v r show ?thesis by (simp add: Store_LRange_def lookup_def db_at_def)
  next
    case False
    with b have "go_slice xs x (y + 1) = Ret (drop (nat x) (take (nat (y + 1)) xs))"
      by (intro go_slice_ok) simp_all
    with False b assms(2-4) xy v r show ?thesis by (simp add: Store_LRange_def lookup_def db_at_def)
  qed
qed

lemma LTrim_spec:
  assumes "ready i s"
  shows "run_op now i (OpLTrim k a b) s = result_of s i (db_spec now i (OpLTrim k a b) (data s ! nat i))"
  using assms
  by (auto simp: Store_LTrim_def ready_simps spec_simps trim_spec_def range_spec_empty
      range_spec_slice split: option.splits sum.splits prod.splits)

lemma Rename_spec:
  assumes "ready i s"
  shows "run_op now i (OpRename k k') s = result_of s i (db_spec now i (OpRename k k') (data s ! nat i))"
proof -
  have "fmupd k' v (fmdrop k' db) = fmupd k' v db" for v and db :: database
    by (rule fmap_ext) simp
  with assms show ?thesis
    by (auto simp: Store_Rename_def ready_simps spec_simps rename_spec_def split: option.splits)
qed

text \<open>
  The loop of \<open>HSet\<close> in any visiting order of the fields: the new hash is the old one overwritten
  with the fields, and the count is the number of fields that were absent.
\<close>

lemma hset_loop_lookup:
  "fmlookup (snd (hset_loop m fs n h)) f = (if f \<in> set fs \<and> fmlookup m f \<noteq> None
     then map_option (\<lambda>x. GStr (Sprintf_v x)) (fmlookup m f) else fmlookup h f)"
  by (induction m fs n h rule: hset_loop.induct) (auto split: option.splits)

lemma hset_loop_hash:
  assumes "fset_of_list fs = fmdom m"
  shows "snd (hset_loop m fs n h) = h ++\<^sub>f fmmap (\<lambda>x. GStr (Sprintf_v x)) m"
proof (rule fmap_ext)
  fix f
  have "f \<in> set fs \<longleftrightarrow> fmlookup m f \<noteq> None"
    by (metis assms fset_of_list_elem fmlookup_dom_iff not_None_eq)
  then show "fmlookup (snd (hset_loop m fs n h)) f =
      fmlookup (h ++\<^sub>f fmmap (\<lambda>x. GStr (Sprintf_v x)) m) f"
    by (auto simp: hset_loop_lookup fmlookup_dom_iff)
qed

lemma hset_loop_count:
  assumes "distinct fs" and "\<forall>f \<in> set fs. fmlookup m f \<noteq> None"
  shows "fst (hset_loop m fs n h) = n + int (length (filter (\<lambda>f. fmlookup h f = None) fs))"
  using assms
proof (induction m fs n h rule: hset_loop.induct)
  case (2 m f fs n h)
  then obtain x where x: "fmlookup m f = Some x" by auto
  have "filter (\<lambda>g. fmlookup (fmupd f y h) g = None) fs = filter (\<lambda>g. fmlookup h g = None) fs" for y
    using 2(2) by (intro filter_cong) auto
  with 2 x show ?case by simp
qed simp

lemma sorted_keys_enumerates: "enumerates (sorted_keys m) m"
  by (auto simp: enumerates_def sorted_keys_def fset_of_list_elem fset_eq_iff
      sorted_list_of_fset.rep_eq)

lemma hset_loop_sorted:
  "snd (hset_loop m (sorted_keys m) n h) = h ++\<^sub>f fmmap (\<lambda>x. GStr (Sprintf_v x)) m"
  using sorted_keys_enumerates [of m] by (intro hset_loop_hash) (simp add: enumerates_def)

lemma HSet_spec:
  assumes "ready i s"
  shows "run_op now i (OpHSet k m) s = result_of s i (db_spec now i (OpHSet k m) (data s ! nat i))"
proof -
  have upd: "fmupd k v (fmdrop k db) = fmupd k v db" for v and db :: database
    by (rule fmap_ext) simp
  have t: "wf_value v \<Longrightarrow> Type v \<noteq> TypeHash \<Longrightarrow> AsHash v = Inl ErrWrongType" for v
    by (simp add: AsHash_def)
  show ?thesis
  proof (cases "fmlookup (data s ! nat i) k")
    case None
    with assms show ?thesis
      by (simp add: Store_HSet_def ready_simps spec_simps hset_spec_def split_def hset_loop_sorted)
  next
    case (Some v)
    with assms show ?thesis
      by (auto simp: Store_HSet_def ready_simps spec_simps hset_spec_def split_def hset_loop_sorted
          upd t split: sum.splits) (auto simp: AsHash_def)
  qed
qed

lemma hdel_loop_hash: "snd (hdel_loop fs n h) = fmfilter (\<lambda>f. f \<notin> set fs) h"
proof (induction fs n h rule: hdel_loop.induct)
  case (2 f fs n h)
  have "fmfilter (\<lambda>g. g \<notin> set fs) (fmdrop f h) = fmfilter (\<lambda>g. g \<notin> set (f # fs)) h"
    by (rule fmap_ext) auto
  moreover have "fmlookup h f = None \<Longrightarrow>
      fmfilter (\<lambda>g. g \<notin> set fs) h = fmfilter (\<lambda>g. g \<notin> set (f # fs)) h"
    by (rule fmap_ext) auto
  ultimately show ?case using 2 by simp
qed simp

lemma hdel_loop_count_ge: "n \<le> fst (hdel_loop fs n h)"
  by (induction fs n h rule: hdel_loop.induct) auto

lemma hdel_loop_none: "fst (hdel_loop fs n h) = n \<longleftrightarrow> fmfilter (\<lambda>f. f \<notin> set fs) h = h"
proof (induction fs n h rule: hdel_loop.induct)
  case (2 f fs n h)
  show ?case
  proof (cases "fmlookup h f")
    case None
    moreover have "fmfilter (\<lambda>g. g \<notin> set fs) h = fmfilter (\<lambda>g. g \<notin> set (f # fs)) h"
      using None by (intro fmap_ext) auto
    ultimately show ?thesis using 2 by simp
  next
    case (Some x)
    then have "fmfilter (\<lambda>g. g \<notin> set (f # fs)) h \<noteq> h"
      by (metis fmlookup_filter list.set_intros(1) option.distinct(1))
    moreover have "n < fst (hdel_loop fs (n + 1) (fmdrop f h))"
      using hdel_loop_count_ge [of "n + 1" fs "fmdrop f h"] by simp
    ultimately show ?thesis using Some by auto
  qed
qed simp

lemma hdel_loop_pos: "0 < fst (hdel_loop fs 0 h) \<longleftrightarrow> fmfilter (\<lambda>f. f \<notin> set fs) h \<noteq> h"
  using hdel_loop_none [of fs 0 h] hdel_loop_count_ge [of 0 fs h] by auto

lemma HDel_spec:
  assumes "ready i s"
  shows "run_op now i (OpHDel k fs) s = result_of s i (db_spec now i (OpHDel k fs) (data s ! nat i))"
proof -
  have "fmdrop k (fmupd k v db) = fmdrop k db" for v and db :: database
    by (rule fmap_ext) simp
  moreover have "fmupd k v db = db" if "fmlookup db k = Some v" for v and db :: database
    using that by (intro fmap_ext) auto
  ultimately show ?thesis
    using assms
    by (auto simp: Store_HDel_def ready_simps spec_simps hdel_spec_def split_def hdel_loop_hash
        hdel_loop_pos fmsize_0_iff split: option.splits sum.splits)
qed

lemma Flush_spec:
  assumes "ready i s"
  shows "run_op now i OpFlushDb s = result_of s i (db_spec now i OpFlushDb (data s ! nat i))"
    "run_op now i OpFlushAll s =
       Ret (with_sent (s\<lparr>data := replicate (length (data s)) fmempty\<rparr>) [''FLUSHALL''])"
proof -
  show "run_op now i OpFlushDb s = result_of s i (db_spec now i OpFlushDb (data s ! nat i))"
    using assms by (simp add: Store_FlushDb_def flushDb_def ready_simps spec_simps)
  let ?s = "s\<lparr>data := replicate (length (data s)) fmempty\<rparr>"
  have "aof_room ?s (Suc 1)"
    using assms by (simp add: ready_def aof_room_def numeral_2_eq_2)
  then have "appendAOF ?s ''FLUSHALL'' [] = Ret (with_sent ?s [''FLUSHALL''])"
    by (rule appendAOF_room)
  then show "run_op now i OpFlushAll s = Ret (with_sent ?s [''FLUSHALL''])"
    by (simp only: run_op.simps Store_FlushAll_def flush_each_all andThen.simps
        drop_result_def prod.case)
qed

text \<open>The whole state after an operation: the specified contents and the specified commands.\<close>

lemmas keyed_specs = Set_spec SetNX_spec Del_spec Expire_spec LPush_spec RPush_spec LPop_spec
  RPop_spec LTrim_spec Rename_spec HSet_spec HDel_spec Flush_spec(1)

lemma run_op_db_spec:
  assumes "ready i s" and "op \<noteq> OpFlushAll"
  shows "run_op now i op s = result_of s i (db_spec now i op (data s ! nat i))"
  using assms keyed_specs [OF assms(1)] add_step_spec [OF assms(1)]
  by (cases op) (simp_all add: Store_Incr_def Store_Decr_def)

lemma run_op_refines:
  assumes "ready i s"
  shows "run_op now i op s = Ret (sent (s\<lparr>data := fst (op_spec now i op (data s))\<rparr>)
    (snd (op_spec now i op (data s))))"
proof (cases "op = OpFlushAll")
  case True
  with Flush_spec(2) [OF assms] show ?thesis by (simp add: op_spec_def)
next
  case False
  with run_op_db_spec [OF assms False] show ?thesis
    by (simp add: op_spec_def result_of_def put_db_def split_def Let_def)
qed

end
