(* ===== verification/AofDispatch.thy ===== *)
theory AofDispatch
  imports StoreSpec
begin

text \<open>
  Replaying one logged command: \<open>dispatchAOF\<close>, \<open>parseDBIndex\<close>
  (\<open>internal/persistence/aof/aof.go\<close>) and the handlers of \<open>aof_internal.go\<close>. A
  command is a list of words; \<open>parts[n]\<close> is read after the handler checked the length. A handler
  drops the result and the error of the operation it calls.
\<close>

section \<open>Handlers\<close>

definition aofRename :: "time \<Rightarrow> string list \<Rightarrow> Store \<Rightarrow> int \<Rightarrow> Store outcome" where
  "aofRename now parts s i = (if length parts = 4
     then drop_result (Store_Rename s now i (parts ! 2) (parts ! 3)) else Ret s)"

text \<open>\<open>aofLTrim\<close> ignores the error of \<open>Atoi\<close> and uses the value it returns with it.\<close>

definition aofLTrim :: "time \<Rightarrow> string list \<Rightarrow> Store \<Rightarrow> int \<Rightarrow> Store outcome" where
  "aofLTrim now parts s i = (if length parts = 5
     then drop_result (Store_LTrim s now i (parts ! 2) (fst (Atoi (parts ! 3))) (fst (Atoi (parts ! 4))))
     else Ret s)"

definition aofRpop :: "time \<Rightarrow> string list \<Rightarrow> Store \<Rightarrow> int \<Rightarrow> Store outcome" where
  "aofRpop now parts s i = (if length parts = 4
     then (case Atoi (parts ! 3) of
         (count, None) \<Rightarrow> drop_result (Store_RPop s now i (parts ! 2) (Some count))
       | (_, Some _) \<Rightarrow> Ret s) else Ret s)"

definition aofLPop :: "time \<Rightarrow> string list \<Rightarrow> Store \<Rightarrow> int \<Rightarrow> Store outcome" where
  "aofLPop now parts s i = (if length parts = 4
     then (case Atoi (parts ! 3) of
         (count, None) \<Rightarrow> drop_result (Store_LPop s now i (parts ! 2) (Some count))
       | (_, Some _) \<Rightarrow> Ret s) else Ret s)"

definition aofRPush :: "string list \<Rightarrow> Store \<Rightarrow> int \<Rightarrow> Store outcome" where
  "aofRPush parts s i = (if 4 \<le> length parts
     then drop_result (Store_RPush s i (parts ! 2) (map GStr (drop 3 parts))) else Ret s)"

definition aofLPush :: "string list \<Rightarrow> Store \<Rightarrow> int \<Rightarrow> Store outcome" where
  "aofLPush parts s i = (if 4 \<le> length parts
     then drop_result (Store_LPush s i (parts ! 2) (map GStr (drop 3 parts))) else Ret s)"

definition aofExpire :: "time \<Rightarrow> string list \<Rightarrow> Store \<Rightarrow> int \<Rightarrow> Store outcome" where
  "aofExpire now parts s i = (if length parts = 4
     then (case Atoi (parts ! 3) of
         (ttl, None) \<Rightarrow> drop_result (Store_Expire s now i (parts ! 2) (Duration_mul ttl Second))
       | (_, Some _) \<Rightarrow> Ret s) else Ret s)"

definition aofIncr :: "string list \<Rightarrow> Store \<Rightarrow> int \<Rightarrow> Store outcome" where
  "aofIncr parts s i = (if length parts = 3 then drop_result (Store_Incr s i (parts ! 2)) else Ret s)"

definition aofDecr :: "string list \<Rightarrow> Store \<Rightarrow> int \<Rightarrow> Store outcome" where
  "aofDecr parts s i = (if length parts = 3 then drop_result (Store_Decr s i (parts ! 2)) else Ret s)"

definition aofSetNX :: "time \<Rightarrow> string list \<Rightarrow> Store \<Rightarrow> int \<Rightarrow> Store outcome" where
  "aofSetNX now parts s i = (if length parts = 4
     then drop_result (Store_SetNX s now now i (parts ! 2) (parts ! 3)) else Ret s)"

definition aofDel :: "string list \<Rightarrow> Store \<Rightarrow> int \<Rightarrow> Store outcome" where
  "aofDel parts s i = (if length parts = 3 then Store_Del s i (parts ! 2) else Ret s)"

definition aofSet :: "time \<Rightarrow> string list \<Rightarrow> Store \<Rightarrow> int \<Rightarrow> Store outcome" where
  "aofSet now parts s i = (if length parts = 4
     then drop_result (Store_Set s now i (parts ! 2) (GStr (parts ! 3)) []) else Ret s)"

text \<open>The loop that fills a map from alternating fields and values; a later field wins.\<close>

fun field_pairs :: "string list \<Rightarrow> (string \<times> goval) list" where
  "field_pairs (f # v # rest) = (f, GStr v) # field_pairs rest"
| "field_pairs _ = []"

definition aofHSet :: "time \<Rightarrow> string list \<Rightarrow> Store \<Rightarrow> int \<Rightarrow> Store outcome" where
  "aofHSet now parts s i = (if length parts < 5 \<or> (length parts - 3) mod 2 \<noteq> 0 then Ret s
     else drop_result (Store_HSet s now i (parts ! 2) (fmupds (field_pairs (drop 3 parts)) fmempty)))"

definition aofHDel :: "time \<Rightarrow> string list \<Rightarrow> Store \<Rightarrow> int \<Rightarrow> Store outcome" where
  "aofHDel now parts s i = (if length parts < 4 then Ret s
     else drop_result (Store_HDel s now i (parts ! 2) (drop 3 parts)))"

definition aofFlushDB :: "string list \<Rightarrow> Store \<Rightarrow> int \<Rightarrow> Store outcome" where
  "aofFlushDB parts s i = (if length parts = 2 then drop_result (Store_FlushDb s i) else Ret s)"

definition aofFlushAll :: "string list \<Rightarrow> Store \<Rightarrow> Store outcome" where
  "aofFlushAll parts s = (if length parts = 1 then drop_result (Store_FlushAll s) else Ret s)"

section \<open>Dispatch\<close>

definition parseDBIndex :: "string list \<Rightarrow> int option" where
  "parseDBIndex parts = (if length parts < 2 then None
     else case Atoi (parts ! 1) of (dbIndex, None) \<Rightarrow> Some dbIndex | (_, Some _) \<Rightarrow> None)"

definition dispatch_switch :: "time \<Rightarrow> string \<Rightarrow> string list \<Rightarrow> Store \<Rightarrow> int \<Rightarrow> Store outcome" where
  "dispatch_switch now cmdName parts s i =
     (if cmdName = ''SET'' then aofSet now parts s i
      else if cmdName = ''DEL'' then aofDel parts s i
      else if cmdName = ''SETNX'' then aofSetNX now parts s i
      else if cmdName = ''EXPIRE'' then aofExpire now parts s i
      else if cmdName = ''INCR'' then aofIncr parts s i
      else if cmdName = ''DECR'' then aofDecr parts s i
      else if cmdName = ''LPUSH'' then aofLPush parts s i
      else if cmdName = ''RPUSH'' then aofRPush parts s i
      else if cmdName = ''LPOP'' then aofLPop now parts s i
      else if cmdName = ''RPOP'' then aofRpop now parts s i
      else if cmdName = ''LTRIM'' then aofLTrim now parts s i
      else if cmdName = ''RENAME'' then aofRename now parts s i
      else if cmdName = ''FLUSHDB'' then aofFlushDB parts s i
      else if cmdName = ''FLUSHALL'' then aofFlushAll parts s
      else if cmdName = ''HSET'' then aofHSet now parts s i
      else if cmdName = ''HDEL'' then aofHDel now parts s i
      else Ret s)"

definition dispatchAOF :: "time \<Rightarrow> string list \<Rightarrow> Store \<Rightarrow> Store outcome" where
  "dispatchAOF now parts s = (case parts of [] \<Rightarrow> Panic
     | cmdName # _ \<Rightarrow> (case parseDBIndex parts of
         None \<Rightarrow> if cmdName \<noteq> ''FLUSHALL'' then Ret s else dispatch_switch now cmdName parts s 0
       | Some i \<Rightarrow> dispatch_switch now cmdName parts s i))"

text \<open>Replaying a log whose commands carry the clock reading at which they are replayed.\<close>

fun replay :: "(time \<times> AOFCommand) list \<Rightarrow> Store \<Rightarrow> Store outcome" where
  "replay [] s = Ret s"
| "replay ((now, c) # cs) s = andThen (dispatchAOF now c s) (replay cs)"

lemma replay_append: "replay (xs @ ys) s = andThen (replay xs s) (replay ys)"
  by (induction xs arbitrary: s) (auto simp: andThen_assoc intro!: andThen_cong)

section \<open>Each logged command calls its operation\<close>

lemmas handler_defs = aofRename_def aofLTrim_def aofRpop_def aofLPop_def aofRPush_def aofLPush_def
  aofExpire_def aofIncr_def aofDecr_def aofSetNX_def aofDel_def aofSet_def aofHSet_def aofHDel_def
  aofFlushDB_def aofFlushAll_def

lemmas dispatch_defs = dispatchAOF_def dispatch_switch_def parseDBIndex_def

lemma dispatch_indexed:
  "in_int i \<Longrightarrow> dispatchAOF now (name # Itoa i # rest) s =
     dispatch_switch now name (name # Itoa i # rest) s i"
  by (simp add: dispatchAOF_def parseDBIndex_def Atoi_Itoa)

lemma dispatch_ops:
  assumes "in_int i"
  shows "dispatchAOF now [''SET'', Itoa i, k, v] s = run_op now i (OpSet k v []) s"
    "dispatchAOF now [''DEL'', Itoa i, k] s = run_op now i (OpDel k) s"
    "in_int n \<Longrightarrow> dispatchAOF now [''EXPIRE'', Itoa i, k, Itoa n] s =
       run_op now i (OpExpire k (Duration_mul n Second)) s"
    "dispatchAOF now [''INCR'', Itoa i, k] s = run_op now i (OpIncr k) s"
    "dispatchAOF now [''DECR'', Itoa i, k] s = run_op now i (OpDecr k) s"
    "vs \<noteq> [] \<Longrightarrow> dispatchAOF now (''LPUSH'' # Itoa i # k # vs) s = run_op now i (OpLPush k vs) s"
    "vs \<noteq> [] \<Longrightarrow> dispatchAOF now (''RPUSH'' # Itoa i # k # vs) s = run_op now i (OpRPush k vs) s"
    "in_int n \<Longrightarrow> dispatchAOF now [''LPOP'', Itoa i, k, Itoa n] s = run_op now i (OpLPop k (Some n)) s"
    "in_int n \<Longrightarrow> dispatchAOF now [''RPOP'', Itoa i, k, Itoa n] s = run_op now i (OpRPop k (Some n)) s"
    "in_int a \<Longrightarrow> in_int b \<Longrightarrow>
       dispatchAOF now [''LTRIM'', Itoa i, k, Itoa a, Itoa b] s = run_op now i (OpLTrim k a b) s"
    "dispatchAOF now [''RENAME'', Itoa i, k, k'] s = run_op now i (OpRename k k') s"
    "fs \<noteq> [] \<Longrightarrow> dispatchAOF now (''HDEL'' # Itoa i # k # fs) s = run_op now i (OpHDel k fs) s"
    "dispatchAOF now [''FLUSHDB'', Itoa i] s = run_op now i OpFlushDb s"
    "dispatchAOF now [''FLUSHALL''] s = run_op now i OpFlushAll s"
  using assms
  by (simp_all add: dispatch_indexed dispatch_switch_def handler_defs Atoi_Itoa Suc_le_eq)
     (simp_all add: dispatch_defs handler_defs)

lemma field_pairs_length: "length (field_pairs xs) = length xs div 2"
  by (induction xs rule: field_pairs.induct) simp_all

lemma flatten_length: "length (flattenHashFieldPairs m) = 2 * fmsize m"
proof -
  have "length (concat (map (\<lambda>f. [f, g f]) ks)) = 2 * length ks" for g and ks :: "string list"
    by (induction ks) simp_all
  then show ?thesis
    using enumerates_length [OF sorted_keys_enumerates [of m]]
    by (simp add: flattenHashFieldPairs_def)
qed

lemma field_pairs_flatten:
  "field_pairs (concat (map (\<lambda>f. [f, g f]) ks)) = map (\<lambda>f. (f, GStr (g f))) ks"
  by (induction ks) simp_all

lemma fmupds_map_distinct:
  "fmlookup (fmupds (map (\<lambda>f. (f, h f)) ks) m) x = (if x \<in> set ks then Some (h x) else fmlookup m x)"
  by (induction ks arbitrary: m) auto

lemma fields_of_flatten:
  "fmupds (field_pairs (flattenHashFieldPairs m)) fmempty = fmmap (\<lambda>x. GStr (Sprintf_v x)) m"
proof (rule fmap_ext)
  fix x
  have "x \<in> set (sorted_keys m) \<longleftrightarrow> fmlookup m x \<noteq> None"
    using enumerates_set [OF sorted_keys_enumerates [of m]] by auto
  then show "fmlookup (fmupds (field_pairs (flattenHashFieldPairs m)) fmempty) x =
      fmlookup (fmmap (\<lambda>x. GStr (Sprintf_v x)) m) x"
    by (auto simp: flattenHashFieldPairs_def field_pairs_flatten fmupds_map_distinct)
qed

lemma dispatch_hset:
  assumes "in_int i" and "m \<noteq> fmempty"
  shows "dispatchAOF now (''HSET'' # Itoa i # k # flattenHashFieldPairs m) s =
    run_op now i (OpHSet k (fmmap (\<lambda>x. GStr (Sprintf_v x)) m)) s"
proof -
  have "0 < fmsize m" using assms(2) fmsize_0_iff [of m] by simp
  then show ?thesis
    using assms
    by (simp add: dispatch_indexed dispatch_switch_def aofHSet_def flatten_length fields_of_flatten)
qed

end
