(* ===== verification/StoreChannel.thy ===== *)
theory StoreChannel
  imports StoreSpec
begin

text \<open>
  The capacity of the log channel decides whether an operation waits, and nothing else: an operation that
  returns on some channel returns the same on a larger one. So an operation that returns on any well-formed
  store, with however little room in the channel, has the effect its specification states
  (\<open>run_op_Ret\<close>).
\<close>

section \<open>A larger channel\<close>

definition widen :: "nat \<Rightarrow> Store \<Rightarrow> Store" where
  "widen n s = s\<lparr>aofChan := map_option (\<lambda>ch. ch\<lparr>ch_cap := ch_cap ch + n\<rparr>) (aofChan s)\<rparr>"

lemma widen_simps [simp]: "data (widen w s) = data s" "valid_index (widen w s) i = valid_index s i"
  "put_db (widen w s) i db = widen w (put_db s i db)" "db_at (widen w s) i = db_at s i"
  "lookup (widen w s) i k = lookup s i k" "widen w (s\<lparr>data := d\<rparr>) = (widen w s)\<lparr>data := d\<rparr>"
  by (simp_all add: widen_def valid_index_def put_db_def db_at_def lookup_def)

text \<open>
  \<open>widens f m m'\<close>: if \<open>m\<close> returns then so does \<open>m'\<close>, with the result transformed by \<open>f\<close>.
\<close>

definition widens :: "('a \<Rightarrow> 'b) \<Rightarrow> 'a outcome \<Rightarrow> 'b outcome \<Rightarrow> bool" where
  "widens f m m' \<longleftrightarrow> if_returns m (\<lambda>x. m' = Ret (f x))"

lemma widens_Ret [simp]: "widens f (Ret x) m' \<longleftrightarrow> m' = Ret (f x)" 
  and widens_none [simp]: "widens f Panic m'" "widens f Block m'"
  by (simp_all add: widens_def)

lemma widens_andThen: "widens f m m' \<Longrightarrow> (\<And>x. widens g (k x) (k' (f x))) \<Longrightarrow> widens g (andThen m k) (andThen m' k')"
  by (cases m) simp_all

lemma widens_same: "(\<And>x. widens g (k x) (k' x)) \<Longrightarrow> widens g (andThen m k) (andThen m k')"
  by (cases m) simp_all

lemma widens_appendAOF: "widens (widen w) (appendAOF s name args) (appendAOF (widen w s) name args)"
  by (auto simp: widens_def appendAOF_def chan_send_def widen_def split: option.splits intro!: if_returnsI)

lemma widens_setKey: "widens (widen w) (setKey s i k v) (setKey (widen w s) i k v)"
  by (cases "db_at s i") (simp_all add: setKey_def)

lemma widens_delKey: "widens (widen w) (delKey s i k) (delKey (widen w s) i k)"
  by (cases "db_at s i") (simp_all add: delKey_def)

lemma widens_flushDb: "widens (widen w) (flushDb s i) (flushDb (widen w s) i)"
  by (cases "db_at s i") (simp_all add: flushDb_def)

abbreviation keeps :: "nat \<Rightarrow> ('r \<times> Store) outcome \<Rightarrow> ('r \<times> Store) outcome \<Rightarrow> bool" where
  "keeps w \<equiv> widens (map_prod id (widen w))"

lemma widens_flush_each: "widens (widen w) (flush_each s is) (flush_each (widen w s) is)"
  by (induction "is" arbitrary: s) (auto intro!: widens_andThen [OF widens_flushDb])

lemmas widen_rules = widens_andThen [OF widens_appendAOF] widens_andThen [OF widens_setKey]
  widens_andThen [OF widens_delKey] widens_andThen [OF widens_flushDb] widens_andThen [OF widens_flush_each]
  widens_appendAOF widens_setKey widens_delKey widens_same

section \<open>The operations\<close>

lemma widens_set_write: "widens (widen w) (set_write s now i k raw opts) (set_write (widen w s) now i k raw opts)"
  unfolding set_write_def by (auto simp: Let_def intro!: widen_rules)

lemma widens_Set: "keeps w (Store_Set s now i k raw args) (Store_Set (widen w s) now i k raw args)"
  unfolding Store_Set_def
  by (auto split: sum.splits intro!: widen_rules widens_andThen [OF widens_set_write])

lemma exists_loop_widen [simp]: "exists_loop (widen w s) now i ks n = exists_loop s now i ks n"
  by (induction ks arbitrary: n) auto

lemma widens_SetNX: "keeps w (Store_SetNX s now now' i k v) (Store_SetNX (widen w s) now now' i k v)"
  unfolding Store_SetNX_def setnx_check_def Store_Exists_def setnx_store_def
  by (auto split: sum.splits bool.splits intro!: widen_rules widens_andThen [OF widens_Set])

lemma widens_add_step: "keeps w (add_step s i k d name) (add_step (widen w s) i k d name)"
  unfolding add_step_def Let_def
  by (auto split: option.splits goval.splits prod.splits intro!: widen_rules)

lemma widens_lists: "keeps w (Store_LPush s i k xs) (Store_LPush (widen w s) i k xs)"
  "keeps w (Store_RPush s i k xs) (Store_RPush (widen w s) i k xs)"
  "keeps w (Store_LPop s now i k n) (Store_LPop (widen w s) now i k n)"
  "keeps w (Store_RPop s now i k n) (Store_RPop (widen w s) now i k n)"
  "keeps w (Store_LTrim s now i k a b) (Store_LTrim (widen w s) now i k a b)"
  unfolding Store_LPush_def Store_RPush_def Store_LPop_def Store_RPop_def Store_LTrim_def Let_def
  by (auto split: option.splits sum.splits prod.splits intro!: widen_rules)

lemma widens_others: "keeps w (Store_Expire s now i k d) (Store_Expire (widen w s) now i k d)"
  "widens (widen w) (Store_Del s i k) (Store_Del (widen w s) i k)"
  "keeps w (Store_Rename s now i k k') (Store_Rename (widen w s) now i k k')"
  "keeps w (Store_HSet s now i k m) (Store_HSet (widen w s) now i k m)"
  "keeps w (Store_HDel s now i k fs) (Store_HDel (widen w s) now i k fs)"
  "keeps w (Store_FlushDb s i) (Store_FlushDb (widen w s) i)"
  "keeps w (Store_FlushAll s) (Store_FlushAll (widen w s))"
  unfolding Store_Expire_def Store_Del_def Store_Rename_def Store_HSet_def Store_HDel_def
    Store_FlushDb_def Store_FlushAll_def Let_def
  by (auto split: option.splits sum.splits prod.splits intro!: widen_rules)

lemma widens_drop_result: "keeps w m m' \<Longrightarrow> widens (widen w) (drop_result m) (drop_result m')"
  unfolding drop_result_def by (rule widens_andThen) auto

lemma run_op_widen: "widens (widen w) (run_op now i op s) (run_op now i op (widen w s))"
  by (cases op) (auto simp: Store_Incr_def Store_Decr_def Store_Delete_def
      intro!: widens_drop_result widens_Set widens_SetNX widens_add_step widens_lists widens_others widens_delKey)

lemma widen_sent: "widen w (sent s cs) = sent (widen w s) cs"
proof (induction cs arbitrary: s)
  case (Cons c cs)
  have "widen w (with_sent s c) = with_sent (widen w s) c"
    by (cases "aofChan s") (simp_all add: with_sent_def widen_def)
  with Cons show ?case by simp
qed simp

lemma widen_inj:
  assumes "widen w s = widen w t"
  shows "s = t"
proof -
  have "ch\<lparr>ch_cap := ch_cap ch + w\<rparr> = ch'\<lparr>ch_cap := ch_cap ch' + w\<rparr> \<Longrightarrow> ch = ch'" for ch ch' :: "AOFCommand chan"
    by (cases ch; cases ch') simp
  with assms show ?thesis
    by (cases s; cases t; cases "aofChan s"; cases "aofChan t") (auto simp: widen_def)
qed

lemma run_op_Ret:
  assumes "good i s" and "run_op now i op s = Ret s'"
  shows "s' = sent (s\<lparr>data := fst (op_spec now i op (data s))\<rparr>) (snd (op_spec now i op (data s)))"
proof (rule widen_inj)
  let ?w = "2 + length (pending s)"
  have "ready i (widen ?w s)"
    using assms(1)
    by (auto simp: ready_def good_def wf_store_def aof_open_def aof_room_def widen_def chan_room_def
        valid_index_def pending_def split: option.splits)
  from run_op_refines [OF this, of now op] run_op_widen [of ?w now i op s] assms(2)
  show "widen ?w s' = widen ?w (sent (s\<lparr>data := fst (op_spec now i op (data s))\<rparr>) (snd (op_spec now i op (data s))))"
    by (simp add: widen_sent)
qed

end
