(* ===== verification/AofReplay.thy ===== *)
theory AofReplay
  imports AofDispatch StoreChannel
begin

text \<open>
  What the append-only log promises: replaying the commands that a history of operations logged
  rebuilds the data the history produced. The promise is stated once, as a locale over any machine
  that logs, and the store is shown to keep it for every operation whose logged command carries
  all of its effect. \<open>replayable\<close> says when that is the case; what it leaves out are the operations
  that change data without logging it or that log a rounded value.
\<close>

section \<open>Machines that log\<close>

text \<open>
  \<open>step\<close> runs an operation, \<open>emits\<close> is the log it adds, \<open>redo\<close> replays one log
  entry, \<open>core\<close> is the part of the state that a replay has to rebuild, \<open>faithful\<close> the
  condition on an operation, \<open>running\<close> a state that operations run on and \<open>scratch\<close> one that a log is
  replayed into.
\<close>

fun run_steps :: "('o \<Rightarrow> 's \<Rightarrow> 's outcome) \<Rightarrow> 'o list \<Rightarrow> 's \<Rightarrow> 's outcome" where
  "run_steps step [] s = Ret s"
| "run_steps step (o1 # os) s = andThen (step o1 s) (run_steps step os)"

fun emitted :: "('o \<Rightarrow> 's \<Rightarrow> 's outcome) \<Rightarrow> ('o \<Rightarrow> 's \<Rightarrow> 'e list) \<Rightarrow> 'o list \<Rightarrow> 's \<Rightarrow> 'e list" where
  "emitted step emits [] s = []"
| "emitted step emits (o1 # os) s = emits o1 s @
     (case step o1 s of Ret s' \<Rightarrow> emitted step emits os s' | _ \<Rightarrow> [])"

fun faithful_history :: "('o \<Rightarrow> 's \<Rightarrow> 's outcome) \<Rightarrow> ('o \<Rightarrow> 's \<Rightarrow> bool) \<Rightarrow> 'o list \<Rightarrow> 's \<Rightarrow> bool" where
  "faithful_history step faithful [] s = True"
| "faithful_history step faithful (o1 # os) s = (faithful o1 s \<and>
     (case step o1 s of Ret s' \<Rightarrow> faithful_history step faithful os s' | _ \<Rightarrow> True))"

lemma run_steps_append: "run_steps step (xs @ ys) s = andThen (run_steps step xs s) (run_steps step ys)"
  by (induction xs arbitrary: s) (auto simp: andThen_assoc intro!: andThen_cong)

lemma emitted_append: "run_steps step xs s = Ret s' \<Longrightarrow>
    emitted step emits (xs @ ys) s = emitted step emits xs s @ emitted step emits ys s'"
  by (induction xs arbitrary: s) auto

lemma faithful_append: "run_steps step xs s = Ret s' \<Longrightarrow> faithful_history step P xs s \<Longrightarrow> faithful_history step P ys s' \<Longrightarrow>
    faithful_history step P (xs @ ys) s"
  by (induction xs arbitrary: s) auto

locale logged_machine =
  fixes step :: "'o \<Rightarrow> 's \<Rightarrow> 's outcome"
    and emits :: "'o \<Rightarrow> 's \<Rightarrow> 'e list"
    and redo :: "'e \<Rightarrow> 's \<Rightarrow> 's outcome"
    and core :: "'s \<Rightarrow> 'd"
    and faithful :: "'o \<Rightarrow> 's \<Rightarrow> bool"
    and scratch :: "'s \<Rightarrow> bool"
  assumes redo_step: "faithful op s \<Longrightarrow> step op s = Ret s' \<Longrightarrow> scratch t \<Longrightarrow> core t = core s \<Longrightarrow>
      \<exists>t'. run_steps redo (emits op s) t = Ret t' \<and> scratch t' \<and> core t' = core s'"
begin

lemma redo_history:
  assumes "run_steps step os s = Ret s'" and "faithful_history step faithful os s"
    and "scratch t" and "core t = core s"
  shows "\<exists>t'. run_steps redo (emitted step emits os s) t = Ret t' \<and> scratch t' \<and> core t' = core s'"
  using assms
proof (induction os arbitrary: s t)
  case (Cons op os)
  from Cons.prems(1) obtain s1 where s1: "step op s = Ret s1" and rest: "run_steps step os s1 = Ret s'"
    by auto
  from Cons.prems s1 have "faithful op s" and f: "faithful_history step faithful os s1" by simp_all
  then obtain t1 where t1: "run_steps redo (emits op s) t = Ret t1" "scratch t1" "core t1 = core s1"
    using redo_step s1 Cons.prems(3,4) by blast
  from Cons.IH [OF rest f t1(2,3)] t1(1) s1 show ?case
    by (auto simp: run_steps_append)
qed simp

end

section \<open>Operations whose log entry carries their effect\<close>

definition replayable :: "time \<Rightarrow> int \<Rightarrow> store_op \<Rightarrow> database \<Rightarrow> bool" where
  "replayable now i op db = (case op of
     OpSet k v args \<Rightarrow> (case parseSetOptions args of Inl _ \<Rightarrow> True
       | Inr opts \<Rightarrow> 0 < opt_EX opts \<or> opt_PX opts \<le> 0 \<or> opt_PX opts mod 1000 = 0)
   | OpDelete k \<Rightarrow> fmlookup db k = None
   | OpExpire k d \<Rightarrow> in_int d \<and> d mod 1000000000 = 0
   | OpLPush k vs \<Rightarrow> vs \<noteq> []
   | OpRPush k vs \<Rightarrow> vs \<noteq> []
   | OpLPop k (Some n) \<Rightarrow> in_int n
   | OpRPop k (Some n) \<Rightarrow> in_int n
   | OpLTrim k a b \<Rightarrow> (case list_under db k of None \<Rightarrow> True | Some xs \<Rightarrow> in_int (int (length xs)))
   | OpHSet k m \<Rightarrow> m \<noteq> fmempty
   | OpHDel k fs \<Rightarrow> (case fmlookup db k of None \<Rightarrow> True
       | Some v \<Rightarrow> \<not> IsExpired now v \<and> Data v \<noteq> GMap fmempty)
   | _ \<Rightarrow> True)"

lemma parse_options_in_int:
  "parse_options_loop opts args = Inr opts' \<Longrightarrow> in_int (opt_EX opts) \<Longrightarrow> in_int (opt_PX opts) \<Longrightarrow>
    in_int (opt_EX opts') \<and> in_int (opt_PX opts')"
  by (induction opts args rule: parse_options_loop.induct)
     (auto split: if_splits list.splits prod.splits option.splits dest: Atoi_ok_in_int,
      (metis Atoi_ok_in_int)+)

lemma parseSetOptions_in_int:
  assumes "parseSetOptions args = Inr opts"
  shows "in_int (opt_EX opts) \<and> in_int (opt_PX opts)"
proof -
  have "in_int 0" by (simp add: int_bounds)
  with assms parse_options_in_int [of no_options args opts] show ?thesis
    by (auto simp: parseSetOptions_def split: sum.splits if_splits)
qed

text \<open>The effect of replaying a list of commands on the contents of one database.\<close>

lemma dispatch_put:
  assumes "good i t" and "aofChan t = None" and "op \<noteq> OpFlushAll"
  shows "run_op now i op t = Ret (put_db t i (fst (db_spec now i op (data t ! nat i))))"
proof -
  have nil: "aofChan u = None \<Longrightarrow> sent u cs = u" for u cs
    by (induction cs) (simp_all add: sent_def)
  have "ready i t" using assms by (simp add: ready_def aof_room_def)
  from run_op_db_spec [OF this assms(3)] assms(2) show ?thesis by (simp add: result_of_def nil)
qed

lemma whole_seconds:
  assumes "in_int d" and "d mod 1000000000 = 0"
  shows "Duration_mul (seconds_int d) Second = d" and "in_int (seconds_int d)"
proof -
  define q where "q = d div 1000000000"
  have d: "d = q * Second"
    using div_mult_mod_eq [of d 1000000000] assms(2) by (simp add: q_def Second_def)
  have q: "\<bar>q\<bar> \<le> 9223372036" using assms(1) unfolding d Second_def int_bounds by arith
  then have s: "seconds_int d = q" unfolding d by (intro seconds_int_whole) simp
  show "Duration_mul (seconds_int d) Second = d"
    unfolding s using q d by (simp add: Duration_mul_Second)
  show "in_int (seconds_int d)" unfolding s using q by (auto simp: int_bounds abs_le_iff)
qed

lemma Duration_EX: "Duration_mul n Second = wrap64 (n * 1000000000)"
  by (simp add: Duration_mul_def Second_def)

lemma Duration_PX: "1000 dvd n \<Longrightarrow> wrap64 (n div 1000 * 1000000000) = wrap64 (n * 1000000)"
  by (elim dvdE) (simp add: mult.commute)

text \<open>
  The effect on the contents of one database of replaying a list of commands, given as
  \<open>apply_ops\<close> of the operations they call.
\<close>

definition apply_ops :: "time \<Rightarrow> int \<Rightarrow> store_op list \<Rightarrow> database \<Rightarrow> database" where
  "apply_ops now i ops db = fold (\<lambda>op db. fst (db_spec now i op db)) ops db"

text \<open>The operations that the commands logged by an operation call when they are replayed.\<close>

definition redo_ops :: "time \<Rightarrow> int \<Rightarrow> store_op \<Rightarrow> database \<Rightarrow> store_op list" where
  "redo_ops now i op db = (if snd (db_spec now i op db) = [] then [] else (case op of
     OpSet k v args \<Rightarrow> (case parseSetOptions args of Inl _ \<Rightarrow> []
       | Inr opts \<Rightarrow> OpSet k v [] #
           (if 0 < opt_EX opts then [OpExpire k (Duration_mul (opt_EX opts) Second)]
            else if 0 < opt_PX opts then [OpExpire k (Duration_mul (opt_PX opts div 1000) Second)]
            else []))
   | OpSetNX k v \<Rightarrow> [OpSet k v []]
   | OpExpire k d \<Rightarrow> [OpExpire k (Duration_mul (seconds_int d) Second)]
   | OpLPop k n \<Rightarrow> [OpLPop k (Some (min (case n of None \<Rightarrow> 1 | Some c \<Rightarrow> c)
       (int (case list_under db k of None \<Rightarrow> 0 | Some xs \<Rightarrow> length xs))))]
   | OpRPop k n \<Rightarrow> [OpRPop k (Some (min (case n of None \<Rightarrow> 1 | Some c \<Rightarrow> c)
       (int (case list_under db k of None \<Rightarrow> 0 | Some xs \<Rightarrow> length xs))))]
   | OpLTrim k a b \<Rightarrow> (case list_under db k of None \<Rightarrow> []
       | Some xs \<Rightarrow> if range_spec xs a b = [] then [OpDel k]
         else [OpLTrim k (fst (clamp_range (int (length xs)) a b)) (snd (clamp_range (int (length xs)) a b))])
   | OpHSet k m \<Rightarrow> [OpHSet k (fmmap (\<lambda>x. GStr (Sprintf_v x)) m)]
   | _ \<Rightarrow> [op]))"

lemma range_spec_idem:
  assumes "clamp_range (int (length xs)) a b = (x, y)" and "range_spec xs a b \<noteq> []"
  shows "range_spec xs x y = range_spec xs a b"
proof -
  have xy: "0 \<le> x" "x \<le> y" "y < int (length xs)"
    using range_spec_empty [OF assms(1)] clamp_range_bounds [OF assms(1)] assms(2) by auto
  then have "clamp_range (int (length xs)) x y = (x, y)"
    by (simp add: clamp_range_def)
  from range_spec_clamp [OF this] range_spec_clamp [OF assms(1)] show ?thesis by simp
qed

lemma apply_ops_simps [simp]:
  "apply_ops now i [] db = db"
  "apply_ops now i (op # ops) db = apply_ops now i ops (fst (db_spec now i op db))"
  by (simp_all add: apply_ops_def)

lemma redo_set:
  assumes "replayable now i (OpSet k v args) db"
  shows "apply_ops now i (redo_ops now i (OpSet k v args) db) db = fst (db_spec now i (OpSet k v args) db)"
  using assms
  by (auto simp: redo_ops_def replayable_def set_spec_def set_log_spec_def Duration_EX Duration_PX
      set_value_spec_def NewStringValue_def split: sum.splits)

lemma redo_setnx:
  "apply_ops now i (redo_ops now i (OpSetNX k v) db) db = fst (db_spec now i (OpSetNX k v) db)"
  by (auto simp: redo_ops_def set_spec_def set_log_spec_def set_spec_no_options)

lemma redo_expire:
  assumes "replayable now i (OpExpire k d) db"
  shows "apply_ops now i (redo_ops now i (OpExpire k d) db) db = fst (db_spec now i (OpExpire k d) db)"
  using assms whole_seconds(1) [of d]
  by (auto simp: redo_ops_def replayable_def split: option.splits)

lemma redo_pop:
  "apply_ops now i (redo_ops now i (OpLPop k n) db) db = fst (db_spec now i (OpLPop k n) db)"
  "apply_ops now i (redo_ops now i (OpRPop k n) db) db = fst (db_spec now i (OpRPop k n) db)"
  by (auto simp: redo_ops_def pop_spec_def list_under_def Let_def min_def
      split: option.splits sum.splits if_splits)

lemma redo_trim:
  "apply_ops now i (redo_ops now i (OpLTrim k a b) db) db = fst (db_spec now i (OpLTrim k a b) db)"
  by (auto simp: redo_ops_def trim_spec_def list_under_def range_spec_idem
      split: option.splits sum.splits if_splits)

lemma redo_hset:
  "apply_ops now i (redo_ops now i (OpHSet k m) db) db = fst (db_spec now i (OpHSet k m) db)"
  by (auto simp: redo_ops_def hset_spec_def Let_def fmap.map_comp comp_def
      split: option.splits sum.splits if_splits)

lemma redo_hdel:
  assumes "replayable now i (OpHDel k fs) db"
  shows "apply_ops now i (redo_ops now i (OpHDel k fs) db) db = fst (db_spec now i (OpHDel k fs) db)"
proof -
  have "fmupd k v db = db" if "fmlookup db k = Some v" for v and db :: database
    using that by (intro fmap_ext) auto
  with assms show ?thesis
    by (auto simp: redo_ops_def replayable_def hdel_spec_def Let_def AsHash_Inr
        split: option.splits sum.splits if_splits)
qed

lemma apply_redo_ops:
  assumes "replayable now i op db" and "op \<noteq> OpFlushAll"
  shows "apply_ops now i (redo_ops now i op db) db = fst (db_spec now i op db)"
proof (cases op)
  case (OpDelete k)
  with assms have "fmdrop k db = db" by (intro fmap_ext) (auto simp: replayable_def)
  with OpDelete show ?thesis by (simp add: redo_ops_def)
qed (use assms redo_set redo_setnx redo_expire redo_pop redo_trim redo_hset redo_hdel in
    \<open>auto simp: redo_ops_def add_spec_def push_spec_def rename_spec_def
      split: option.splits sum.splits prod.splits if_splits\<close>)

lemma in_int_min: "in_int a \<Longrightarrow> 0 \<le> b \<Longrightarrow> \<not> a < 0 \<Longrightarrow> in_int (min a b)"
  by (auto simp: int_bounds)

lemma in_int_1: "in_int 1"
  by (simp add: int_bounds)

lemma clamp_in_int:
  assumes "in_int (int (length xs))" and "range_spec xs a b \<noteq> []"
  shows "in_int (fst (clamp_range (int (length xs)) a b))"
    and "in_int (snd (clamp_range (int (length xs)) a b))"
proof -
  obtain x y where xy: "clamp_range (int (length xs)) a b = (x, y)" by (cases "clamp_range (int (length xs)) a b")
  with range_spec_empty [OF xy] clamp_range_bounds [OF xy] assms
  show "in_int (fst (clamp_range (int (length xs)) a b))"
    and "in_int (snd (clamp_range (int (length xs)) a b))"
    by (auto simp: int_bounds)
qed

lemma div_1000_in_int: "in_int n \<Longrightarrow> 0 < n \<Longrightarrow> in_int (n div 1000)"
  by (auto simp: int_bounds)

text \<open>
  The commands an operation logs are dispatched to exactly the operations \<open>redo_ops\<close> lists.
\<close>

lemma dispatch_redo:
  assumes "in_int i" and "replayable now i op db" and "op \<noteq> OpFlushAll"
  shows "map (dispatchAOF later) (snd (db_spec now i op db)) = map (run_op later i) (redo_ops now i op db)"
proof (cases op)
  case (OpSet k v args)
  with assms show ?thesis
    by (auto simp: redo_ops_def set_spec_def set_log_spec_def fun_eq_iff dispatch_ops
        div_1000_in_int dest: parseSetOptions_in_int split: sum.splits)
next
  case (OpSetNX k v)
  with assms show ?thesis
    by (auto simp: redo_ops_def set_spec_def set_log_spec_def fun_eq_iff dispatch_ops)
next
  case (OpExpire k d)
  with assms whole_seconds(2) [of d] show ?thesis
    by (auto simp: redo_ops_def replayable_def fun_eq_iff dispatch_ops split: option.splits)
next
  case (OpLPop k n)
  with assms show ?thesis
    by (auto simp: redo_ops_def replayable_def pop_spec_def list_under_def Let_def fun_eq_iff
        dispatch_ops in_int_min in_int_1 split: option.splits sum.splits if_splits)
next
  case (OpRPop k n)
  with assms show ?thesis
    by (auto simp: redo_ops_def replayable_def pop_spec_def list_under_def Let_def fun_eq_iff
        dispatch_ops in_int_min in_int_1 split: option.splits sum.splits if_splits)
next
  case (OpLTrim k a b)
  with assms show ?thesis
    by (auto simp: redo_ops_def replayable_def trim_spec_def list_under_def fun_eq_iff
        dispatch_ops clamp_in_int split: option.splits sum.splits if_splits)
next
  case (OpHSet k m)
  with assms show ?thesis
    by (auto simp: redo_ops_def replayable_def hset_spec_def Let_def fun_eq_iff dispatch_hset
        split: option.splits sum.splits if_splits)
next
  case (OpHDel k fs)
  have "fs = [] \<Longrightarrow> fmfilter (\<lambda>f. f \<notin> set fs) h = h" for h :: "(string, goval) fmap" by simp
  with assms OpHDel show ?thesis
    by (cases fs) (auto simp: redo_ops_def replayable_def hdel_spec_def Let_def fun_eq_iff dispatch_ops
        split: option.splits sum.splits if_splits)
qed (use assms in \<open>auto simp: redo_ops_def replayable_def fun_eq_iff dispatch_ops add_spec_def
      push_spec_def rename_spec_def split: option.splits sum.splits prod.splits if_splits\<close>)

section \<open>Operations that do not depend on the clock\<close>

text \<open>
  Without an expiry anywhere, an operation that sets none behaves the same at every reading of the
  clock, so that its log may be replayed at any time.
\<close>

definition untimed :: "database \<Rightarrow> bool" where
  "untimed db \<longleftrightarrow> fmpred (\<lambda>_ v. ExpiresAt v = None) db"

definition time_free :: "store_op \<Rightarrow> bool" where
  "time_free op = (case op of
     OpExpire k d \<Rightarrow> False
   | OpSet k v args \<Rightarrow> (case parseSetOptions args of Inl _ \<Rightarrow> True
       | Inr opts \<Rightarrow> opt_EX opts \<le> 0 \<and> opt_PX opts \<le> 0)
   | _ \<Rightarrow> True)"

lemma untimed_lookup: "untimed db \<Longrightarrow> fmlookup db k = Some v \<Longrightarrow> ExpiresAt v = None"
  by (auto simp: untimed_def fmpred_iff)

lemma untimed_expired: "untimed db \<Longrightarrow> fmlookup db k = Some v \<Longrightarrow> \<not> IsExpired now v"
  by (simp add: IsExpired_def untimed_lookup)

lemma untimed_upd: "untimed db \<Longrightarrow> ExpiresAt v = None \<Longrightarrow> untimed (fmupd k v db)"
  by (auto simp: untimed_def fmpred_iff)

lemma untimed_drop: "untimed db \<Longrightarrow> untimed (fmdrop k db)"
  by (auto simp: untimed_def fmpred_iff)

lemma untimed_empty [simp]: "untimed fmempty"
  by (simp add: untimed_def)

lemma present_untimed: "untimed db \<Longrightarrow>
    present now (fmlookup db k) \<longleftrightarrow> (\<exists>v. fmlookup db k = Some v \<and> Data v \<noteq> GNil)"
  by (auto simp: present_def untimed_expired split: option.splits)

lemma db_spec_untimed:
  assumes "untimed db" and "time_free op"
  shows "untimed (fst (db_spec now i op db))"
  using assms
  by (cases op)
     (auto simp: time_free_def set_spec_def set_value_spec_def NewStringValue_def NewListValue_def
        NewHashValue_def add_spec_def push_spec_def put_list_def pop_spec_def trim_spec_def rename_spec_def
        hset_spec_def hdel_spec_def Let_def
        split: sum.splits option.splits prod.splits if_splits
        intro!: untimed_upd untimed_drop dest: untimed_lookup)

lemma db_spec_any_time:
  assumes "untimed db" and "time_free op"
  shows "db_spec now i op db = db_spec later i op db"
  using assms
  by (cases op)
     (auto simp: time_free_def set_spec_def set_value_spec_def present_untimed pop_spec_def trim_spec_def
        rename_spec_def hset_spec_def hdel_spec_def Let_def untimed_expired
        split: sum.splits option.splits)

lemma apply_ops_time_free:
  "list_all time_free ops \<Longrightarrow> untimed db \<Longrightarrow> apply_ops now i ops db = apply_ops later i ops db"
  by (induction ops arbitrary: db) (auto simp: db_spec_any_time [of _ _ now i later] db_spec_untimed)

lemma redo_ops_time_free: "time_free op \<Longrightarrow> list_all time_free (redo_ops now i op db)"
  by (cases op) (auto simp: redo_ops_def time_free_def parseSetOptions_def no_options_def
      split: option.splits sum.splits)

section \<open>The store keeps the promise\<close>

text \<open>
  A run of the server as the log sees it: clients call operations on a database at some reading of
  the clock, and the writer goroutine takes the oldest pending command from the channel. An event
  also carries the reading of the clock at which the commands it logs will be replayed.
\<close>

datatype event = Call time time int store_op | Written

definition take_pending :: "Store \<Rightarrow> AOFCommand list \<times> Store" where
  "take_pending s = (case aofChan s of None \<Rightarrow> ([], s)
     | Some ch \<Rightarrow> (case chan_recv ch of None \<Rightarrow> ([], s)
       | Some (c, ch') \<Rightarrow> ([c], s\<lparr>aofChan := Some ch'\<rparr>)))"

fun event_step :: "event \<Rightarrow> Store \<Rightarrow> Store outcome" where
  "event_step (Call now later i op) s = run_op now i op s"
| "event_step Written s = Ret (snd (take_pending s))"

fun event_log :: "event \<Rightarrow> Store \<Rightarrow> (time \<times> AOFCommand) list" where
  "event_log (Call now later i op) s = map (Pair later) (snd (op_spec now i op (data s)))"
| "event_log Written s = []"

fun event_written :: "event \<Rightarrow> Store \<Rightarrow> AOFCommand list" where
  "event_written (Call now later i op) s = []"
| "event_written Written s = fst (take_pending s)"

fun event_ready :: "event \<Rightarrow> Store \<Rightarrow> bool" where
  "event_ready (Call now later i op) s = good i s"
| "event_ready Written s = True"

fun event_faithful :: "event \<Rightarrow> Store \<Rightarrow> bool" where
  "event_faithful (Call now later i op) s = (good i s \<and>
     (op = OpFlushAll \<or> replayable now i op (data s ! nat i) \<and>
       (later = now \<or> time_free op \<and> untimed (data s ! nat i))))"
| "event_faithful Written s = True"

definition redo :: "time \<times> AOFCommand \<Rightarrow> Store \<Rightarrow> Store outcome" where
  "redo = (\<lambda>(now, c). dispatchAOF now c)"

definition scratch_store :: "Store \<Rightarrow> bool" where
  "scratch_store t \<longleftrightarrow> aofChan t = None \<and> wf_store t"

lemma replay_run_steps: "replay cs t = run_steps redo cs t"
  by (induction cs arbitrary: t) (auto simp: redo_def intro!: andThen_cong)

lemma run_steps_id: "run_steps (\<lambda>f. f) (map step xs) t = run_steps step xs t"
  by (induction xs arbitrary: t) (auto intro!: andThen_cong)

lemma run_steps_redo: "run_steps redo (map (Pair now) cs) t = run_steps (dispatchAOF now) cs t"
  by (induction cs arbitrary: t) (auto simp: redo_def intro!: andThen_cong)

lemma data_sent_list [simp]: "data (sent s cs) = data s"
  by (induction cs arbitrary: s) simp_all

lemma take_pending_data [simp]: "data (snd (take_pending s)) = data s"
  by (auto simp: take_pending_def split: option.splits)

lemma run_ops_put:
  assumes "good i t" and "aofChan t = None" and "OpFlushAll \<notin> set ops"
  shows "run_steps (run_op now i) ops t = Ret (put_db t i (apply_ops now i ops (data t ! nat i))) \<and>
    good i (put_db t i (apply_ops now i ops (data t ! nat i)))"
  using assms
proof (induction ops arbitrary: t)
  case Nil
  then have "put_db t i (data t ! nat i) = t"
    by (auto simp: put_db_def good_def valid_index_def)
  with Nil show ?case by simp
next
  case (Cons op ops)
  let ?t = "put_db t i (fst (db_spec now i op (data t ! nat i)))"
  have r: "run_op now i op t = Ret ?t"
    using Cons.prems by (intro dispatch_put) auto
  with safely_run_op [OF Cons.prems(1), of now op] have g: "good i ?t" by simp
  have v: "valid_index t i" using Cons.prems by (simp add: good_def)
  have "aofChan ?t = None" "put_db ?t i db = put_db t i db" for db
    using Cons.prems(2) by (simp_all add: put_db_def)
  with Cons.IH [OF g] Cons.prems(3) r put_db_same [OF v] show ?case by simp
qed

lemma redo_ops_no_FlushAll: "op \<noteq> OpFlushAll \<Longrightarrow> OpFlushAll \<notin> set (redo_ops now i op db)"
  by (cases op) (auto simp: redo_ops_def split: option.splits sum.splits if_splits)

lemma redo_one:
  assumes "good i s" and "replayable now i op (data s ! nat i)" and "op \<noteq> OpFlushAll"
    and "later = now \<or> time_free op \<and> untimed (data s ! nat i)"
    and "scratch_store t" and "data t = data s"
  shows "\<exists>t'. run_steps redo (map (Pair later) (snd (db_spec now i op (data s ! nat i)))) t = Ret t' \<and>
    scratch_store t' \<and> data t' = (data s)[nat i := fst (db_spec now i op (data s ! nat i))]"
proof -
  let ?db = "data s ! nat i"
  have g: "good i t" and i: "in_int i"
    using assms by (auto simp: ready_def good_def scratch_store_def aof_open_def valid_index_def
        wf_store_def int_bounds)
  have "apply_ops later i (redo_ops now i op ?db) ?db = fst (db_spec now i op ?db)"
    using assms(4) apply_redo_ops [OF assms(2,3)] redo_ops_time_free [of op now i ?db]
      apply_ops_time_free [of "redo_ops now i op ?db" ?db later i now] by auto
  moreover have "run_steps (dispatchAOF later) (snd (db_spec now i op ?db)) t =
      run_steps (run_op later i) (redo_ops now i op ?db) t"
    using dispatch_redo [OF i assms(2,3), of later] by (metis run_steps_id)
  ultimately
  have "run_steps redo (map (Pair later) (snd (db_spec now i op ?db))) t =
      Ret (put_db t i (fst (db_spec now i op ?db))) \<and> good i (put_db t i (fst (db_spec now i op ?db)))"
    using run_ops_put [OF g _ redo_ops_no_FlushAll [OF assms(3), of now i ?db], of later] assms(5,6)
    by (simp add: run_steps_redo scratch_store_def)
  with assms(5,6)
  show ?thesis by (auto simp: scratch_store_def good_def data_put)
qed

interpretation aof: logged_machine event_step event_log redo data event_faithful scratch_store
proof (unfold_locales, goal_cases)
  case (1 e s s' t)
  show ?case
  proof (cases e)
    case Written
    with 1 show ?thesis by auto
  next
    case (Call now later i op)
    with 1 have r: "good i s" by simp
    from 1 Call run_op_Ret [OF r, of now op s']
    have s': "data s' = fst (op_spec now i op (data s))" by (auto simp: data_sent_list)
    show ?thesis
    proof (cases "op = OpFlushAll")
      case True
      from 1 have "good 0 t"
        by (auto simp: good_def scratch_store_def aof_open_def valid_index_def wf_store_def)
      moreover have "aofChan t = None" using 1 by (simp add: scratch_store_def)
      ultimately have "ready 0 t" by (simp add: ready_def aof_room_def)
      from Flush_spec(2) [OF this, of later] True Call 1 s' show ?thesis
        by (auto simp: op_spec_def redo_def dispatch_ops [of 0] int_bounds scratch_store_def
            wf_store_def wf_db_def list_all_iff)
    next
      case False
      with 1 Call redo_one [OF r _ False _ 1(3), of now later] s' show ?thesis
        by (auto simp: op_spec_def split_def Let_def)
    qed
  qed
qed

lemma aof_room_sent_list: "aof_room s (length cs + n) \<Longrightarrow> aof_room (sent s cs) n"
  by (induction cs arbitrary: s) (simp_all add: aof_room_sent)

text \<open>No command is lost or reordered between the operations and the writer.\<close>

lemma pending_sent_list: "pending (sent s cs) = (if aofChan s = None then [] else pending s @ cs)"
  by (induction cs arbitrary: s) (auto simp: pending_def with_sent_def split: option.splits)

lemma aofChan_sent: "aofChan (sent s cs) = None \<longleftrightarrow> aofChan s = None"
  by (induction cs arbitrary: s) (simp_all add: with_sent_def)

lemma take_pending_split: "aofChan s \<noteq> None \<Longrightarrow>
    fst (take_pending s) @ pending (snd (take_pending s)) = pending s \<and>
    aofChan (snd (take_pending s)) \<noteq> None"
  by (auto simp: take_pending_def pending_def chan_recv_def split: option.splits list.splits)

lemma log_conserved:
  assumes "run_steps event_step es s = Ret s'" and "faithful_history event_step event_ready es s"
    and "aofChan s \<noteq> None"
  shows "emitted event_step event_written es s @ pending s' =
    pending s @ map snd (emitted event_step event_log es s)"
  using assms
proof (induction es arbitrary: s)
  case (Cons e es)
  from Cons.prems(1) obtain s1 where s1: "event_step e s = Ret s1" and rest: "run_steps event_step es s1 = Ret s'"
    by auto
  have one: "aofChan s1 \<noteq> None \<and> event_written e s @ pending s1 = pending s @ map snd (event_log e s)"
  proof (cases e)
    case Written
    with s1 take_pending_split [OF Cons.prems(3)] show ?thesis by auto
  next
    case (Call now later i op)
    with s1 Cons.prems run_op_Ret [of i s now op s1] show ?thesis
      by (auto simp: pending_sent_list comp_def aofChan_sent) (auto simp: pending_def)
  qed
  then have "event_written e s @ (pending s1 @ ys) = pending s @ map snd (event_log e s) @ ys" for ys
    by (metis append_assoc)
  with Cons.IH [OF rest] Cons.prems s1 one show ?case by simp
qed simp

section \<open>A channel that nobody reads\<close>

text \<open>
  A send on a full channel waits. Replaying commands into a store that has a channel logs them
  again, and without a writer the replay gets stuck once the channel is full.
\<close>

lemma Itoa_zero: "Itoa 0 = ''0''"
  by (simp add: Itoa_def nat_dec.simps)

lemma full_channel_blocks:
  assumes "aofChan t = Some ch" and "\<not> ch_closed ch" and "chan_room ch < length ks" and "valid_index t 0"
  shows "replay (map (\<lambda>k. (now, [''SET'', ''0'', k, v])) ks) t = Block"
  using assms
proof (induction ks arbitrary: t ch)
  case (Cons k ks)
  have step: "dispatchAOF now [''SET'', ''0'', k, v] t =
      drop_result (Store_Set t now 0 k (GStr v) [])"
    using dispatch_ops(1) [of 0 now k v t] Itoa_zero by (simp add: int_bounds)
  show ?case
  proof (cases "chan_room ch = 0")
    case True
    with Cons.prems show ?thesis
      by (simp add: step Store_Set_def set_write_def parseSetOptions_def no_options_def lookup_def db_at_def
        appendAOF_def chan_send_def chan_room_def drop_result_def)
  next
    case False
    let ?ch = "ch\<lparr>ch_buf := ch_buf ch @ [[''SET'', ''0'', k, v]]\<rparr>"
    have "dispatchAOF now [''SET'', ''0'', k, v] t =
        Ret (put_db (t\<lparr>aofChan := Some ?ch\<rparr>) 0 (fmupd k (NewStringValue v) (data t ! 0)))"
      using False Cons.prems
      by (simp add: step Store_Set_def set_write_def parseSetOptions_def no_options_def lookup_def db_at_def
        appendAOF_def chan_send_def chan_room_def drop_result_def setKey_def value_of_raw_def Let_def
        NewAOFCommand_def dbIndexArg_def Itoa_zero valid_index_def put_db_def)
    moreover have "chan_room ?ch < length ks" using Cons.prems False by (simp add: chan_room_def)
    ultimately show ?thesis
      using Cons.IH [of "put_db (t\<lparr>aofChan := Some ?ch\<rparr>) 0 (fmupd k (NewStringValue v) (data t ! 0))" ?ch] Cons.prems
      by (simp add: put_db_def valid_index_def)
  qed
qed simp

end
