(* ===== verification/GoScan.thy ===== *)
theory GoScan
  imports Values
begin

text \<open>
  \<open>fmt.Fscanf(reader, "%d\r\n", &n)\<close> on a buffered reader, as the RESP parsers use it, and
  \<open>reader.ReadString\<close>. A reader is the bytes it will still deliver before the end of the
  stream. The scanner works on runes: leading white space other than a newline is skipped, a
  sign and decimal digits are read, and the newline of the format matches any white space followed
  by a newline or by the end of the stream. Each function returns what is left of the stream.
\<close>

section \<open>Runes\<close>

definition byte_in :: "char \<Rightarrow> nat \<Rightarrow> nat \<Rightarrow> bool" where
  "byte_in c lo hi \<longleftrightarrow> lo \<le> of_char c \<and> of_char c \<le> hi"

text \<open>\<open>utf8.DecodeRune\<close>: an invalid sequence is the rune U+FFFD of width 1.\<close>

fun decode_rune :: "string \<Rightarrow> nat \<times> nat" where
  "decode_rune [] = (65533, 0)"
| "decode_rune (a # s) = (let n = of_char a; bad = (65533, 1) in
     if n < 128 then (n, 1)
     else if byte_in a 194 223 then (case s of
         b # _ \<Rightarrow> if byte_in b 128 191 then ((n - 192) * 64 + (of_char b - 128), 2) else bad
       | _ \<Rightarrow> bad)
     else if byte_in a 224 239 then (case s of
         b # c # _ \<Rightarrow> if byte_in b (if n = 224 then 160 else 128) (if n = 237 then 159 else 191) \<and>
             byte_in c 128 191
           then ((n - 224) * 4096 + (of_char b - 128) * 64 + (of_char c - 128), 3) else bad
       | _ \<Rightarrow> bad)
     else if byte_in a 240 244 then (case s of
         b # c # d # _ \<Rightarrow> if byte_in b (if n = 240 then 144 else 128) (if n = 244 then 143 else 191) \<and>
             byte_in c 128 191 \<and> byte_in d 128 191
           then ((n - 240) * 262144 + (of_char b - 128) * 4096 + (of_char c - 128) * 64 +
             (of_char d - 128), 4) else bad
       | _ \<Rightarrow> bad)
     else bad)"

definition read_rune :: "string \<Rightarrow> (nat \<times> string) option" where
  "read_rune s = (if s = [] then None
     else (let (r, w) = decode_rune s in Some (r, drop w s)))"

text \<open>The bytes \<open>%c\<close> prints for a rune below U+0100.\<close>

definition rune_text :: "nat \<Rightarrow> string" where
  "rune_text r = (if r < 128 then [char_of r]
     else [char_of (192 + r div 64), char_of (128 + r mod 64)])"

definition is_space :: "nat \<Rightarrow> bool" where
  "is_space r \<longleftrightarrow> (9 \<le> r \<and> r \<le> 13) \<or> r = 32 \<or> r = 133 \<or> r = 160 \<or> r = 5760 \<or>
     (8192 \<le> r \<and> r \<le> 8202) \<or> r = 8232 \<or> r = 8233 \<or> r = 8239 \<or> r = 8287 \<or> r = 12288"

lemma decode_rune_width: "s \<noteq> [] \<Longrightarrow> 0 < snd (decode_rune s)"
  by (cases s) (auto simp: Let_def split: list.splits)

lemma read_rune_shorter: "read_rune s = Some (r, s') \<Longrightarrow> length s' < length s"
  using decode_rune_width [of s] by (auto simp: read_rune_def split_def Let_def split: if_splits)

lemma read_rune_None [simp]: "read_rune s = None \<longleftrightarrow> s = []"
  by (simp add: read_rune_def split_def Let_def)

lemma read_rune_Nil [simp]: "read_rune [] = None"
  by simp

lemma read_rune_ascii: "of_char a < (128 :: nat) \<Longrightarrow> read_rune (a # s) = Some (of_char a, s)"
  by (simp add: read_rune_def)

section \<open>White space and newlines\<close>

definition io_EOF :: goerror where "io_EOF = ''EOF''"
definition io_ErrUnexpectedEOF :: goerror where "io_ErrUnexpectedEOF = ''unexpected EOF''"

function SkipSpace :: "string \<Rightarrow> goerror option \<times> string" where
  "SkipSpace s = (case read_rune s of None \<Rightarrow> (None, s)
     | Some (r, s') \<Rightarrow>
         if r = 13 \<and> map_option fst (read_rune s') = Some 10 then SkipSpace s'
         else if r = 10 then (Some ''unexpected newline'', s')
         else if \<not> is_space r then (None, s)
         else SkipSpace s')"
  by pat_completeness auto
termination
  by (relation "measure length") (auto dest: read_rune_shorter)

text \<open>The newline of the format.\<close>

function match_newline :: "string \<Rightarrow> goerror option \<times> string" where
  "match_newline s = (case read_rune s of None \<Rightarrow> (None, s)
     | Some (r, s') \<Rightarrow>
         if r = 10 then (None, s')
         else if is_space r then match_newline s'
         else (Some ''newline in format does not match input'', s'))"
  by pat_completeness auto
termination
  by (relation "measure length") (auto dest: read_rune_shorter)

declare SkipSpace.simps [simp del] match_newline.simps [simp del]

lemma SkipSpace_length: "length (snd (SkipSpace s)) \<le> length s"
proof (induction s rule: SkipSpace.induct)
  case (1 s)
  then show ?case
    by (subst SkipSpace.simps) (fastforce dest: read_rune_shorter split: option.splits)
qed

lemma match_newline_length: "length (snd (match_newline s)) \<le> length s"
proof (induction s rule: match_newline.induct)
  case (1 s)
  then show ?case
    by (subst match_newline.simps) (fastforce dest: read_rune_shorter split: option.splits)
qed

section \<open>The scanner\<close>

text \<open>\<open>strconv.ParseInt\<close> in base 10 and 64 bits is \<open>Atoi\<close> with another name in its error.\<close>

definition parse_int_error :: "string \<Rightarrow> num_error \<Rightarrow> goerror" where
  "parse_int_error tok e = ''strconv.ParseInt: parsing '' @ [CHR 0x22] @ tok @ [CHR 0x22] @ '': '' @
     (case e of ErrSyntax \<Rightarrow> ''invalid syntax'' | ErrRange \<Rightarrow> ''value out of range'')"

definition accept_sign :: "string \<Rightarrow> string \<times> string" where
  "accept_sign s = (case s of [] \<Rightarrow> ([], s)
     | c # s' \<Rightarrow> if c = CHR ''+'' \<or> c = CHR ''-'' then ([c], s') else ([], s))"

definition Fscanf_d :: "string \<Rightarrow> (goerror + int) \<times> string" where
  "Fscanf_d s = (case SkipSpace s of
     (Some e, s1) \<Rightarrow> (Inl e, s1)
   | (None, s1) \<Rightarrow>
       if s1 = [] then (Inl io_EOF, s1)
       else (let (sign, s2) = accept_sign s1; ds = takeWhile is_digit s2; s3 = dropWhile is_digit s2 in
         if s2 = [] then (Inl io_EOF, s2)
         else if ds = [] then (Inl ''expected integer'', s2)
         else (case Atoi (sign @ ds) of
             (_, Some e) \<Rightarrow> (Inl (parse_int_error (sign @ ds) e), s3)
           | (n, None) \<Rightarrow> (case match_newline s3 of
               (Some e, s4) \<Rightarrow> (Inl e, s4)
             | (None, s4) \<Rightarrow> (Inr n, s4)))))"

lemma accept_sign_length: "length (snd (accept_sign s)) \<le> length s"
  by (auto simp: accept_sign_def split: list.splits)

lemma dropWhile_length: "length (dropWhile P xs) \<le> length xs"
  by (induction xs) auto

lemma Fscanf_d_length: "length (snd (Fscanf_d s)) \<le> length s"
proof -
  obtain e s1 where s1: "SkipSpace s = (e, s1)" by (cases "SkipSpace s")
  obtain sign s2 where s2: "accept_sign s1 = (sign, s2)" by (cases "accept_sign s1")
  have le: "length s1 \<le> length s" "length s2 \<le> length s1"
    using SkipSpace_length [of s] accept_sign_length [of s1] s1 s2 by simp_all
  have "length (snd (match_newline (dropWhile is_digit s2))) \<le> length s"
    using match_newline_length [of "dropWhile is_digit s2"] dropWhile_length [of is_digit s2] le by linarith
  then show ?thesis
    using le dropWhile_length [of is_digit s2]
    by (auto simp: Fscanf_d_def s1 s2 Let_def split: option.splits prod.splits)
qed

lemma Fscanf_d_in_int: "Fscanf_d s = (Inr n, r) \<Longrightarrow> in_int n"
  by (auto simp: Fscanf_d_def Let_def split: option.splits prod.splits if_splits dest: Atoi_ok_in_int)

text \<open>A number as the encoder writes it, and the line end after it, are read exactly.\<close>

lemma is_digit_ascii: "is_digit c \<Longrightarrow> of_char c < (128 :: nat) \<and> \<not> is_space (of_char c) \<and>
    of_char c \<noteq> (10 :: nat) \<and> of_char c \<noteq> (13 :: nat)"
  by (auto simp: is_digit_def is_space_def)

lemma SkipSpace_stop:
  "of_char c < (128 :: nat) \<Longrightarrow> \<not> is_space (of_char c) \<Longrightarrow> SkipSpace (c # s) = (None, c # s)"
  by (subst SkipSpace.simps) (auto simp: read_rune_ascii is_space_def)

lemma match_newline_CRLF: "match_newline (CHR 0x0D # CHR 0x0A # s) = (None, s)"
proof -
  have "match_newline (CHR 0x0A # s) = (None, s)"
    by (subst match_newline.simps) (simp add: read_rune_ascii)
  then show ?thesis
    by (subst match_newline.simps) (simp add: read_rune_ascii is_space_def)
qed

lemma digits_of_nat_dec:
  "takeWhile is_digit (nat_dec n @ CHR 0x0D # s) = nat_dec n"
  "dropWhile is_digit (nat_dec n @ CHR 0x0D # s) = CHR 0x0D # s"
  using nat_dec_digits [of _ n]
  by (auto simp: takeWhile_append2 dropWhile_append2 is_digit_def)

lemma Fscanf_d_Itoa:
  assumes "in_int i"
  shows "Fscanf_d (Itoa i @ CHR 0x0D # CHR 0x0A # s) = (Inr i, s)"
proof -
  have a: "Atoi (Itoa i) = (i, None)" using assms by (rule Atoi_Itoa)
  show ?thesis
  proof (cases "i < 0")
    case True
    let ?n = "nat_dec (nat (- i))"
    have t: "Itoa i = CHR ''-'' # ?n" using True by (simp add: Itoa_def)
    have "SkipSpace (CHR ''-'' # ?n @ CHR 0x0D # CHR 0x0A # s) =
        (None, CHR ''-'' # ?n @ CHR 0x0D # CHR 0x0A # s)"
      by (rule SkipSpace_stop) (simp_all add: is_space_def)
    with a show ?thesis
      by (simp add: Fscanf_d_def t accept_sign_def digits_of_nat_dec match_newline_CRLF)
  next
    case False
    let ?n = "nat_dec (nat i)"
    have t: "Itoa i = ?n" using False by (simp add: Itoa_def)
    obtain c cs where n: "?n = c # cs" and c: "is_digit c" by (rule nat_dec_Cons)
    have "SkipSpace (?n @ CHR 0x0D # CHR 0x0A # s) = (None, ?n @ CHR 0x0D # CHR 0x0A # s)"
      unfolding n append_Cons using is_digit_ascii [OF c] by (intro SkipSpace_stop) simp_all
    moreover have "accept_sign (?n @ CHR 0x0D # CHR 0x0A # s) = ([], ?n @ CHR 0x0D # CHR 0x0A # s)"
      using is_digit_not_sign [OF c] by (simp add: n accept_sign_def)
    ultimately show ?thesis
      using a by (simp add: Fscanf_d_def t digits_of_nat_dec match_newline_CRLF)
  qed
qed

section \<open>Lines\<close>

text \<open>\<open>reader.ReadString('\n')\<close>: the line with its newline, or the error at the end of the stream.\<close>

fun ReadString_nl :: "string \<Rightarrow> (goerror + string) \<times> string" where
  "ReadString_nl [] = (Inl io_EOF, [])"
| "ReadString_nl (c # s) = (if c = CHR 0x0A then (Inr [c], s)
     else (case ReadString_nl s of
         (Inl e, r) \<Rightarrow> (Inl e, r)
       | (Inr l, r) \<Rightarrow> (Inr (c # l), r)))"

lemma ReadString_nl_line:
  "CHR 0x0A \<notin> set l \<Longrightarrow> ReadString_nl (l @ CHR 0x0A # s) = (Inr (l @ [CHR 0x0A]), s)"
  by (induction l) auto

lemma ReadString_nl_length: "length (snd (ReadString_nl s)) \<le> length s"
  by (induction s) (auto split: sum.splits prod.splits)

lemma ReadString_nl_nonempty: "ReadString_nl s = (Inr l, r) \<Longrightarrow> l \<noteq> []"
  by (induction s arbitrary: l) (auto split: sum.splits prod.splits if_splits)

end
