(* ===== verification/Resp2.thy ===== *)
theory Resp2
  imports GoScan
begin

text \<open>
  RESP2 on the wire: the encoders (\<open>internal/protocol/resp2/encoders.go\<close>), the parsers
  (\<open>parsers.go\<close>) and the entry points (\<open>resp2.go\<close>). A writer is the bytes written to it; an
  encoder returns them together with its error, so that the bytes of an array whose element failed
  are kept. A parser runs on the bytes the reader still delivers and returns the rest of them. The
  parsers call each other to the depth of the input, so they run on fuel; twice the length of the
  input is always enough.
\<close>

section \<open>Encoding\<close>

abbreviation CRLF :: string where "CRLF \<equiv> [CHR 0x0D, CHR 0x0A]"

definition encodeSimpleString :: "string \<Rightarrow> string \<times> goerror option" where
  "encodeSimpleString v = (''+'' @ v @ CRLF, None)"

definition encodeErrorString :: "string \<Rightarrow> string \<times> goerror option" where
  "encodeErrorString v = (''-'' @ v @ CRLF, None)"

definition encodeInteger :: "int \<Rightarrow> string \<times> goerror option" where
  "encodeInteger v = ('':'' @ Itoa v @ CRLF, None)"

definition encodeBulkString :: "string option \<Rightarrow> string \<times> goerror option" where
  "encodeBulkString v = (case v of None \<Rightarrow> (''$-1'' @ CRLF, None)
     | Some bs \<Rightarrow> (''$'' @ Itoa (int (length bs)) @ CRLF @ bs @ CRLF, None))"

text \<open>The length of an array; a nil slice has length 0.\<close>

definition array_header :: "RESPValue list option \<Rightarrow> string" where
  "array_header v = ''*'' @ Itoa (int (case v of None \<Rightarrow> 0 | Some vs \<Rightarrow> length vs)) @ CRLF"

definition go_type :: "RESPValue \<Rightarrow> string" where
  "go_type v = (case v of SimpleString _ \<Rightarrow> ''protocol.SimpleString'' | ErrorString _ \<Rightarrow> ''protocol.ErrorString''
     | Integer _ \<Rightarrow> ''protocol.Integer'' | BulkString _ \<Rightarrow> ''protocol.BulkString''
     | Array _ \<Rightarrow> ''protocol.Array'' | RMap _ \<Rightarrow> ''protocol.Map'' | RSet _ \<Rightarrow> ''protocol.Set''
     | RBoolean _ \<Rightarrow> ''protocol.Boolean'' | RDouble _ \<Rightarrow> ''protocol.Double''
     | BigNumber _ \<Rightarrow> ''protocol.BigNumber'' | Null \<Rightarrow> ''protocol.Null'' | RPush _ \<Rightarrow> ''protocol.Push'')"

fun Encode :: "RESPValue \<Rightarrow> string \<times> goerror option"
  and encode_elements :: "RESPValue list \<Rightarrow> string \<times> goerror option"
where
  "Encode (SimpleString s) = encodeSimpleString s"
| "Encode (ErrorString s) = encodeErrorString s"
| "Encode (Integer i) = encodeInteger i"
| "Encode (BulkString b) = encodeBulkString b"
| "Encode (Array None) = (array_header None, None)"
| "Encode (Array (Some vs)) = (let (bs, e) = encode_elements vs in (array_header (Some vs) @ bs, e))"
| "Encode Null = (''$-1'' @ CRLF, None)"
| "Encode v = ([], Some (''encoding for type '' @ go_type v @ '' not implemented''))"
| "encode_elements [] = ([], None)"
| "encode_elements (v # vs) = (case Encode v of
     (bs, Some e) \<Rightarrow> (bs, Some e)
   | (bs, None) \<Rightarrow> (let (cs, e) = encode_elements vs in (bs @ cs, e)))"

definition EncodeNil :: RESPValue where
  "EncodeNil = BulkString None"

definition Version :: string where "Version = ''RESP2''"
definition ProtocolVersion :: int where "ProtocolVersion = 2"

section \<open>Parsing\<close>

type_synonym parsed = "((goerror + RESPValue) \<times> string) outcome"

text \<open>\<open>line[:len(line)-2]\<close> panics for a line that is a lone newline.\<close>

definition parse_line :: "(string \<Rightarrow> RESPValue) \<Rightarrow> string \<Rightarrow> parsed" where
  "parse_line f s = (case ReadString_nl s of
     (Inl e, r) \<Rightarrow> Ret (Inl e, r)
   | (Inr line, r) \<Rightarrow> andThen (go_slice line 0 (int (length line) - 2)) (\<lambda>l. Ret (Inr (f l), r)))"

definition parseInteger :: "string \<Rightarrow> parsed" where
  "parseInteger s = (case Fscanf_d s of
     (Inl e, r) \<Rightarrow> Ret (Inl e, r)
   | (Inr n, r) \<Rightarrow> Ret (Inr (Integer n), r))"

text \<open>\<open>io.ReadFull\<close>: \<open>EOF\<close> when nothing could be read, \<open>ErrUnexpectedEOF\<close> when too little could.\<close>

definition ReadFull :: "nat \<Rightarrow> string \<Rightarrow> (goerror + string) \<times> string" where
  "ReadFull n s = (if n \<le> length s then (Inr (take n s), drop n s)
     else (Inl (if s = [] then io_EOF else io_ErrUnexpectedEOF), []))"

definition parseBulkString :: "string \<Rightarrow> parsed" where
  "parseBulkString s = (case Fscanf_d s of
     (Inl e, r) \<Rightarrow> Ret (Inl e, r)
   | (Inr n, r) \<Rightarrow>
       if n = -1 then Ret (Inr (BulkString None), r)
       else if make_panics (wrap64 (n + 2)) 1 then Panic
       else (case ReadFull (nat (wrap64 (n + 2))) r of
           (Inl e, r') \<Rightarrow> Ret (Inl e, r')
         | (Inr bytes, r') \<Rightarrow> andThen (go_slice bytes 0 n) (\<lambda>b. Ret (Inr (bulk b), r'))))"

text \<open>
  One parser after another: an error, a panic and a lack of fuel (\<open>None\<close>) end the whole run.
\<close>

type_synonym 'a fuelled = "((goerror + 'a) \<times> string) outcome option"

fun parse_then :: "'a fuelled \<Rightarrow> ('a \<Rightarrow> string \<Rightarrow> 'b fuelled) \<Rightarrow> 'b fuelled" where
  "parse_then None f = None"
| "parse_then (Some Panic) f = Some Panic"
| "parse_then (Some Block) f = Some Block"
| "parse_then (Some (Ret (Inl e, r))) f = Some (Ret (Inl e, r))"
| "parse_then (Some (Ret (Inr v, r))) f = f v r"

fun parse_fuel :: "nat \<Rightarrow> string \<Rightarrow> RESPValue fuelled"
  and parse_elements :: "nat \<Rightarrow> nat \<Rightarrow> string \<Rightarrow> RESPValue list fuelled"
where
  "parse_fuel 0 s = None"
| "parse_fuel (Suc n) [] = Some (Ret (Inl io_EOF, []))"
| "parse_fuel (Suc n) (prefix # s) =
     (if prefix = CHR ''+'' then Some (parse_line SimpleString s)
      else if prefix = CHR ''-'' then Some (parse_line ErrorString s)
      else if prefix = CHR '':'' then Some (parseInteger s)
      else if prefix = CHR ''$'' then Some (parseBulkString s)
      else if prefix = CHR ''*'' then parse_then (Some (Ret (Fscanf_d s))) (\<lambda>c r.
          if c = -1 then Some (Ret (Inr (Array None), r))
          else if make_panics c 16 then Some Panic
          else parse_then (parse_elements n (nat c) r) (\<lambda>vs r'. Some (Ret (Inr (arr vs), r'))))
      else Some (Ret (Inl (''unknown RESP2 prefix: '' @ rune_text (of_char prefix)), s)))"
| "parse_elements n 0 s = Some (Ret (Inr [], s))"
| "parse_elements 0 (Suc c) s = None"
| "parse_elements (Suc n) (Suc c) s = parse_then (parse_fuel n s) (\<lambda>v r.
     parse_then (parse_elements n c r) (\<lambda>vs r'. Some (Ret (Inr (v # vs), r'))))"

definition Parse :: "string \<Rightarrow> parsed" where
  "Parse s = the (parse_fuel (2 * length s + 1) s)"

definition ParseElements :: "nat \<Rightarrow> string \<Rightarrow> ((goerror + RESPValue list) \<times> string) outcome" where
  "ParseElements c s = the (parse_elements (2 * length s + 2) c s)"

section \<open>Fuel\<close>

text \<open>A parser never grows its input, and shortens an input that is not empty.\<close>

lemma parse_line_rest: "parse_line f s = Ret (x, r) \<Longrightarrow> length r \<le> length s"
  using ReadString_nl_length [of s]
  by (auto simp: parse_line_def split: prod.splits sum.splits)

lemma parseInteger_rest: "parseInteger s = Ret (x, r) \<Longrightarrow> length r \<le> length s"
  using Fscanf_d_length [of s]
  by (auto simp: parseInteger_def split: prod.splits sum.splits)

lemma ReadFull_rest: "ReadFull n s = (x, r) \<Longrightarrow> length r \<le> length s"
  by (auto simp: ReadFull_def split: if_splits)

lemma Fscanf_d_rest: "Fscanf_d s = (x, r) \<Longrightarrow> length r \<le> length s"
  using Fscanf_d_length [of s] by simp

lemma parseBulkString_rest: "parseBulkString s = Ret (x, r) \<Longrightarrow> length r \<le> length s"
  by (auto simp: parseBulkString_def dest!: Fscanf_d_rest ReadFull_rest
      split: prod.splits sum.splits if_splits)

lemma parse_then_Ret: "parse_then m f = Some (Ret (x, r)) \<longleftrightarrow>
    (\<exists>e. m = Some (Ret (Inl e, r)) \<and> x = Inl e) \<or>
    (\<exists>v q. m = Some (Ret (Inr v, q)) \<and> f v q = Some (Ret (x, r)))"
  by (cases "(m, f)" rule: parse_then.cases) auto

lemma parse_then_None: "parse_then m f = None \<longleftrightarrow>
    m = None \<or> (\<exists>v q. m = Some (Ret (Inr v, q)) \<and> f v q = None)"
  by (cases "(m, f)" rule: parse_then.cases) auto

lemma parse_then_Block: "parse_then m f = Some Block \<longleftrightarrow>
    m = Some Block \<or> (\<exists>v q. m = Some (Ret (Inr v, q)) \<and> f v q = Some Block)"
  by (cases "(m, f)" rule: parse_then.cases) auto

lemma parse_fuel_rest:
  "parse_fuel n s = Some (Ret (x, r)) \<Longrightarrow> length r \<le> length s - 1"
  "parse_elements n c s = Some (Ret (y, r)) \<Longrightarrow> length r \<le> length s"
proof (induction n s and n c s arbitrary: x r and y r rule: parse_fuel_parse_elements.induct)
  case (3 n prefix s)
  then show ?case
    by (auto simp: parse_then_Ret dest!: parse_line_rest parseInteger_rest parseBulkString_rest
        Fscanf_d_rest split: if_splits) (meson le_trans)+
next
  case (6 n c s)
  have "length r' \<le> length s" if "parse_fuel n s = Some (Ret (z, r'))" for z r'
    using 6(1) [OF that] by simp
  with 6(2,3) show ?case by (auto simp: parse_then_Ret) (meson le_trans)+
qed simp_all

text \<open>Success consumes at least the prefix byte.\<close>

lemma parse_fuel_Inr: "parse_fuel n s = Some (Ret (Inr v, r)) \<Longrightarrow> length r < length s"
  using parse_fuel_rest(1) [of n s "Inr v" r] by (cases "(n, s)" rule: parse_fuel.cases) auto

lemma parse_fuel_other: "prefix \<noteq> CHR ''*'' \<Longrightarrow>
    \<exists>x. \<forall>n. parse_fuel (Suc n) (prefix # s) = Some x"
  by (rule exI [of _ "the (parse_fuel (Suc 0) (prefix # s))"]) simp

lemma parse_then_defined:
  "m \<noteq> None \<Longrightarrow> (\<And>v q. m = Some (Ret (Inr v, q)) \<Longrightarrow> f v q \<noteq> None) \<Longrightarrow> parse_then m f \<noteq> None"
  by (auto simp only: parse_then_None)

lemma fuel_enough:
  "2 * length s + 1 \<le> n \<Longrightarrow> parse_fuel n s \<noteq> None"
  "2 * length s + 2 \<le> n \<Longrightarrow> parse_elements n c s \<noteq> None"
proof (induction n s and n c s rule: parse_fuel_parse_elements.induct)
  case (3 n prefix s)
  show ?case
  proof (cases "prefix = CHR ''*''")
    case True
    have e: "parse_elements n (nat c) r \<noteq> None"
      if "Some (Ret (Fscanf_d s)) = Some (Ret (Inr c, r))" "c \<noteq> -1" "\<not> make_panics c 16" for c r
      using 3(1) [OF _ _ _ _ True that(2,3)] True 3(2) Fscanf_d_rest [of s "Inr c" r] that(1) by simp
    have "parse_then (Some (Ret (Fscanf_d s))) (\<lambda>c r. if c = -1 then Some (Ret (Inr (Array None), r))
        else if make_panics c 16 then Some Panic
        else parse_then (parse_elements n (nat c) r) (\<lambda>vs r'. Some (Ret (Inr (arr vs), r')))) \<noteq> None"
      by (rule parse_then_defined)
        (simp_all split: if_splits del: not_None_eq add: parse_then_defined e)
    with True show ?thesis by simp
  qed (use parse_fuel_other [of prefix s] in auto)
next
  case (6 n c s)
  then have "parse_fuel n s \<noteq> None" by simp
  moreover have "parse_elements n c r \<noteq> None" if "parse_fuel n s = Some (Ret (Inr v, r))" for v r
    using 6(2) [of r] 6(3) parse_fuel_Inr [OF that] by simp
  ultimately show ?case by (simp add: parse_then_None)
qed simp_all

lemma parse_then_more:
  assumes "parse_then m f = Some x" and "\<And>y. m = Some y \<Longrightarrow> m' = Some y"
    and "\<And>v q. f v q = Some x \<Longrightarrow> g v q = Some x"
  shows "parse_then m' g = Some x"
  using assms by (cases "(m, f)" rule: parse_then.cases) auto

lemma fuel_more:
  "parse_fuel n s = Some x \<Longrightarrow> n \<le> m \<Longrightarrow> parse_fuel m s = Some x"
  "parse_elements n c s = Some y \<Longrightarrow> n \<le> m \<Longrightarrow> parse_elements m c s = Some y"
proof (induction n s and n c s arbitrary: m x and m y rule: parse_fuel_parse_elements.induct)
  case (2 n)
  then show ?case by (cases m) auto
next
  case (3 n prefix s)
  from 3(3) obtain m' where m: "m = Suc m'" "n \<le> m'" by (cases m) auto
  show ?case
  proof (cases "prefix = CHR ''*''")
    case True
    let ?g = "\<lambda>n c r. if c = -1 then Some (Ret (Inr (Array None), r))
        else if make_panics c 16 then Some Panic
        else parse_then (parse_elements n (nat c) r) (\<lambda>vs r'. Some (Ret (Inr (arr vs), r')))"
    have e: "?g m' c r = Some x" if "?g n c r = Some x" for c r
    proof (cases "c = -1 \<or> make_panics c 16")
      case False
      with that have *: "parse_then (parse_elements n (nat c) r) (\<lambda>vs r'. Some (Ret (Inr (arr vs), r'))) = Some x"
        by simp
      have ih: "parse_elements m' (nat c) r = Some y" if "parse_elements n (nat c) r = Some y" for y
        using 3(1) [of c r, OF _ _ _ _ True _ _ that m(2)] False True by simp
      from * have "parse_then (parse_elements m' (nat c) r) (\<lambda>vs r'. Some (Ret (Inr (arr vs), r'))) = Some x"
        by (rule parse_then_more) (erule ih, assumption)
      with False show ?thesis by simp
    qed (use that in auto)
    have "parse_then (Some (Ret (Fscanf_d s))) (?g n) = Some x" using 3(2) True by simp
    then have "parse_then (Some (Ret (Fscanf_d s))) (?g m') = Some x"
      by (rule parse_then_more) (assumption, rule e)
    with m True show ?thesis by simp
  next
    case False
    from parse_fuel_other [OF False, of s] obtain z where "\<And>n. parse_fuel (Suc n) (prefix # s) = Some z"
      by blast
    with 3(2) m show ?thesis by (simp only:)
  qed
next
  case (6 n c s)
  from 6(4) obtain m' where m: "m = Suc m'" "n \<le> m'" by (cases m) auto
  have e: "parse_then (parse_elements m' c r) f = Some y"
    if "parse_then (parse_elements n c r) f = Some y"
    for r and f :: "RESPValue list \<Rightarrow> string \<Rightarrow> RESPValue list fuelled"
    using that by (rule parse_then_more) (erule 6(2) [OF _ m(2)], assumption)
  from 6(3) have "parse_then (parse_fuel m' s) (\<lambda>v r.
      parse_then (parse_elements m' c r) (\<lambda>vs r'. Some (Ret (Inr (v # vs), r')))) = Some y"
    unfolding parse_elements.simps by (rule parse_then_more) (erule 6(1) [OF _ m(2)], erule e)
  with m show ?case by simp
qed simp_all

lemma Parse_fuel:
  assumes "2 * length s + 1 \<le> n" shows "parse_fuel n s = Some (Parse s)"
proof -
  have "parse_fuel (2 * length s + 1) s = Some (Parse s)"
    using fuel_enough(1) [of s "2 * length s + 1"] by (auto simp: Parse_def)
  with assms show ?thesis by (rule fuel_more(1) [rotated])
qed

lemma ParseElements_fuel:
  assumes "2 * length s + 2 \<le> n" shows "parse_elements n c s = Some (ParseElements c s)"
proof -
  have "parse_elements (2 * length s + 2) c s = Some (ParseElements c s)"
    using fuel_enough(2) [of s "2 * length s + 2" c] by (auto simp: ParseElements_def)
  with assms show ?thesis by (rule fuel_more(2) [rotated])
qed

text \<open>The parsers without fuel.\<close>

lemma Parse_Nil [simp]: "Parse [] = Ret (Inl io_EOF, [])"
  by (simp add: Parse_def)

lemma Parse_leaf [simp]:
  "Parse (CHR ''+'' # s) = parse_line SimpleString s"
  "Parse (CHR ''-'' # s) = parse_line ErrorString s"
  "Parse (CHR '':'' # s) = parseInteger s"
  "Parse (CHR ''$'' # s) = parseBulkString s"
  by (simp_all add: Parse_def)

lemma Parse_array:
  "Some (Parse (CHR ''*'' # s)) = parse_then (Some (Ret (Fscanf_d s))) (\<lambda>c r.
     if c = -1 then Some (Ret (Inr (Array None), r))
     else if make_panics c 16 then Some Panic
     else parse_then (Some (ParseElements (nat c) r)) (\<lambda>vs r'. Some (Ret (Inr (arr vs), r'))))"
proof -
  let ?n = "2 * length s + 2"
  have f: "parse_elements ?n c r = Some (ParseElements c r)" if "Fscanf_d s = (x, r)" for c x r
    using Fscanf_d_rest [OF that] by (intro ParseElements_fuel) simp
  have "Some (Parse (CHR ''*'' # s)) = parse_fuel (Suc ?n) (CHR ''*'' # s)"
    by (rule Parse_fuel [symmetric]) simp
  with f show ?thesis by (cases "Fscanf_d s"; cases "fst (Fscanf_d s)") simp_all
qed

lemma Parse_unknown:
  "prefix \<notin> {CHR ''+'', CHR ''-'', CHR '':'', CHR ''$'', CHR ''*''} \<Longrightarrow>
    Parse (prefix # s) = Ret (Inl (''unknown RESP2 prefix: '' @ rune_text (of_char prefix)), s)"
  by (simp add: Parse_def)

lemma ParseElements_0 [simp]: "ParseElements 0 s = Ret (Inr [], s)"
  by (simp add: ParseElements_def)

lemma ParseElements_Suc:
  "Some (ParseElements (Suc c) s) = parse_then (Some (Parse s)) (\<lambda>v r.
     parse_then (Some (ParseElements c r)) (\<lambda>vs r'. Some (Ret (Inr (v # vs), r'))))"
proof -
  let ?n = "2 * length s + 1"
  have p: "parse_fuel ?n s = Some (Parse s)" by (rule Parse_fuel) simp
  have e: "parse_elements ?n c r = Some (ParseElements c r)" if "Parse s = Ret (Inr v, r)" for v r
    using parse_fuel_Inr [of ?n s v r] that p by (intro ParseElements_fuel) simp
  have "Some (ParseElements (Suc c) s) = parse_elements (Suc ?n) (Suc c) s"
    by (rule ParseElements_fuel [symmetric]) simp
  with p e show ?thesis
  proof (cases "Parse s")
    case (Ret z)
    with p e \<open>Some _ = _\<close> show ?thesis by (cases z; cases "fst z") simp_all
  qed simp_all
qed

lemma Parse_consumes: "Parse s = Ret (x, r) \<Longrightarrow> s \<noteq> [] \<Longrightarrow> length r < length s"
  using parse_fuel_rest(1) [of "2 * length s + 1" s x r] Parse_fuel [of s "2 * length s + 1"]
  by (cases s) auto

lemma leaf_not_Block:
  "parse_line f s \<noteq> Block" "parseInteger s \<noteq> Block" "parseBulkString s \<noteq> Block"
  by (auto simp: parse_line_def parseInteger_def parseBulkString_def go_slice_def
      split: prod.splits sum.splits)

lemma parse_fuel_not_Block:
  "parse_fuel n s \<noteq> Some Block" "parse_elements n c s \<noteq> Some Block"
  by (induction n s and n c s rule: parse_fuel_parse_elements.induct)
     (auto simp: parse_then_Block leaf_not_Block)

lemma Parse_not_Block: "Parse s \<noteq> Block"
  using parse_fuel_not_Block(1) [of "2 * length s + 1" s] Parse_fuel [of s "2 * length s + 1"] by auto

end
