(* ===== verification/Resp2Codec.thy ===== *)
theory Resp2Codec
  imports Resp2
begin

text \<open>
  What the users of the wire protocol rely on: a value that was encoded is parsed back, and the
  parser stops exactly behind it, so that values written one after the other are read one after
  the other. The contract is a locale; RESP2 is shown to keep it for every value whose texts carry
  no newline and whose lengths fit. The log file and the client connections use the contract.
\<close>

section \<open>The contract\<close>

fun encode_all :: "('v \<Rightarrow> string \<times> goerror option) \<Rightarrow> 'v list \<Rightarrow> string" where
  "encode_all encode [] = []"
| "encode_all encode (v # vs) = fst (encode v) @ encode_all encode vs"

fun parse_many :: "(string \<Rightarrow> ((goerror + 'v) \<times> string) outcome) \<Rightarrow> nat \<Rightarrow> string \<Rightarrow>
    ((goerror + 'v list) \<times> string) outcome" where
  "parse_many parse 0 s = Ret (Inr [], s)"
| "parse_many parse (Suc n) s = andThen (parse s) (\<lambda>(x, r). case x of Inl e \<Rightarrow> Ret (Inl e, r)
     | Inr v \<Rightarrow> andThen (parse_many parse n r) (\<lambda>(y, r'). Ret (map_sum (\<lambda>e. e) ((#) v) y, r')))"

locale wire_protocol =
  fixes encode :: "'v \<Rightarrow> string \<times> goerror option"
    and parse :: "string \<Rightarrow> ((goerror + 'v) \<times> string) outcome"
    and sendable :: "'v \<Rightarrow> bool"
    and canon :: "'v \<Rightarrow> 'v"
  assumes encode_ok: "sendable v \<Longrightarrow> snd (encode v) = None"
    and parse_encode: "sendable v \<Longrightarrow> parse (fst (encode v) @ rest) = Ret (Inr (canon v), rest)"
    and parse_end: "parse [] = Ret (Inl io_EOF, [])"
    and parse_shortens: "parse s = Ret (x, r) \<Longrightarrow> s \<noteq> [] \<Longrightarrow> length r < length s"
begin

lemma encode_nonempty: "sendable v \<Longrightarrow> fst (encode v) \<noteq> []"
  using parse_encode [of v "[]"] parse_end by auto

text \<open>A stream of encoded values is parsed value by value, whatever follows it.\<close>

lemma parse_stream:
  "list_all sendable vs \<Longrightarrow>
    parse_many parse (length vs) (encode_all encode vs @ rest) = Ret (Inr (map canon vs), rest)"
  by (induction vs) (simp_all add: parse_encode)

text \<open>No encoding is a prefix of another one: the reader cannot lose its place.\<close>

lemma encode_unambiguous:
  assumes "sendable v" and "sendable w" and "fst (encode v) @ r = fst (encode w) @ r'"
  shows "canon v = canon w \<and> r = r'"
  using parse_encode [OF assms(1), of r] parse_encode [OF assms(2), of r'] assms(3) by simp

end

section \<open>RESP2 keeps it\<close>

text \<open>
  What survives a round trip: texts of simple strings and errors without a newline, 64-bit integers,
  bulk strings and arrays below the address space. A nil array and \<open>Null\<close> come back
  as an empty array and a null bulk string.
\<close>

fun wire_ok :: "RESPValue \<Rightarrow> bool" where
  "wire_ok (SimpleString s) = (CHR 0x0A \<notin> set s)"
| "wire_ok (ErrorString s) = (CHR 0x0A \<notin> set s)"
| "wire_ok (Integer i) = in_int i"
| "wire_ok (BulkString None) = True"
| "wire_ok (BulkString (Some b)) = (length b < 281474976710655)"
| "wire_ok (Array None) = True"
| "wire_ok (Array (Some vs)) = (length vs \<le> 17592186044416 \<and> list_all wire_ok vs)"
| "wire_ok Null = True"
| "wire_ok _ = False"

fun wire_canon :: "RESPValue \<Rightarrow> RESPValue" where
  "wire_canon (Array None) = arr []"
| "wire_canon (Array (Some vs)) = arr (map wire_canon vs)"
| "wire_canon Null = BulkString None"
| "wire_canon v = v"

lemma parse_line_text:
  "CHR 0x0A \<notin> set s \<Longrightarrow> parse_line f (s @ CRLF @ rest) = Ret (Inr (f s), rest)"
  using ReadString_nl_line [of "s @ [CHR 0x0D]" rest] by (simp add: parse_line_def go_slice_def)

lemma parseInteger_text: "in_int i \<Longrightarrow> parseInteger (Itoa i @ CRLF @ rest) = Ret (Inr (Integer i), rest)"
  by (simp add: parseInteger_def Fscanf_d_Itoa)

lemma Itoa_minus_one: "Itoa (-1) = ''-1''"
  by (simp add: Itoa_def nat_dec.simps)

lemma parseBulkString_nil: "parseBulkString (''-1'' @ CRLF @ rest) = Ret (Inr (BulkString None), rest)"
  using Fscanf_d_Itoa [of "-1" rest] by (simp add: parseBulkString_def Itoa_minus_one int_bounds)

lemma parseBulkString_text:
  assumes "length b < 281474976710655"
  shows "parseBulkString (Itoa (int (length b)) @ CRLF @ b @ CRLF @ rest) = Ret (Inr (bulk b), rest)"
proof -
  have "in_int (int (length b))" and "wrap64 (int (length b) + 2) = int (length b) + 2"
    using assms by (auto simp: int_bounds intro!: wrap64_id)
  with assms show ?thesis
    by (simp add: parseBulkString_def Fscanf_d_Itoa make_panics_def ReadFull_def go_slice_def
        nat_add_distrib)
qed

lemma parse_array_text:
  assumes "n \<le> 17592186044416" and "ParseElements n s = Ret (Inr vs, rest)"
  shows "Parse (CHR ''*'' # Itoa (int n) @ CRLF @ s) = Ret (Inr (arr vs), rest)"
proof -
  have "Fscanf_d (Itoa (int n) @ CRLF @ s) = (Inr (int n), s)"
    using Fscanf_d_Itoa [of "int n" s] assms(1) by (simp add: int_bounds)
  with assms Parse_array [of "Itoa (int n) @ CRLF @ s"] show ?thesis
    by (simp add: make_panics_def)
qed

lemma ParseElements_Cons:
  "Parse s = Ret (Inr v, r) \<Longrightarrow> ParseElements c r = Ret (Inr vs, r') \<Longrightarrow>
    ParseElements (Suc c) s = Ret (Inr (v # vs), r')"
  using ParseElements_Suc [of c s] by simp

lemma encode_parse:
  "wire_ok v \<Longrightarrow> snd (Encode v) = None \<and> Parse (fst (Encode v) @ rest) = Ret (Inr (wire_canon v), rest)"
  "list_all wire_ok vs \<Longrightarrow> snd (encode_elements vs) = None \<and>
    ParseElements (length vs) (fst (encode_elements vs) @ rest) = Ret (Inr (map wire_canon vs), rest)"
proof (induction v and vs arbitrary: rest and rest rule: Encode_encode_elements.induct)
  case 5
  then show ?case using parse_array_text [of 0 rest "[]" rest] by (simp add: array_header_def)
next
  case (6 vs)
  have e: "snd (encode_elements vs) = None"
    and p: "ParseElements (length vs) (fst (encode_elements vs) @ rest) = Ret (Inr (map wire_canon vs), rest)"
    using 6 by simp_all
  from parse_array_text [OF _ p] e 6(2) show ?case
    by (simp add: array_header_def split_def)
next
  case (10 v vs)
  have e: "snd (Encode v) = None" and p: "\<And>r. Parse (fst (Encode v) @ r) = Ret (Inr (wire_canon v), r)"
    using 10 by simp_all
  obtain bs where bs: "Encode v = (bs, None)" using e by (cases "Encode v") simp
  have "snd (encode_elements vs) = None"
    and q: "ParseElements (length vs) (fst (encode_elements vs) @ rest) = Ret (Inr (map wire_canon vs), rest)"
    using 10 bs by simp_all
  with ParseElements_Cons [OF p [of "fst (encode_elements vs) @ rest"] q] bs show ?case
    by (simp add: split_def)
qed (use parse_line_text parseInteger_text parseBulkString_nil parseBulkString_text in
    \<open>auto simp: encodeSimpleString_def encodeErrorString_def encodeInteger_def encodeBulkString_def
      split: option.splits\<close>)

interpretation resp2: wire_protocol Encode Parse wire_ok wire_canon
  using encode_parse(1) Parse_consumes by unfold_locales auto

end
