(* ===== verification/AofFile.thy ===== *)
theory AofFile
  imports AofReplay Resp2Codec "HOL-Library.Sublist"
begin

text \<open>
  The append-only file (\<open>internal/persistence/aof/aof.go\<close>): the goroutine that writes the commands
  of the channel to the file, and the recovery that reads the file back into a store. A file is
  the bytes it holds; opening, writing and flushing it succeed. Recovery reads the clock once per
  command it replays: \<open>clk n\<close> is the reading for command \<open>n\<close>.
\<close>

section \<open>Writing\<close>

definition toRESPArray :: "AOFCommand \<Rightarrow> RESPValue" where
  "toRESPArray cmd = arr (map bulk cmd)"

text \<open>
  The loop over the channel: each command is encoded into a buffer and flushed to the end of the
  file. An encoding error stops the goroutine before the flush.
\<close>

fun AOFWriter :: "AOFCommand list \<Rightarrow> string \<Rightarrow> string \<times> goerror option" where
  "AOFWriter [] file = (file, None)"
| "AOFWriter (cmd # cmds) file = (case Encode (toRESPArray cmd) of
     (bs, Some e) \<Rightarrow> (file, Some e)
   | (bs, None) \<Rightarrow> AOFWriter cmds (file @ bs))"

section \<open>Reading\<close>

fun command_part :: "RESPValue \<Rightarrow> string option" where
  "command_part (BulkString None) = Some []"
| "command_part (BulkString (Some b)) = Some b"
| "command_part (SimpleString s) = Some s"
| "command_part _ = None"

fun command_parts :: "RESPValue list \<Rightarrow> string list option" where
  "command_parts [] = Some []"
| "command_parts (v # vs) = (case command_part v of None \<Rightarrow> None
     | Some p \<Rightarrow> map_option ((#) p) (command_parts vs))"

definition respArrayToCommand :: "RESPValue \<Rightarrow> string list option" where
  "respArrayToCommand v = (case v of Array None \<Rightarrow> Some []
     | Array (Some vs) \<Rightarrow> command_parts vs
     | _ \<Rightarrow> None)"

function rebuild_loop :: "(nat \<Rightarrow> time) \<Rightarrow> nat \<Rightarrow> string \<Rightarrow> Store \<Rightarrow> (goerror option \<times> Store) outcome" where
  "rebuild_loop clk n input s = (case Parse input of Panic \<Rightarrow> Panic | Block \<Rightarrow> Block
     | Ret (Inl e, r) \<Rightarrow> Ret (if e = io_EOF then None else Some e, s)
     | Ret (Inr v, r) \<Rightarrow> (case respArrayToCommand v of
         None \<Rightarrow> rebuild_loop clk n r s
       | Some parts \<Rightarrow>
           if parts = [] then rebuild_loop clk n r s
           else andThen (dispatchAOF (clk n) parts s) (rebuild_loop clk (Suc n) r)))"
  by pat_completeness auto
termination
proof (relation "measure (\<lambda>(clk, n, input, s). length input)")
  have shorter: "Parse input = Ret (Inr v, r) \<Longrightarrow> length r < length input" for input r and v :: RESPValue
    using Parse_consumes [of input "Inr v" r] by (cases input) auto
  show "\<And>clk n input s x x1 r a. Parse input = Ret x \<Longrightarrow> (x1, r) = x \<Longrightarrow> x1 = Inr a \<Longrightarrow>
      respArrayToCommand a = None \<Longrightarrow>
      ((clk, n, r, s), clk, n, input, s) \<in> measure (\<lambda>(clk, n, input, s). length input)"
    using shorter by auto
  show "\<And>clk n input s x x1 r a x2. Parse input = Ret x \<Longrightarrow> (x1, r) = x \<Longrightarrow> x1 = Inr a \<Longrightarrow>
      respArrayToCommand a = Some x2 \<Longrightarrow> x2 = [] \<Longrightarrow>
      ((clk, n, r, s), clk, n, input, s) \<in> measure (\<lambda>(clk, n, input, s). length input)"
    using shorter by auto
  show "\<And>clk n input s x x1 r a x2 xa. Parse input = Ret x \<Longrightarrow> (x1, r) = x \<Longrightarrow> x1 = Inr a \<Longrightarrow>
      respArrayToCommand a = Some x2 \<Longrightarrow> x2 \<noteq> [] \<Longrightarrow> dispatchAOF (clk n) x2 s = Ret xa \<Longrightarrow>
      ((clk, Suc n, r, xa), clk, n, input, s) \<in> measure (\<lambda>(clk, n, input, s). length input)"
    using shorter by auto
qed simp

declare rebuild_loop.simps [simp del]

text \<open>
  A file that cannot be opened is an error; an empty file is fine; a file that does not start with
  an array is taken for the old line format and ignored.
\<close>

definition RebuildStoreFromAOF :: "(nat \<Rightarrow> time) \<Rightarrow> Store \<Rightarrow> goerror + string \<Rightarrow>
    (goerror option \<times> Store) outcome" where
  "RebuildStoreFromAOF clk s file = (case file of
     Inl e \<Rightarrow> Ret (Some e, s)
   | Inr content \<Rightarrow> (case content of
       [] \<Rightarrow> Ret (None, s)
     | c # _ \<Rightarrow> if c \<noteq> CHR ''*'' then Ret (None, s) else rebuild_loop clk 0 content s))"

section \<open>A log that was written is read back\<close>

definition loggable :: "AOFCommand \<Rightarrow> bool" where
  "loggable c \<longleftrightarrow> c \<noteq> [] \<and> length c \<le> 17592186044416 \<and> list_all (\<lambda>p. length p < 281474976710655) c"

lemma wire_ok_command: "loggable c \<Longrightarrow> wire_ok (toRESPArray c)"
  by (simp add: loggable_def toRESPArray_def list.pred_map comp_def)

lemma command_parts_bulk [simp]: "command_parts (map bulk c) = Some c"
  by (induction c) simp_all

lemma respArrayToCommand_toRESPArray: "respArrayToCommand (toRESPArray c) = Some c"
  by (simp add: respArrayToCommand_def toRESPArray_def)

lemma canon_command [simp]: "wire_canon (toRESPArray c) = toRESPArray c"
  by (simp add: toRESPArray_def)

lemma encode_bulks: "snd (encode_elements (map bulk c)) = None"
  by (induction c) (simp_all add: encodeBulkString_def split_def)

lemma encode_command_ok: "snd (Encode (toRESPArray c)) = None"
  by (simp add: toRESPArray_def split_def encode_bulks)

definition log_text :: "AOFCommand list \<Rightarrow> string" where
  "log_text cmds = encode_all Encode (map toRESPArray cmds)"

lemma log_text_simps [simp]:
  "log_text [] = []"
  "log_text (c # cs) = fst (Encode (toRESPArray c)) @ log_text cs"
  by (simp_all add: log_text_def)

lemma log_text_append: "log_text (xs @ ys) = log_text xs @ log_text ys"
  by (induction xs) simp_all

lemma AOFWriter_text: "AOFWriter cmds file = (file @ log_text cmds, None)"
proof (induction cmds arbitrary: "file")
  case (Cons c cs)
  then show ?case using encode_command_ok [of c] by (cases "Encode (toRESPArray c)") simp
qed simp

text \<open>The commands of a log with the clock reading at which recovery replays them.\<close>

fun stamped :: "(nat \<Rightarrow> time) \<Rightarrow> nat \<Rightarrow> AOFCommand list \<Rightarrow> (time \<times> AOFCommand) list" where
  "stamped clk n [] = []"
| "stamped clk n (c # cs) = (clk n, c) # stamped clk (Suc n) cs"

lemma stamped_append: "stamped clk n (xs @ ys) = stamped clk n xs @ stamped clk (n + length xs) ys"
  by (induction xs arbitrary: n) simp_all

lemma rebuild_one:
  assumes "loggable c"
  shows "rebuild_loop clk n (fst (Encode (toRESPArray c)) @ rest) s =
    andThen (dispatchAOF (clk n) c s) (rebuild_loop clk (Suc n) rest)"
  using resp2.parse_encode [OF wire_ok_command [OF assms], of rest] assms
  by (subst rebuild_loop.simps) (simp add: respArrayToCommand_toRESPArray loggable_def)

lemma rebuild_log:
  "list_all loggable cmds \<Longrightarrow> rebuild_loop clk n (log_text cmds @ rest) s =
    andThen (replay (stamped clk n cmds) s) (rebuild_loop clk (n + length cmds) rest)"
  by (induction cmds arbitrary: n s)
     (auto simp: rebuild_one andThen_assoc intro!: andThen_cong)

lemma rebuild_end [simp]: "rebuild_loop clk n [] s = Ret (None, s)"
  by (subst rebuild_loop.simps) simp

lemma encode_command_star: "\<exists>r. fst (Encode (toRESPArray c)) = CHR ''*'' # r"
  by (simp add: toRESPArray_def split_def array_header_def Let_def)

lemma rebuild_file:
  assumes "list_all loggable cmds" and "cmds \<noteq> []"
  shows "RebuildStoreFromAOF clk s (Inr (log_text cmds @ rest)) =
    andThen (replay (stamped clk 0 cmds) s) (rebuild_loop clk (length cmds) rest)"
proof -
  obtain c cs where "cmds = c # cs" using assms(2) by (cases cmds) auto
  with encode_command_star [of c] obtain r where "log_text cmds @ rest = CHR ''*'' # r" by auto
  with rebuild_log [OF assms(1), of clk 0 rest s] show ?thesis
    by (simp add: RebuildStoreFromAOF_def)
qed

text \<open>The text of a log determines its commands.\<close>

lemma command_text_inj:
  assumes "loggable c" and "loggable d"
    and "fst (Encode (toRESPArray c)) @ xs = fst (Encode (toRESPArray d)) @ ys"
  shows "c = d \<and> xs = ys"
proof -
  have "Ret (Inr (toRESPArray c), xs) = Parse (fst (Encode (toRESPArray c)) @ xs)"
    by (rule resp2.parse_encode [OF wire_ok_command [OF assms(1)], of xs, unfolded canon_command, symmetric])
  also have "\<dots> = Parse (fst (Encode (toRESPArray d)) @ ys)" by (simp only: assms(3))
  also have "\<dots> = Ret (Inr (toRESPArray d), ys)"
    by (rule resp2.parse_encode [OF wire_ok_command [OF assms(2)], of ys, unfolded canon_command])
  finally have "toRESPArray c = toRESPArray d" and "xs = ys" by blast+
  then show ?thesis
    using respArrayToCommand_toRESPArray [of c] respArrayToCommand_toRESPArray [of d] by (metis option.inject)
qed

lemma command_text_nonempty [simp]: "fst (Encode (toRESPArray c)) \<noteq> []"
  using encode_command_star [of c] by auto

lemma log_text_empty: "log_text cmds = [] \<longleftrightarrow> cmds = []" "[] = log_text cmds \<longleftrightarrow> cmds = []"
  using command_text_nonempty by (cases cmds; force)+

lemma log_text_inj:
  "list_all loggable xs \<Longrightarrow> list_all loggable ys \<Longrightarrow> log_text xs = log_text ys \<Longrightarrow> xs = ys"
proof (induction xs arbitrary: ys)
  case Nil
  then show ?case using log_text_empty(2) [of ys] by simp
next
  case (Cons x xs)
  then have "ys \<noteq> []" using log_text_empty(1) [of "x # xs"] by auto
  then obtain y ys' where "ys = y # ys'" by (cases ys) auto
  with Cons.prems have "x = y \<and> log_text xs = log_text ys'" and "list_all loggable xs" and "list_all loggable ys'"
    using command_text_inj [of x y "log_text xs" "log_text ys'"] by (simp_all only: log_text_simps list.pred_inject)
  with Cons.IH \<open>ys = y # ys'\<close> show ?case by blast
qed

section \<open>A torn write\<close>

text \<open>
  The process may stop in the middle of a write, so that the file ends inside a command. Every
  proper prefix of a command is read as an end of the stream, never as a command.
\<close>

definition end_of_stream :: "goerror \<Rightarrow> bool" where
  "end_of_stream e \<longleftrightarrow> e = io_EOF \<or> e = io_ErrUnexpectedEOF"

lemma nat_dec_prefix:
  "prefix q (nat_dec n) \<Longrightarrow> q \<noteq> [] \<Longrightarrow> \<exists>m. q = nat_dec m \<and> m \<le> n \<and> (0 < n \<longrightarrow> 0 < m)"
proof (induction n rule: nat_dec.induct)
  case (1 n)
  show ?case
  proof (cases "n < 10 \<or> q = nat_dec n")
    case True
    with 1(2,3) have "q = nat_dec n"
      by (auto simp: nat_dec.simps [of n] prefix_Cons split: if_splits)
    then show ?thesis by blast
  next
    case False
    with 1(2) have "prefix q (nat_dec (n div 10))"
      by (auto simp: nat_dec.simps [of n])
    with 1(1) False 1(3) obtain m where "q = nat_dec m" "m \<le> n div 10" "0 < n div 10 \<longrightarrow> 0 < m" by auto
    with False show ?thesis by (intro exI [of _ m]) auto
  qed
qed

lemma Fscanf_d_digits:
  assumes "int m \<le> max_int" and "match_newline t = (None, [])" and "\<not> is_digit (hd (t @ [CHR 0x0D]))"
  shows "Fscanf_d (nat_dec m @ t) = (Inr (int m), [])"
proof -
  obtain c cs where n: "nat_dec m = c # cs" and c: "is_digit c" by (rule nat_dec_Cons)
  have "SkipSpace (nat_dec m @ t) = (None, nat_dec m @ t)"
    unfolding n append_Cons using is_digit_ascii [OF c] by (intro SkipSpace_stop) simp_all
  moreover have "accept_sign (nat_dec m @ t) = ([], nat_dec m @ t)"
    using is_digit_not_sign [OF c] by (simp add: n accept_sign_def)
  moreover have "takeWhile is_digit (nat_dec m @ t) = nat_dec m" "dropWhile is_digit (nat_dec m @ t) = t"
    using nat_dec_digits [of _ m] assms(3)
    by (cases t; simp add: takeWhile_append2 dropWhile_append2)+
  moreover have "Atoi (nat_dec m) = (int m, None)"
    using Atoi_Itoa [of "int m"] assms(1) by (simp add: Itoa_def in_int_def min_int_def)
  ultimately show ?thesis using assms(2) by (simp add: Fscanf_d_def)
qed

lemma Fscanf_d_cut:
  assumes "strict_prefix q (nat_dec n @ CRLF)" and "int n \<le> max_int"
  shows "Fscanf_d q = (Inl io_EOF, []) \<or>
    (\<exists>m. Fscanf_d q = (Inr (int m), []) \<and> m \<le> n \<and> (0 < n \<longrightarrow> 0 < m))"
proof (cases "q = []")
  case True
  then show ?thesis by (simp add: Fscanf_d_def SkipSpace.simps [of "[]"])
next
  case False
  have nl: "match_newline [] = (None, [])" "match_newline [CHR 0x0D] = (None, [])"
    by (subst match_newline.simps, simp add: read_rune_ascii is_space_def)+
  have "q = nat_dec n @ [CHR 0x0D] \<or> prefix q (nat_dec n)"
    using assms(1) by (auto simp: strict_prefix_def prefix_append prefix_Cons)
  then show ?thesis
  proof
    assume "q = nat_dec n @ [CHR 0x0D]"
    with Fscanf_d_digits [OF assms(2) nl(2)] show ?thesis by (auto simp: is_digit_def)
  next
    assume "prefix q (nat_dec n)"
    from nat_dec_prefix [OF this False] obtain m where m: "q = nat_dec m" "m \<le> n" "0 < n \<longrightarrow> 0 < m" by blast
    with assms(2) Fscanf_d_digits [of m "[]"] nl(1) show ?thesis by (auto simp: is_digit_def)
  qed
qed

lemma strict_prefix_append_iff:
  "strict_prefix q (xs @ ys) \<longleftrightarrow> strict_prefix q xs \<or> (\<exists>q'. q = xs @ q' \<and> strict_prefix q' ys)"
  by (auto simp: strict_prefix_def prefix_append)

lemma Itoa_nat: "Itoa (int n) = nat_dec n"
  by (simp add: Itoa_def)

lemma parse_bulk_cut:
  assumes "strict_prefix q (fst (Encode (bulk b)))" and "length b < 281474976710655"
  shows "\<exists>e. Parse q = Ret (Inl e, []) \<and> end_of_stream e"
proof (cases q)
  case Nil
  then show ?thesis by (simp add: end_of_stream_def)
next
  case (Cons a q1)
  let ?n = "length b"
  from assms(1) Cons have a: "a = CHR ''$''"
    and q1: "strict_prefix q1 ((nat_dec ?n @ CRLF) @ b @ CRLF)"
    by (simp_all add: encodeBulkString_def Itoa_nat)
  have big: "int ?n \<le> max_int" using assms(2) by (simp add: max_int_def)
  from q1 consider (header) "strict_prefix q1 (nat_dec ?n @ CRLF)"
    | (body) q2 where "q1 = nat_dec ?n @ CRLF @ q2" "strict_prefix q2 (b @ CRLF)"
    unfolding strict_prefix_append_iff [of q1 "nat_dec ?n @ CRLF"] by auto
  then show ?thesis
  proof cases
    case header
    from Fscanf_d_cut [OF header big] consider "Fscanf_d q1 = (Inl io_EOF, [])"
      | m where "Fscanf_d q1 = (Inr (int m), [])" "m \<le> ?n" by blast
    then show ?thesis
    proof cases
      case 1
      with Cons a show ?thesis by (simp add: parseBulkString_def end_of_stream_def)
    next
      case 2
      then have "wrap64 (int m + 2) = int m + 2"
        using assms(2) by (intro wrap64_id) (simp add: int_bounds)
      with 2 Cons a assms(2) show ?thesis
        by (simp add: parseBulkString_def make_panics_def ReadFull_def end_of_stream_def nat_add_distrib)
    qed
  next
    case body
    have w: "wrap64 (int ?n + 2) = int ?n + 2"
      using assms(2) by (intro wrap64_id) (simp add: int_bounds)
    have len: "length q2 < ?n + 2" using prefix_length_less [OF body(2)] by simp
    have "Fscanf_d q1 = (Inr (int ?n), q2)"
      using Fscanf_d_Itoa [of "int ?n" q2] big body(1) by (simp add: Itoa_nat in_int_def min_int_def)
    with Cons a w len assms(2) show ?thesis
      by (auto simp: parseBulkString_def make_panics_def ReadFull_def end_of_stream_def nat_add_distrib)
  qed
qed

lemma parse_elements_cut:
  assumes "strict_prefix q (fst (encode_elements (map bulk c)))"
    and "list_all (\<lambda>p. length p < 281474976710655) c"
  shows "\<exists>e. ParseElements (length c) q = Ret (Inl e, []) \<and> end_of_stream e"
  using assms
proof (induction c arbitrary: q)
  case (Cons b c)
  obtain bs where bs: "Encode (bulk b) = (bs, None)" by (simp add: encodeBulkString_def)
  from Cons.prems bs consider (here) "strict_prefix q bs"
    | (later) q' where "q = bs @ q'" "strict_prefix q' (fst (encode_elements (map bulk c)))"
    by (auto simp: split_def Let_def strict_prefix_append_iff)
  then show ?case
  proof cases
    case here
    with parse_bulk_cut [of q b] bs Cons.prems obtain e where "Parse q = Ret (Inl e, [])" "end_of_stream e"
      by auto
    with ParseElements_Suc [of "length c" q] show ?thesis by simp
  next
    case later
    with resp2.parse_encode [of "bulk b" q'] bs Cons.prems have "Parse q = Ret (Inr (bulk b), q')" by simp
    with Cons.IH [OF later(2)] Cons.prems ParseElements_Suc [of "length c" q] show ?thesis by auto
  qed
qed simp

lemma parse_command_cut:
  assumes "strict_prefix q (fst (Encode (toRESPArray c)))" and "loggable c"
  shows "\<exists>e. Parse q = Ret (Inl e, []) \<and> end_of_stream e"
proof (cases q)
  case Nil
  then show ?thesis by (simp add: end_of_stream_def)
next
  case (Cons a q1)
  let ?n = "length c"
  have n: "0 < ?n" "int ?n \<le> max_int" using assms(2) by (simp_all add: loggable_def max_int_def)
  from assms(1) Cons have a: "a = CHR ''*''"
    and q1: "strict_prefix q1 ((nat_dec ?n @ CRLF) @ fst (encode_elements (map bulk c)))"
    by (simp_all add: toRESPArray_def split_def Let_def array_header_def Itoa_nat)
  from q1 consider (header) "strict_prefix q1 (nat_dec ?n @ CRLF)"
    | (body) q2 where "q1 = nat_dec ?n @ CRLF @ q2" "strict_prefix q2 (fst (encode_elements (map bulk c)))"
    unfolding strict_prefix_append_iff [of q1 "nat_dec ?n @ CRLF"] by auto
  then show ?thesis
  proof cases
    case header
    from Fscanf_d_cut [OF header n(2)] consider "Fscanf_d q1 = (Inl io_EOF, [])"
      | m where "Fscanf_d q1 = (Inr (int (Suc m)), [])" "Suc m \<le> ?n"
      using n(1) by (metis Suc_pred)
    then show ?thesis
    proof cases
      case 1
      with Parse_array [of q1] Cons a show ?thesis by (simp add: end_of_stream_def)
    next
      case 2
      have "\<not> make_panics (int (Suc m)) 16"
        using 2(2) assms(2) by (simp add: make_panics_def loggable_def)
      with 2(1) Parse_array [of q1] Cons a ParseElements_Suc [of m "[]"] show ?thesis
        by (simp add: end_of_stream_def nat_add_distrib)
    qed
  next
    case body
    then have "Fscanf_d q1 = (Inr (int ?n), q2)"
      using Fscanf_d_Itoa [of "int ?n" q2] n(2) by (simp add: Itoa_nat in_int_def min_int_def)
    moreover have "\<not> make_panics (int ?n) 16" using assms(2) by (simp add: make_panics_def loggable_def)
    ultimately show ?thesis
      using parse_elements_cut [OF body(2)] assms(2) Parse_array [of q1] Cons a
      by (auto simp: loggable_def)
  qed
qed

lemma rebuild_torn:
  assumes "strict_prefix q (fst (Encode (toRESPArray c)))" and "loggable c"
  shows "\<exists>e. rebuild_loop clk n q s = Ret (e, s) \<and> (e = None \<or> e = Some io_ErrUnexpectedEOF)"
  using parse_command_cut [OF assms]
  by (subst rebuild_loop.simps) (auto simp: end_of_stream_def)

text \<open>A whole file that ends inside a command: the complete commands in front are replayed.\<close>

lemma rebuild_cut:
  assumes "list_all loggable cmds" and "loggable c"
    and "strict_prefix q (fst (Encode (toRESPArray c)))"
    and "replay (stamped clk 0 cmds) t = Ret t'"
  shows "\<exists>e. RebuildStoreFromAOF clk t (Inr (log_text cmds @ q)) = Ret (e, t') \<and>
    (e = None \<or> e = Some io_ErrUnexpectedEOF)"
proof (cases "cmds = []")
  case True
  then have t': "t' = t" using assms(4) by simp
  show ?thesis
  proof (cases q)
    case Nil
    with True t' show ?thesis by (simp add: RebuildStoreFromAOF_def)
  next
    case (Cons a q1)
    with assms(3) encode_command_star [of c] have "a = CHR ''*''" by auto
    with Cons True t' rebuild_torn [OF assms(3,2), of clk 0 t] show ?thesis
      by (simp add: RebuildStoreFromAOF_def)
  qed
next
  case False
  with rebuild_file [OF assms(1) False, of clk t q] assms(4)
    rebuild_torn [OF assms(3,2), of clk "length cmds" t'] show ?thesis
    by simp
qed

end
