(* ===== verification/StoreScan.thy ===== *)
theory StoreScan
  imports StoreSpec
begin

text \<open>
  Iterating over the keys of a database with \<open>SCAN\<close>: a client calls it with the cursor it got
  until the cursor is 0 again. While the map is ranged over in the same order each time, the iteration
  ends and returns every live key exactly once.
\<close>

text \<open>The loop of a client, on fuel; one call per key and one more are always enough.\<close>

fun scan_all :: "regexp_lib \<Rightarrow> Store \<Rightarrow> time \<Rightarrow> int \<Rightarrow> string \<Rightarrow> int \<Rightarrow> string list \<Rightarrow> nat \<Rightarrow> int \<Rightarrow>
    string list option" where
  "scan_all re s now i pattern count order 0 cursor = None"
| "scan_all re s now i pattern count order (Suc n) cursor =
     (case Store_Scan re s now i cursor pattern count order of
        Ret (Inr (next, ks)) \<Rightarrow> if next = 0 then Some ks
          else map_option ((@) ks) (scan_all re s now i pattern count order n next)
      | _ \<Rightarrow> None)"

lemma Scan_window:
  assumes "valid_index s i" and "0 \<le> c" and "c < int (length ks)"
    and ks: "ks = live_keys now (data s ! nat i) order"
    and "0 < count" and "in_int (int (length ks) + count)"
  shows "Store_Scan re s now i c ''*'' count order =
    (let stop = min (int (length ks)) (c + count) in
     Ret (Inr (if int (length ks) \<le> stop then 0 else stop, drop (nat c) (take (nat stop) ks))))"
proof -
  have "wrap64 (c + count) = c + count"
    using assms by (intro wrap64_id) (auto simp: in_int_def min_int_def)
  with assms show ?thesis
    by (auto simp: Store_Scan_def db_at_def Let_def scan_matches_def go_slice_def min_def)
qed

lemma scan_all_from:
  assumes "valid_index s i" and "0 < count"
    and ks: "ks = live_keys now (data s ! nat i) order"
    and fits: "in_int (int (length ks) + count)"
    and "c \<le> length ks" and "length ks - c < n" and "c < length ks \<or> c = 0"
  shows "scan_all re s now i ''*'' count order n (int c) = Some (drop c ks)"
  using assms(5-)
proof (induction n arbitrary: c)
  case (Suc n)
  show ?case
  proof (cases "c < length ks")
    case False
    with Suc.prems ks assms(1) have "ks = []" "c = 0" by auto
    then show ?thesis using assms(1) ks [symmetric] by (simp add: Store_Scan_def db_at_def)
  next
    case True
    define stop where "stop = min (length ks) (c + nat count)"
    have st: "min (int (length ks)) (int c + count) = int stop" using assms(2) by (auto simp: stop_def)
    note w = Scan_window [OF assms(1) _ _ ks assms(2) fits, of "int c" re, unfolded Let_def st]
    show ?thesis
    proof (cases "length ks \<le> stop")
      case True
      then show ?thesis using w \<open>c < length ks\<close> by simp
    next
      case False
      have "c < stop" using True assms(2) by (auto simp: stop_def)
      moreover have "scan_all re s now i ''*'' count order n (int stop) = Some (drop stop ks)"
        using Suc.prems False \<open>c < stop\<close> by (intro Suc.IH) auto
      moreover have "drop c (take stop ks) @ drop stop ks = drop c ks"
        using \<open>c < stop\<close> by (metis append_take_drop_id drop_append diff_is_0_eq' drop_0 length_take less_imp_le min.absorb2 False nat_le_linear)
      ultimately show ?thesis using w True False by simp
    qed
  qed
qed simp

end
