(* ===== verification/Evaluate.thy ===== *)
theory Evaluate
  imports AofFile StoreScan
begin

text \<open>
  Rewrite rules that run the models on a concrete input by simplification: decimal texts, a
  fresh store as an explicit list of sixteen databases, and the definitions of the store, of the log
  and of their specification as one bundle.
\<close>

lemma Itoa_texts:
  "Itoa 0 = ''0''" "Itoa 1 = ''1''" "Itoa 2 = ''2''" "Itoa 3 = ''3''" "Itoa 4 = ''4''"
  "Itoa 5 = ''5''" "Itoa 6 = ''6''" "Itoa 7 = ''7''" "Itoa 8 = ''8''" "Itoa 9 = ''9''"
  "Itoa 10 = ''10''" "Itoa 15 = ''15''" "Itoa 16 = ''16''" "Itoa 41 = ''41''" "Itoa 42 = ''42''"
  "Itoa 60 = ''60''" "Itoa 100 = ''100''" "Itoa (-1) = ''-1''" "Itoa (-2) = ''-2''"
  "Itoa 9223372036854775807 = ''9223372036854775807''"
  by (simp_all add: Itoa_def nat_dec.simps)

lemma Itoa_Suc_0 [simp]: "Itoa (int (Suc 0)) = ''1''"
  by (simp add: Itoa_texts)

lemma Atoi_texts:
  "Atoi ''0'' = (0, None)" "Atoi ''1'' = (1, None)" "Atoi ''2'' = (2, None)" "Atoi ''3'' = (3, None)"
  "Atoi ''5'' = (5, None)" "Atoi ''10'' = (10, None)" "Atoi ''15'' = (15, None)"
  "Atoi ''16'' = (16, None)" "Atoi ''41'' = (41, None)" "Atoi ''60'' = (60, None)"
  "Atoi ''100'' = (100, None)" "Atoi ''-1'' = (-1, None)" "Atoi ''-2'' = (-2, None)"
  "Atoi ''9223372036854775807'' = (9223372036854775807, None)"
  using Atoi_Itoa [of 0] Atoi_Itoa [of 1] Atoi_Itoa [of 2] Atoi_Itoa [of 3] Atoi_Itoa [of 5]
    Atoi_Itoa [of 10] Atoi_Itoa [of 15] Atoi_Itoa [of 16] Atoi_Itoa [of 41] Atoi_Itoa [of 60]
    Atoi_Itoa [of 100] Atoi_Itoa [of "-1"] Atoi_Itoa [of "-2"] Atoi_Itoa [of 9223372036854775807]
  by (simp_all add: Itoa_texts int_bounds)

lemma data_NewStore: "data (NewStore ch) = [fmempty, fmempty, fmempty, fmempty, fmempty, fmempty,
    fmempty, fmempty, fmempty, fmempty, fmempty, fmempty, fmempty, fmempty, fmempty, fmempty]"
  by (simp add: NewStore_def numeral_eq_Suc)

lemma aofChan_NewStore: "aofChan (NewStore ch) = ch"
  by (simp add: NewStore_def)

lemma database_update_3: "[a, b, c, d, e, f, g, h, i, j, k, l, m, n, p, q][3 := x] =
    [a, b, c, x, e, f, g, h, i, j, k, l, m, n, p, q]"
  by (simp add: numeral_eq_Suc)

lemmas evaluate_state = data_NewStore aofChan_NewStore database_update_3 valid_index_def put_db_def
  appendAOF_def make_chan_def chan_send_def chan_recv_def chan_room_def take_pending_def
  NewAOFCommand_def dbIndexArg_def drop_result_def

lemmas evaluate_values = New_defs AsString_def AsList_def AsHash_def IsExpired_def present_def
  value_of_raw_def pop_reply_def go_slice_def Let_def wrap64_def Itoa_texts Atoi_texts
  parseSetOptions_def no_options_def Time_After_def

lemmas evaluate_spec = op_spec_def set_spec_def set_log_spec_def set_value_spec_def add_spec_def
  push_spec_def list_under_def put_list_def pop_spec_def trim_spec_def rename_spec_def hset_spec_def
  hdel_spec_def

lemmas evaluate_good = ready_def good_def wf_store_def aof_open_def aof_room_def wf_db_def wf_value_def
  fmpred_iff

lemma ready_NewStore: "0 \<le> i \<Longrightarrow> i < 16 \<Longrightarrow> ready i (NewStore (Some (make_chan 100)))"
  by (simp add: ready_def good_def wf_store_valid aof_open_def aof_room_def make_chan_def
      chan_room_def aofChan_NewStore)

lemma good_NewStore: "0 \<le> i \<Longrightarrow> i < 16 \<Longrightarrow> good i (NewStore (Some (make_chan 100)))"
  using ready_NewStore [of i] by (simp add: ready_def)

end
