(* ===== verification/Broker.thy ===== *)
theory Broker
  imports Resp2Codec GoChannel
begin

text \<open>
  The publish/subscribe broker (\<open>internal/core/server/pubsub.go\<close>). A connection is known by a
  number; a set of connections is a finite set (the Go map only ever holds \<open>true\<close>). Each
  subscribed connection has one delivery channel. The mutex makes every method one atomic step.
  The glob matcher \<open>path.Match\<close> and the orders in which maps are ranged over are arguments.
\<close>

section \<open>State\<close>

type_synonym conn = nat
type_synonym subscriptions = "(string, conn fset) fmap"

record PubSubBroker =
  channels :: subscriptions
  patterns :: subscriptions
  connChans :: "(conn, string chan) fmap"

definition pubsubDeliveryBufSize :: nat where
  "pubsubDeliveryBufSize = 64"

definition newPubSubBroker :: PubSubBroker where
  "newPubSubBroker = \<lparr>channels = fmempty, patterns = fmempty, connChans = fmempty\<rparr>"

definition getOrCreateChan :: "PubSubBroker \<Rightarrow> conn \<Rightarrow> PubSubBroker" where
  "getOrCreateChan b conn = (case fmlookup (connChans b) conn of
     None \<Rightarrow> b\<lparr>connChans := fmupd conn (make_chan pubsubDeliveryBufSize) (connChans b)\<rparr>
   | Some _ \<Rightarrow> b)"

definition GetConnChan :: "PubSubBroker \<Rightarrow> conn \<Rightarrow> string chan option" where
  "GetConnChan b conn = fmlookup (connChans b) conn"

definition subscribers :: "subscriptions \<Rightarrow> string \<Rightarrow> conn fset" where
  "subscribers m name = (case fmlookup m name of None \<Rightarrow> {||} | Some subs \<Rightarrow> subs)"

definition count_in :: "subscriptions \<Rightarrow> conn \<Rightarrow> int" where
  "count_in m conn = int (length (filter (\<lambda>name. conn |\<in>| subscribers m name) (sorted_keys m)))"

definition countSubscriptions :: "PubSubBroker \<Rightarrow> conn \<Rightarrow> int" where
  "countSubscriptions b conn = count_in (channels b) conn + count_in (patterns b) conn"

definition closeAndRemoveConnChan :: "PubSubBroker \<Rightarrow> conn \<Rightarrow> PubSubBroker outcome" where
  "closeAndRemoveConnChan b conn = (case fmlookup (connChans b) conn of
     None \<Rightarrow> Ret b
   | Some ch \<Rightarrow> andThen (chan_close ch) (\<lambda>_. Ret (b\<lparr>connChans := fmdrop conn (connChans b)\<rparr>)))"

section \<open>Subscriptions\<close>

text \<open>Exact channels and patterns are handled alike, on their own map.\<close>

definition add_sub :: "subscriptions \<Rightarrow> string \<Rightarrow> conn \<Rightarrow> subscriptions" where
  "add_sub m name conn = (let m = (if fmlookup m name = None then fmupd name {||} m else m)
     in fmupd name (finsert conn (subscribers m name)) m)"

definition remove_sub :: "subscriptions \<Rightarrow> string \<Rightarrow> conn \<Rightarrow> subscriptions" where
  "remove_sub m name conn = (case fmlookup m name of
     None \<Rightarrow> m
   | Some subs \<Rightarrow>
       let subs = subs |-| {|conn|} in
       if subs = {||} then fmdrop name m else fmupd name subs m)"

definition Subscribe :: "PubSubBroker \<Rightarrow> conn \<Rightarrow> string \<Rightarrow> int \<times> PubSubBroker" where
  "Subscribe b conn channel =
     (let b = getOrCreateChan b conn;
          b = b\<lparr>channels := add_sub (channels b) channel conn\<rparr>
      in (countSubscriptions b conn, b))"

definition PSubscribe :: "PubSubBroker \<Rightarrow> conn \<Rightarrow> string \<Rightarrow> int \<times> PubSubBroker" where
  "PSubscribe b conn pattern =
     (let b = getOrCreateChan b conn;
          b = b\<lparr>patterns := add_sub (patterns b) pattern conn\<rparr>
      in (countSubscriptions b conn, b))"

definition Unsubscribe :: "PubSubBroker \<Rightarrow> conn \<Rightarrow> string \<Rightarrow> (int \<times> PubSubBroker) outcome" where
  "Unsubscribe b conn channel =
     (let b = b\<lparr>channels := remove_sub (channels b) channel conn\<rparr>;
          remaining = countSubscriptions b conn
      in if remaining = 0 then andThen (closeAndRemoveConnChan b conn) (\<lambda>b. Ret (remaining, b))
         else Ret (remaining, b))"

definition PUnsubscribe :: "PubSubBroker \<Rightarrow> conn \<Rightarrow> string \<Rightarrow> (int \<times> PubSubBroker) outcome" where
  "PUnsubscribe b conn pattern =
     (let b = b\<lparr>patterns := remove_sub (patterns b) pattern conn\<rparr>;
          remaining = countSubscriptions b conn
      in if remaining = 0 then andThen (closeAndRemoveConnChan b conn) (\<lambda>b. Ret (remaining, b))
         else Ret (remaining, b))"

definition remove_conn :: "subscriptions \<Rightarrow> conn \<Rightarrow> subscriptions" where
  "remove_conn m conn = (let m = fmmap (\<lambda>subs. subs |-| {|conn|}) m
     in fmfilter (\<lambda>name. subscribers m name \<noteq> {||}) m)"

definition UnsubscribeAll :: "PubSubBroker \<Rightarrow> conn \<Rightarrow> PubSubBroker outcome" where
  "UnsubscribeAll b conn = closeAndRemoveConnChan
     (b\<lparr>channels := remove_conn (channels b) conn, patterns := remove_conn (patterns b) conn\<rparr>) conn"

section \<open>Encoding a message\<close>

function itoa_digits :: "int \<Rightarrow> string \<Rightarrow> string" where
  "itoa_digits n digits = (if 0 < n then itoa_digits (n div 10) (char_of (nat (48 + n mod 10)) # digits)
     else digits)"
  by pat_completeness auto
termination
  by (relation "measure (\<lambda>(n, digits). nat n)") auto

declare itoa_digits.simps [simp del]

definition broker_itoa :: "int \<Rightarrow> string" where
  "broker_itoa n = (if n = 0 then ''0''
     else if n < 0 then CHR ''-'' # itoa_digits (wrap64 (- n)) [] else itoa_digits n [])"

fun encode_parts :: "string list \<Rightarrow> string" where
  "encode_parts [] = []"
| "encode_parts (p # ps) = ''$'' @ broker_itoa (int (length p)) @ CRLF @ p @ CRLF @ encode_parts ps"

definition encodeArray :: "string list \<Rightarrow> string" where
  "encodeArray parts = ''*'' @ broker_itoa (int (length parts)) @ CRLF @ encode_parts parts"

definition encodeMessage :: "string \<Rightarrow> string \<Rightarrow> string" where
  "encodeMessage channel payload = encodeArray [''message'', channel, payload]"

definition encodePMessage :: "string \<Rightarrow> string \<Rightarrow> string \<Rightarrow> string" where
  "encodePMessage pattern channel payload = encodeArray [''pmessage'', pattern, channel, payload]"

section \<open>Publishing\<close>

definition deliver :: "PubSubBroker \<Rightarrow> conn \<Rightarrow> string \<Rightarrow> (bool \<times> PubSubBroker) outcome" where
  "deliver b conn payload = (case fmlookup (connChans b) conn of
     None \<Rightarrow> Ret (False, b)
   | Some ch \<Rightarrow> andThen (chan_try_send ch payload) (\<lambda>(ch', sent).
       Ret (sent, b\<lparr>connChans := fmupd conn ch' (connChans b)\<rparr>)))"

text \<open>The loop over the exact subscribers.\<close>

fun deliver_exact :: "string \<Rightarrow> conn list \<Rightarrow> int \<Rightarrow> PubSubBroker \<Rightarrow> (int \<times> PubSubBroker) outcome" where
  "deliver_exact payload [] received b = Ret (received, b)"
| "deliver_exact payload (conn # conns) received b = andThen (deliver b conn payload) (\<lambda>(sent, b).
     deliver_exact payload conns (if sent then received + 1 else received) b)"

text \<open>The loop over the subscribers of one pattern.\<close>

fun deliver_pattern :: "string \<Rightarrow> conn fset \<Rightarrow> conn list \<Rightarrow> int \<Rightarrow> PubSubBroker \<Rightarrow>
    (int \<times> PubSubBroker) outcome" where
  "deliver_pattern payload exactSubs [] received b = Ret (received, b)"
| "deliver_pattern payload exactSubs (conn # conns) received b =
     andThen (deliver b conn payload) (\<lambda>(sent, b).
       if conn |\<in>| exactSubs then deliver_pattern payload exactSubs conns received b
       else deliver_pattern payload exactSubs conns (if sent then received + 1 else received) b)"

type_synonym glob_lib = "string \<Rightarrow> string \<Rightarrow> goerror + bool"

text \<open>The loop over the patterns; the second component of an entry is the order of its subscribers.\<close>

fun deliver_patterns :: "glob_lib \<Rightarrow> string \<Rightarrow> string \<Rightarrow> conn fset \<Rightarrow> (string \<times> conn list) list \<Rightarrow> int \<Rightarrow>
    PubSubBroker \<Rightarrow> (int \<times> PubSubBroker) outcome" where
  "deliver_patterns match channel msg exactSubs [] received b = Ret (received, b)"
| "deliver_patterns match channel msg exactSubs ((pattern, conns) # rest) received b =
     (if match pattern channel \<noteq> Inr True
      then deliver_patterns match channel msg exactSubs rest received b
      else andThen (deliver_pattern (encodePMessage pattern channel msg) exactSubs conns received b)
        (\<lambda>(received, b). deliver_patterns match channel msg exactSubs rest received b))"

definition Publish :: "glob_lib \<Rightarrow> conn list \<Rightarrow> (string \<times> conn list) list \<Rightarrow> PubSubBroker \<Rightarrow> string \<Rightarrow>
    string \<Rightarrow> (int \<times> PubSubBroker) outcome" where
  "Publish match order porder b channel msg =
     andThen (if fmlookup (channels b) channel = None then Ret (0, b)
              else deliver_exact (encodeMessage channel msg) order 0 b)
       (\<lambda>(received, b). deliver_patterns match channel msg (subscribers (channels b) channel) porder received b)"

end
