(* ===== verification/BrokerSpec.thy ===== *)
theory BrokerSpec
  imports Broker
begin

text \<open>
  What the broker promises. Its state is abstracted to the set of topics each connection is
  subscribed to and to the queue of messages waiting for each connection. The contract of
  subscribing and unsubscribing is a locale, interpreted for exact channels and for
  patterns; publishing is specified by the messages each connection is offered.
\<close>

section \<open>The contract of subscribing\<close>

text \<open>Subscribing to several names, one after the other, with the count each answer carries.\<close>

fun subscribe_each :: "('b \<Rightarrow> 'c \<Rightarrow> string \<Rightarrow> int \<times> 'b) \<Rightarrow> 'b \<Rightarrow> 'c \<Rightarrow> string list \<Rightarrow> int list \<times> 'b" where
  "subscribe_each sub b c [] = ([], b)"
| "subscribe_each sub b c (n # ns) = (let (k, b') = sub b c n; (ks, b'') = subscribe_each sub b' c ns
     in (k # ks, b''))"

fun unsubscribe_each :: "('b \<Rightarrow> 'c \<Rightarrow> string \<Rightarrow> (int \<times> 'b) outcome) \<Rightarrow> 'b \<Rightarrow> 'c \<Rightarrow> string list \<Rightarrow>
    (int list \<times> 'b) outcome" where
  "unsubscribe_each unsub b c [] = Ret ([], b)"
| "unsubscribe_each unsub b c (n # ns) = andThen (unsub b c n) (\<lambda>(k, b').
     andThen (unsubscribe_each unsub b' c ns) (\<lambda>(ks, b''). Ret (k # ks, b'')))"

locale topic_service =
  fixes subscribe :: "'b \<Rightarrow> 'c \<Rightarrow> string \<Rightarrow> int \<times> 'b"
    and unsubscribe :: "'b \<Rightarrow> 'c \<Rightarrow> string \<Rightarrow> (int \<times> 'b) outcome"
    and inv :: "'b \<Rightarrow> bool"
    and topics_of :: "'b \<Rightarrow> 'c \<Rightarrow> 't set"
    and topic :: "string \<Rightarrow> 't"
  assumes finite_topics: "inv b \<Longrightarrow> finite (topics_of b c)"
    and subscribe_ok: "inv b \<Longrightarrow> subscribe b c n = (k, b') \<Longrightarrow> inv b' \<and>
      topics_of b' = (topics_of b)(c := insert (topic n) (topics_of b c)) \<and> k = int (card (topics_of b' c))"
    and unsubscribe_ok: "inv b \<Longrightarrow> \<exists>b'. unsubscribe b c n = Ret (int (card (topics_of b' c)), b') \<and> inv b' \<and>
      topics_of b' = (topics_of b)(c := topics_of b c - {topic n})"
begin

lemma subscribe_each_ok:
  "inv b \<Longrightarrow> subscribe_each subscribe b c ns = (ks, b') \<Longrightarrow> inv b' \<and>
    topics_of b' = (topics_of b)(c := topics_of b c \<union> topic ` set ns) \<and>
    length ks = length ns \<and> (\<forall>k \<in> set ks. 1 \<le> k) \<and> (ns \<noteq> [] \<longrightarrow> last ks = int (card (topics_of b' c)))"
proof (induction ns arbitrary: b ks)
  case (Cons n ns)
  obtain k b1 where s: "subscribe b c n = (k, b1)" by (cases "subscribe b c n")
  obtain ks' where r: "subscribe_each subscribe b1 c ns = (ks', b')" and ks: "ks = k # ks'"
    using Cons.prems(2) s by (cases "subscribe_each subscribe b1 c ns") auto
  note s1 = subscribe_ok [OF Cons.prems(1) s]
  then have "inv b1" by simp
  note ih = Cons.IH [OF this r]
  have "finite (topics_of b1 c)" using s1 finite_topics by blast
  with s1 have "1 \<le> k" by (auto simp: card_gt_0_iff Suc_le_eq)
  with s1 ih ks r show ?case by (cases ns) (auto simp: fun_eq_iff insert_commute)
qed simp

lemma unsubscribe_each_ok:
  "inv b \<Longrightarrow> \<exists>ks b'. unsubscribe_each unsubscribe b c ns = Ret (ks, b') \<and> inv b' \<and>
    topics_of b' = (topics_of b)(c := topics_of b c - topic ` set ns) \<and>
    length ks = length ns \<and> (ns \<noteq> [] \<longrightarrow> last ks = int (card (topics_of b' c)))"
proof (induction ns arbitrary: b)
  case (Cons n ns)
  from unsubscribe_ok [OF Cons.prems] obtain b1 where
    u: "unsubscribe b c n = Ret (int (card (topics_of b1 c)), b1)" "inv b1"
      "topics_of b1 = (topics_of b)(c := topics_of b c - {topic n})" by blast
  from Cons.IH [OF u(2)] u obtain ks b' where
    "unsubscribe_each unsubscribe b1 c ns = Ret (ks, b')" "inv b'"
    "topics_of b' = (topics_of b1)(c := topics_of b1 c - topic ` set ns)"
    "length ks = length ns \<and> (ns \<noteq> [] \<longrightarrow> last ks = int (card (topics_of b' c)))" by blast
  with u show ?case by (cases ns) (auto simp: Diff_insert2 [symmetric])
qed simp

end

section \<open>The broker keeps it\<close>

datatype topic = Exact string | Glob string

definition topics :: "PubSubBroker \<Rightarrow> conn \<Rightarrow> topic set" where
  "topics b c = Exact ` {n. c |\<in>| subscribers (channels b) n} \<union> Glob ` {p. c |\<in>| subscribers (patterns b) p}"

definition no_empty :: "subscriptions \<Rightarrow> bool" where
  "no_empty m \<longleftrightarrow> (\<forall>n. fmlookup m n \<noteq> Some {||})"

definition chans_ok :: "PubSubBroker \<Rightarrow> bool" where
  "chans_ok b \<longleftrightarrow> (\<forall>c ch. fmlookup (connChans b) c = Some ch \<longrightarrow>
     \<not> ch_closed ch \<and> ch_cap ch = pubsubDeliveryBufSize \<and> length (ch_buf ch) \<le> pubsubDeliveryBufSize)"

definition broker_ok :: "PubSubBroker \<Rightarrow> bool" where
  "broker_ok b \<longleftrightarrow> no_empty (channels b) \<and> no_empty (patterns b) \<and> chans_ok b \<and>
     (\<forall>c. fmlookup (connChans b) c \<noteq> None \<longleftrightarrow> topics b c \<noteq> {})"

definition queue :: "PubSubBroker \<Rightarrow> conn \<Rightarrow> string list" where
  "queue b c = (case fmlookup (connChans b) c of None \<Rightarrow> [] | Some ch \<Rightarrow> ch_buf ch)"

lemma subscribers_names: "{n. c |\<in>| subscribers m n} = {n \<in> fset (fmdom m). c |\<in>| subscribers m n}"
  by (auto simp: subscribers_def fmlookup_dom_iff split: option.splits)

lemma finite_names [simp]: "finite {n. c |\<in>| subscribers m n}"
  unfolding subscribers_names by simp

lemma count_in_card: "count_in m c = int (card {n. c |\<in>| subscribers m n})"
proof -
  have "set (sorted_keys m) = fset (fmdom m)" and "distinct (sorted_keys m)"
    by (simp_all add: sorted_keys_def sorted_list_of_fset.rep_eq)
  then have "length (filter (\<lambda>n. c |\<in>| subscribers m n) (sorted_keys m)) = card {n. c |\<in>| subscribers m n}"
    by (simp add: distinct_length_filter subscribers_names [of c m] Int_def conj_commute)
  then show ?thesis by (simp add: count_in_def)
qed

lemma finite_topics: "finite (topics b c)"
  by (simp add: topics_def)

lemma countSubscriptions_card: "countSubscriptions b c = int (card (topics b c))"
proof -
  have "card (topics b c) = card (Exact ` {n. c |\<in>| subscribers (channels b) n}) +
      card (Glob ` {p. c |\<in>| subscribers (patterns b) p})"
    unfolding topics_def by (rule card_Un_disjoint) auto
  also have "\<dots> = card {n. c |\<in>| subscribers (channels b) n} + card {p. c |\<in>| subscribers (patterns b) p}"
    by (simp add: card_image inj_on_def)
  finally show ?thesis by (simp add: countSubscriptions_def count_in_card)
qed

lemma countSubscriptions_0: "countSubscriptions b c = 0 \<longleftrightarrow> topics b c = {}"
  by (simp add: countSubscriptions_card finite_topics)

lemma subscribers_add: "subscribers (add_sub m n c) = (subscribers m)(n := finsert c (subscribers m n))"
  by (auto simp: add_sub_def subscribers_def Let_def fun_eq_iff split: option.splits)

lemma subscribers_remove: "subscribers (remove_sub m n c) = (subscribers m)(n := subscribers m n |-| {|c|})"
  by (auto simp: remove_sub_def subscribers_def Let_def fun_eq_iff split: option.splits)

lemma subscribers_remove_conn: "subscribers (remove_conn m c) n = subscribers m n |-| {|c|}"
  by (auto simp: remove_conn_def subscribers_def Let_def split: option.splits)

lemma no_empty_changes:
  "no_empty m \<Longrightarrow> no_empty (add_sub m n c)" "no_empty m \<Longrightarrow> no_empty (remove_sub m n c)"
  "no_empty (remove_conn m c)"
  by (auto simp: no_empty_def add_sub_def remove_sub_def remove_conn_def subscribers_def Let_def
      split: option.splits if_splits)

lemma subs_getOrCreateChan [simp]:
  "channels (getOrCreateChan b c) = channels b" "patterns (getOrCreateChan b c) = patterns b"
  by (simp_all add: getOrCreateChan_def split: option.splits)

lemma chans_getOrCreateChan:
  "chans_ok b \<Longrightarrow> chans_ok (getOrCreateChan b c)"
  "(\<exists>ch. fmlookup (connChans (getOrCreateChan b c)) d = Some ch) \<longleftrightarrow>
     d = c \<or> (\<exists>ch. fmlookup (connChans b) d = Some ch)"
  by (auto simp: getOrCreateChan_def chans_ok_def make_chan_def split: option.splits)

lemma chans_ok_subs [simp]:
  "chans_ok (b\<lparr>channels := m\<rparr>) = chans_ok b" "chans_ok (b\<lparr>patterns := m\<rparr>) = chans_ok b"
  by (simp_all add: chans_ok_def)

lemma topics_add:
  "topics (b\<lparr>channels := add_sub (channels b) n c\<rparr>) = (topics b)(c := insert (Exact n) (topics b c))"
  "topics (b\<lparr>patterns := add_sub (patterns b) n c\<rparr>) = (topics b)(c := insert (Glob n) (topics b c))"
  by (auto simp: topics_def subscribers_add fun_eq_iff)

lemma topics_remove:
  "topics (b\<lparr>channels := remove_sub (channels b) n c\<rparr>) = (topics b)(c := topics b c - {Exact n})"
  "topics (b\<lparr>patterns := remove_sub (patterns b) n c\<rparr>) = (topics b)(c := topics b c - {Glob n})"
  by (auto simp: topics_def subscribers_remove fun_eq_iff)

lemma topics_remove_conn:
  "topics (b\<lparr>channels := remove_conn (channels b) c, patterns := remove_conn (patterns b) c\<rparr>) = (topics b)(c := {})"
  by (auto simp: topics_def subscribers_remove_conn fun_eq_iff)

lemma topics_connChans [simp]: "topics (b\<lparr>connChans := m\<rparr>) = topics b"
  by (simp add: topics_def fun_eq_iff)

lemma topics_getOrCreateChan [simp]: "topics (getOrCreateChan b c) = topics b"
  by (simp add: topics_def fun_eq_iff)

text \<open>Closing the channel of a connection that has one open, and of one that has none.\<close>

lemma close_ok:
  assumes "chans_ok b" and "no_empty (channels b)" and "no_empty (patterns b)" and "topics b c = {}"
    and "\<And>d. d \<noteq> c \<Longrightarrow> fmlookup (connChans b) d \<noteq> None \<longleftrightarrow> topics b d \<noteq> {}"
  shows "\<exists>b'. closeAndRemoveConnChan b c = Ret b' \<and> broker_ok b' \<and> topics b' = topics b"
proof (cases "fmlookup (connChans b) c")
  case None
  have "fmlookup (connChans b) d \<noteq> None \<longleftrightarrow> topics b d \<noteq> {}" for d
    using assms(4,5) None by (cases "d = c") simp_all
  with None assms(1-3) show ?thesis by (simp add: closeAndRemoveConnChan_def broker_ok_def)
next
  case (Some ch)
  let ?b = "b\<lparr>connChans := fmdrop c (connChans b)\<rparr>"
  have "fmlookup (connChans ?b) d \<noteq> None \<longleftrightarrow> topics ?b d \<noteq> {}" for d
    using assms(4,5) by (cases "d = c") simp_all
  moreover have "chans_ok ?b" using assms(1) by (simp add: chans_ok_def)
  ultimately have "broker_ok ?b" using assms(2,3) by (simp add: broker_ok_def)
  with Some assms(1) show ?thesis
    by (auto simp: closeAndRemoveConnChan_def chan_close_def chans_ok_def)
qed

lemma Subscribe_ok:
  assumes "broker_ok b" and "Subscribe b c n = (k, b')"
  shows "broker_ok b' \<and> topics b' = (topics b)(c := insert (Exact n) (topics b c)) \<and> k = int (card (topics b' c))"
proof -
  let ?b = "getOrCreateChan b c"
  have b': "b' = ?b\<lparr>channels := add_sub (channels ?b) n c\<rparr>" and k: "k = countSubscriptions b' c"
    using assms(2) by (auto simp: Subscribe_def Let_def)
  have t: "topics b' = (topics b)(c := insert (Exact n) (topics b c))" unfolding b' topics_add by simp
  moreover have "broker_ok b'"
    using assms(1) t unfolding broker_ok_def not_None_eq
    by (simp add: b' no_empty_changes chans_getOrCreateChan)
  ultimately show ?thesis by (simp add: k countSubscriptions_card)
qed

lemma PSubscribe_ok:
  assumes "broker_ok b" and "PSubscribe b c n = (k, b')"
  shows "broker_ok b' \<and> topics b' = (topics b)(c := insert (Glob n) (topics b c)) \<and> k = int (card (topics b' c))"
proof -
  let ?b = "getOrCreateChan b c"
  have b': "b' = ?b\<lparr>patterns := add_sub (patterns ?b) n c\<rparr>" and k: "k = countSubscriptions b' c"
    using assms(2) by (auto simp: PSubscribe_def Let_def)
  have t: "topics b' = (topics b)(c := insert (Glob n) (topics b c))" unfolding b' topics_add by simp
  moreover have "broker_ok b'"
    using assms(1) t unfolding broker_ok_def not_None_eq
    by (simp add: b' no_empty_changes chans_getOrCreateChan)
  ultimately show ?thesis by (simp add: k countSubscriptions_card)
qed

text \<open>The common end of both ways to unsubscribe: the channel goes with the last subscription.\<close>

lemma unsubscribe_end:
  assumes "broker_ok b" and "no_empty (channels b1)" and "no_empty (patterns b1)"
    and "connChans b1 = connChans b" and t: "topics b1 = (topics b)(c := topics b c - A)"
  shows "\<exists>b'. (if countSubscriptions b1 c = 0
      then andThen (closeAndRemoveConnChan b1 c) (\<lambda>b. Ret (countSubscriptions b1 c, b))
      else Ret (countSubscriptions b1 c, b1)) = Ret (int (card (topics b' c)), b') \<and>
    broker_ok b' \<and> topics b' = (topics b)(c := topics b c - A)"
proof (cases "topics b1 c = {}")
  case True
  have "chans_ok b1" using assms(1,4) by (simp add: broker_ok_def chans_ok_def)
  moreover have "d \<noteq> c \<Longrightarrow> fmlookup (connChans b1) d \<noteq> None \<longleftrightarrow> topics b1 d \<noteq> {}" for d
    using assms(1,4) t by (simp add: broker_ok_def)
  ultimately obtain b' where "closeAndRemoveConnChan b1 c = Ret b'" "broker_ok b'" "topics b' = topics b1"
    using close_ok [of b1 c] True assms(2,3) by blast
  moreover have "countSubscriptions b1 c = 0" using True by (simp add: countSubscriptions_0)
  moreover have e: "int (card (topics b' c)) = 0" using \<open>topics b' = topics b1\<close> True by simp
  ultimately have "(if countSubscriptions b1 c = 0
      then andThen (closeAndRemoveConnChan b1 c) (\<lambda>b. Ret (countSubscriptions b1 c, b))
      else Ret (countSubscriptions b1 c, b1)) = Ret (int (card (topics b' c)), b')"
    unfolding e by simp
  with \<open>broker_ok b'\<close> \<open>topics b' = topics b1\<close> t show ?thesis by auto
next
  case False
  then have "countSubscriptions b1 c \<noteq> 0" by (simp add: countSubscriptions_0)
  moreover have "broker_ok b1"
    using assms False by (auto simp: broker_ok_def chans_ok_def)
  ultimately show ?thesis using t by (auto simp: countSubscriptions_card)
qed

lemma Unsubscribe_ok:
  assumes "broker_ok b"
  shows "\<exists>b'. Unsubscribe b c n = Ret (int (card (topics b' c)), b') \<and> broker_ok b' \<and>
    topics b' = (topics b)(c := topics b c - {Exact n})"
  unfolding Unsubscribe_def Let_def
  by (rule unsubscribe_end [OF assms]) (use assms in \<open>simp_all add: broker_ok_def no_empty_changes topics_remove\<close>)

lemma PUnsubscribe_ok:
  assumes "broker_ok b"
  shows "\<exists>b'. PUnsubscribe b c n = Ret (int (card (topics b' c)), b') \<and> broker_ok b' \<and>
    topics b' = (topics b)(c := topics b c - {Glob n})"
  unfolding PUnsubscribe_def Let_def
  by (rule unsubscribe_end [OF assms]) (use assms in \<open>simp_all add: broker_ok_def no_empty_changes topics_remove\<close>)

lemma UnsubscribeAll_ok:
  assumes "broker_ok b"
  shows "\<exists>b'. UnsubscribeAll b c = Ret b' \<and> broker_ok b' \<and> topics b' = (topics b)(c := {})"
proof -
  let ?b = "b\<lparr>channels := remove_conn (channels b) c, patterns := remove_conn (patterns b) c\<rparr>"
  have t: "topics ?b = (topics b)(c := {})" by (rule topics_remove_conn)
  have "\<exists>b'. closeAndRemoveConnChan ?b c = Ret b' \<and> broker_ok b' \<and> topics b' = topics ?b"
    using assms by (intro close_ok) (auto simp: broker_ok_def chans_ok_def no_empty_changes topics_remove_conn)
  with t show ?thesis by (simp add: UnsubscribeAll_def)
qed

lemma broker_ok_new: "broker_ok newPubSubBroker"
  by (simp add: broker_ok_def newPubSubBroker_def no_empty_def chans_ok_def topics_def subscribers_def)

interpretation exact: topic_service Subscribe Unsubscribe broker_ok topics Exact
  by unfold_locales (rule finite_topics Subscribe_ok Unsubscribe_ok; assumption)+

interpretation glob: topic_service PSubscribe PUnsubscribe broker_ok topics Glob
  by unfold_locales (rule finite_topics PSubscribe_ok PUnsubscribe_ok; assumption)+

end
