(* ===== verification/BrokerPublish.thy ===== *)
theory BrokerPublish
  imports BrokerSpec
begin

text \<open>
  Publishing: the messages are what the RESP2 encoder produces, and a publication offers each
  connection its messages in order, dropping those its queue has no room for. It never waits.
\<close>

section \<open>Messages\<close>

lemma itoa_digits_nat_dec: "0 < n \<Longrightarrow> itoa_digits (int n) ds = nat_dec n @ ds"
proof (induction n arbitrary: ds rule: nat_dec.induct)
  case (1 n)
  have c: "char_of (nat (48 + int n mod 10)) = digit_char (n mod 10)"
    by (simp add: digit_char_def nat_add_distrib nat_mod_distrib)
  have s: "itoa_digits (int n) ds = itoa_digits (int (n div 10)) (digit_char (n mod 10) # ds)"
    using 1(2) c by (subst itoa_digits.simps) (simp add: zdiv_int)
  show ?case
  proof (cases "n < 10")
    case True
    then have "itoa_digits (int (n div 10)) (digit_char (n mod 10) # ds) = digit_char n # ds"
      by (subst itoa_digits.simps) simp
    with s True show ?thesis by (subst nat_dec.simps) simp
  next
    case False
    with 1(1) [OF False] s show ?thesis by (subst nat_dec.simps) simp
  qed
qed

text \<open>
  The private \<open>itoa\<close> is \<open>strconv.Itoa\<close> on every 64-bit integer except the smallest one, whose
  negation is itself and which it prints as a lone minus sign.
\<close>

lemma broker_itoa_Itoa: "in_int n \<Longrightarrow> n \<noteq> min_int \<Longrightarrow> broker_itoa n = Itoa n"
proof -
  assume "in_int n" "n \<noteq> min_int"
  then have w: "wrap64 (- n) = - n" by (intro wrap64_id) (simp add: int_bounds)
  have "0 < m \<Longrightarrow> itoa_digits m [] = nat_dec (nat m)" for m
    using itoa_digits_nat_dec [of "nat m" "[]"] by simp
  with w show ?thesis by (auto simp: broker_itoa_def Itoa_def nat_dec.simps)
qed

lemma broker_itoa_min_int: "broker_itoa min_int = ''-''"
  by (simp add: broker_itoa_def min_int_def wrap64_def itoa_digits.simps)

definition message_ok :: "string list \<Rightarrow> bool" where
  "message_ok parts \<longleftrightarrow> list_all (\<lambda>p. int (length p) \<le> max_int) parts"

lemma encode_parts_bulks:
  "message_ok parts \<Longrightarrow> encode_parts parts = fst (encode_elements (map bulk parts))"
  by (induction parts)
     (auto simp: message_ok_def encodeBulkString_def split_def Let_def broker_itoa_Itoa int_bounds)

lemma encodeArray_Encode:
  assumes "message_ok parts" and "int (length parts) \<le> max_int"
  shows "encodeArray parts = fst (Encode (arr (map bulk parts)))"
  using assms encode_parts_bulks [OF assms(1)]
  by (simp add: encodeArray_def array_header_def split_def Let_def broker_itoa_Itoa int_bounds)

section \<open>Delivering\<close>

definition has_chan :: "PubSubBroker \<Rightarrow> conn \<Rightarrow> bool" where
  "has_chan b c \<longleftrightarrow> fmlookup (connChans b) c \<noteq> None"

definition can_take :: "PubSubBroker \<Rightarrow> conn \<Rightarrow> bool" where
  "can_take b c \<longleftrightarrow> has_chan b c \<and> length (queue b c) < pubsubDeliveryBufSize"

text \<open>What offering a message does to a queue of bounded length.\<close>

definition offer :: "string \<Rightarrow> string list \<Rightarrow> string list" where
  "offer p q = (if length q < pubsubDeliveryBufSize then q @ [p] else q)"

text \<open>The effect of delivering messages, relative to the broker before.\<close>

definition delivered :: "PubSubBroker \<Rightarrow> PubSubBroker \<Rightarrow> (conn \<Rightarrow> string list) \<Rightarrow> bool" where
  "delivered b b' msgs \<longleftrightarrow> channels b' = channels b \<and> patterns b' = patterns b \<and> chans_ok b' \<and>
     (\<forall>c. has_chan b' c = has_chan b c) \<and>
     (\<forall>c. queue b' c = (if has_chan b c then fold offer (msgs c) (queue b c) else []))"

lemma delivered_refl: "chans_ok b \<Longrightarrow> delivered b b (\<lambda>_. [])"
  by (auto simp: delivered_def has_chan_def queue_def)

lemma delivered_trans:
  "delivered b b1 f \<Longrightarrow> delivered b1 b2 g \<Longrightarrow> delivered b b2 (\<lambda>c. f c @ g c)"
  by (simp add: delivered_def)

lemma delivered_cong: "delivered b b' f \<Longrightarrow> f = g \<Longrightarrow> delivered b b' g"
  by simp

lemma deliver_ok:
  assumes "chans_ok b"
  shows "\<exists>b'. deliver b c p = Ret (can_take b c, b') \<and> delivered b b' (\<lambda>d. if d = c then [p] else [])"
proof (cases "fmlookup (connChans b) c")
  case None
  then have "\<not> has_chan b c" by (simp add: has_chan_def)
  with assms None show ?thesis
    by (auto simp: deliver_def can_take_def delivered_def has_chan_def queue_def)
next
  case (Some ch)
  with assms have ch: "\<not> ch_closed ch" "ch_cap ch = pubsubDeliveryBufSize"
      "length (ch_buf ch) \<le> pubsubDeliveryBufSize" by (auto simp: chans_ok_def)
  have q: "queue b c = ch_buf ch" "has_chan b c" using Some by (simp_all add: queue_def has_chan_def)
  let ?ch = "if length (ch_buf ch) < pubsubDeliveryBufSize then ch\<lparr>ch_buf := ch_buf ch @ [p]\<rparr> else ch"
  let ?b = "b\<lparr>connChans := fmupd c ?ch (connChans b)\<rparr>"
  have "deliver b c p = Ret (can_take b c, ?b)"
    using Some ch q by (simp add: deliver_def chan_try_send_def can_take_def)
  moreover have "chans_ok ?b" using assms ch by (auto simp: chans_ok_def)
  then have "delivered b ?b (\<lambda>d. if d = c then [p] else [])"
    using q Some by (auto simp: delivered_def has_chan_def queue_def offer_def)
  ultimately show ?thesis by blast
qed

lemma can_take_delivered:
  "delivered b b' f \<Longrightarrow> f c = [] \<Longrightarrow> can_take b' c = can_take b c"
  by (auto simp: delivered_def can_take_def)

lemma deliver_exact_ok:
  assumes "chans_ok b" and "distinct cs"
  shows "\<exists>b'. deliver_exact p cs n b = Ret (n + int (length (filter (can_take b) cs)), b') \<and>
    delivered b b' (\<lambda>c. if c \<in> set cs then [p] else [])"
  using assms
proof (induction cs arbitrary: n b)
  case Nil
  then show ?case using delivered_refl by simp
next
  case (Cons c cs)
  obtain b1 where b1: "deliver b c p = Ret (can_take b c, b1)"
    and d1: "delivered b b1 (\<lambda>d. if d = c then [p] else [])"
    using deliver_ok [OF Cons.prems(1)] by blast
  have ok: "chans_ok b1" using d1 by (simp add: delivered_def)
  have "can_take b1 d = can_take b d" if "d \<in> set cs" for d
    by (rule can_take_delivered [OF d1]) (use that Cons.prems(2) in auto)
  then have same: "filter (can_take b1) cs = filter (can_take b) cs" by (intro filter_cong) auto
  obtain b' where b': "deliver_exact p cs (if can_take b c then n + 1 else n) b1 =
      Ret ((if can_take b c then n + 1 else n) + int (length (filter (can_take b) cs)), b')"
    and d2: "delivered b1 b' (\<lambda>d. if d \<in> set cs then [p] else [])"
    using Cons.IH [OF ok, of "if can_take b c then n + 1 else n"] Cons.prems(2) same by auto
  have "delivered b b' (\<lambda>d. if d \<in> set (c # cs) then [p] else [])"
    by (rule delivered_cong [OF delivered_trans [OF d1 d2]]) (use Cons.prems(2) in auto)
  with b1 b' show ?case by auto
qed

lemma deliver_pattern_ok:
  assumes "chans_ok b" and "distinct cs"
  shows "\<exists>b'. deliver_pattern p ex cs n b =
      Ret (n + int (length (filter (\<lambda>c. c |\<notin>| ex \<and> can_take b c) cs)), b') \<and>
    delivered b b' (\<lambda>c. if c \<in> set cs then [p] else [])"
  using assms
proof (induction cs arbitrary: n b)
  case Nil
  then show ?case using delivered_refl by simp
next
  case (Cons c cs)
  obtain b1 where b1: "deliver b c p = Ret (can_take b c, b1)"
    and d1: "delivered b b1 (\<lambda>d. if d = c then [p] else [])"
    using deliver_ok [OF Cons.prems(1)] by blast
  have ok: "chans_ok b1" using d1 by (simp add: delivered_def)
  have "can_take b1 d = can_take b d" if "d \<in> set cs" for d
    by (rule can_take_delivered [OF d1]) (use that Cons.prems(2) in auto)
  then have same: "filter (\<lambda>c. c |\<notin>| ex \<and> can_take b1 c) cs = filter (\<lambda>c. c |\<notin>| ex \<and> can_take b c) cs"
    by (intro filter_cong) auto
  let ?n = "if c |\<notin>| ex \<and> can_take b c then n + 1 else n"
  obtain b' where b': "deliver_pattern p ex cs ?n b1 =
      Ret (?n + int (length (filter (\<lambda>c. c |\<notin>| ex \<and> can_take b c) cs)), b')"
    and d2: "delivered b1 b' (\<lambda>d. if d \<in> set cs then [p] else [])"
    using Cons.IH [OF ok, of ?n] Cons.prems(2) same by auto
  have "delivered b b' (\<lambda>d. if d \<in> set (c # cs) then [p] else [])"
    by (rule delivered_cong [OF delivered_trans [OF d1 d2]]) (use Cons.prems(2) in auto)
  with b1 b' show ?case by (auto split: if_splits)
qed

text \<open>The messages that the loop over the patterns offers a connection.\<close>

fun pattern_msgs :: "glob_lib \<Rightarrow> string \<Rightarrow> string \<Rightarrow> (string \<times> conn list) list \<Rightarrow> conn \<Rightarrow> string list" where
  "pattern_msgs match ch msg [] c = []"
| "pattern_msgs match ch msg ((p, cs) # rest) c =
     (if match p ch = Inr True \<and> c \<in> set cs then [encodePMessage p ch msg] else []) @
     pattern_msgs match ch msg rest c"

text \<open>How many deliveries the loop counts when no queue runs full.\<close>

fun pattern_count :: "glob_lib \<Rightarrow> string \<Rightarrow> conn fset \<Rightarrow> (string \<times> conn list) list \<Rightarrow> int" where
  "pattern_count match ch ex [] = 0"
| "pattern_count match ch ex ((p, cs) # rest) =
     (if match p ch = Inr True then int (length (filter (\<lambda>c. c |\<notin>| ex) cs)) else 0) +
     pattern_count match ch ex rest"

definition room_for :: "PubSubBroker \<Rightarrow> (string \<times> conn list) list \<Rightarrow> bool" where
  "room_for b ps \<longleftrightarrow> (\<forall>c. \<forall>(p, cs) \<in> set ps. c \<in> set cs \<longrightarrow>
     has_chan b c \<and> length (queue b c) + length ps \<le> pubsubDeliveryBufSize)"

lemma deliver_patterns_ok:
  assumes "chans_ok b" and "\<forall>(p, cs) \<in> set ps. distinct cs"
  shows "\<exists>k b'. deliver_patterns match ch msg ex ps n b = Ret (k, b') \<and>
    delivered b b' (pattern_msgs match ch msg ps) \<and>
    (room_for b ps \<longrightarrow> k = n + pattern_count match ch ex ps)"
  using assms
proof (induction ps arbitrary: n b)
  case Nil
  have "pattern_msgs match ch msg [] = (\<lambda>_. [])" by (simp add: fun_eq_iff)
  with Nil show ?case using delivered_refl by auto
next
  case (Cons pcs ps)
  obtain p cs where pcs: "pcs = (p, cs)" by (cases pcs)
  show ?case
  proof (cases "match p ch = Inr True")
    case False
    have "pattern_msgs match ch msg (pcs # ps) = pattern_msgs match ch msg ps"
      using False by (simp add: pcs fun_eq_iff)
    moreover have "room_for b (pcs # ps) \<Longrightarrow> room_for b ps" by (fastforce simp: room_for_def)
    moreover obtain k b' where "deliver_patterns match ch msg ex ps n b = Ret (k, b')"
      "delivered b b' (pattern_msgs match ch msg ps)"
      "room_for b ps \<longrightarrow> k = n + pattern_count match ch ex ps"
      using Cons.IH [OF Cons.prems(1), of n] Cons.prems(2) by auto
    ultimately show ?thesis using False pcs by auto
  next
    case True
    obtain b1 where b1: "deliver_pattern (encodePMessage p ch msg) ex cs n b =
        Ret (n + int (length (filter (\<lambda>c. c |\<notin>| ex \<and> can_take b c) cs)), b1)"
      and d1: "delivered b b1 (\<lambda>c. if c \<in> set cs then [encodePMessage p ch msg] else [])"
      using deliver_pattern_ok [OF Cons.prems(1), of cs "encodePMessage p ch msg" ex n] Cons.prems(2) pcs by auto
    let ?n = "n + int (length (filter (\<lambda>c. c |\<notin>| ex \<and> can_take b c) cs))"
    have ok: "chans_ok b1" using d1 by (simp add: delivered_def)
    obtain k b' where b': "deliver_patterns match ch msg ex ps ?n b1 = Ret (k, b')"
      and d2: "delivered b1 b' (pattern_msgs match ch msg ps)"
      and k: "room_for b1 ps \<longrightarrow> k = ?n + pattern_count match ch ex ps"
      using Cons.IH [OF ok, of ?n] Cons.prems(2) by (simp add: pcs) blast
    have "delivered b b' (pattern_msgs match ch msg (pcs # ps))"
      by (rule delivered_cong [OF delivered_trans [OF d1 d2]]) (simp add: pcs True fun_eq_iff)
    moreover have "k = n + pattern_count match ch ex (pcs # ps)"
      if room: "room_for b (pcs # ps)"
    proof -
      have "filter (\<lambda>c. c |\<notin>| ex \<and> can_take b c) cs = filter (\<lambda>c. c |\<notin>| ex) cs"
        using room pcs by (intro filter_cong) (auto simp: can_take_def room_for_def)
      moreover have "has_chan b1 c \<and> length (queue b1 c) + length ps \<le> pubsubDeliveryBufSize"
        if "(p', cs') \<in> set ps" "c \<in> set cs'" for p' cs' c
        using room that d1 by (fastforce simp: delivered_def offer_def room_for_def)
      then have "room_for b1 ps" by (auto simp: room_for_def)
      ultimately show ?thesis using k pcs True by simp
    qed
    ultimately show ?thesis using b1 b' True pcs by (auto simp del: pattern_msgs.simps pattern_count.simps)
  qed
qed

section \<open>Publishing\<close>

text \<open>The orders in which the loops visit the subscribers of a channel and the patterns.\<close>

definition publish_orders :: "PubSubBroker \<Rightarrow> string \<Rightarrow> conn list \<Rightarrow> (string \<times> conn list) list \<Rightarrow> bool" where
  "publish_orders b ch order porder \<longleftrightarrow>
     distinct order \<and> fset_of_list order = subscribers (channels b) ch \<and>
     enumerates (map fst porder) (patterns b) \<and>
     (\<forall>(p, cs) \<in> set porder. distinct cs \<and> fset_of_list cs = subscribers (patterns b) p)"

text \<open>The messages a publication is due to a connection: the exact one first.\<close>

definition due :: "glob_lib \<Rightarrow> PubSubBroker \<Rightarrow> string \<Rightarrow> string \<Rightarrow> (string \<times> conn list) list \<Rightarrow> conn \<Rightarrow> string list" where
  "due match b ch msg porder c =
     (if c |\<in>| subscribers (channels b) ch then [encodeMessage ch msg] else []) @
     pattern_msgs match ch msg porder c"

lemma delivered_broker_ok:
  assumes "broker_ok b" and "delivered b b' f"
  shows "broker_ok b' \<and> topics b' = topics b"
proof -
  have "topics b' = topics b" using assms(2) by (simp add: topics_def delivered_def fun_eq_iff)
  with assms show ?thesis by (simp add: broker_ok_def delivered_def has_chan_def)
qed

lemma Publish_ok:
  assumes "broker_ok b" and "publish_orders b ch order porder"
  shows "\<exists>k b'. Publish match order porder b ch msg = Ret (k, b') \<and> broker_ok b' \<and> topics b' = topics b \<and>
    (\<forall>c. queue b' c = (if topics b c = {} then [] else fold offer (due match b ch msg porder c) (queue b c))) \<and>
    ((\<forall>c. length (queue b c) + length porder < pubsubDeliveryBufSize) \<longrightarrow>
      k = int (length order) + pattern_count match ch (subscribers (channels b) ch) porder)"
proof -
  let ?ex = "subscribers (channels b) ch"
  have chans: "chans_ok b" and topic: "\<And>c. has_chan b c \<longleftrightarrow> topics b c \<noteq> {}"
    using assms(1) by (simp_all add: broker_ok_def has_chan_def)
  have ord: "distinct order" "set order = fset ?ex"
    and pord: "\<forall>(p, cs) \<in> set porder. distinct cs"
      "\<And>p cs. (p, cs) \<in> set porder \<Longrightarrow> set cs = fset (subscribers (patterns b) p)"
    using assms(2) by (auto simp: publish_orders_def fset_of_list.rep_eq [symmetric])
  obtain b1 where b1: "(if fmlookup (channels b) ch = None then Ret (0, b)
      else deliver_exact (encodeMessage ch msg) order 0 b) =
        Ret (int (length (filter (can_take b) order)), b1)"
    and d1: "delivered b b1 (\<lambda>c. if c \<in> set order then [encodeMessage ch msg] else [])"
  proof (cases "fmlookup (channels b) ch")
    case None
    then have "order = []" using ord by (simp add: subscribers_def)
    with None that delivered_refl [OF chans] show ?thesis by simp
  next
    case (Some x)
    with that deliver_exact_ok [OF chans ord(1), of "encodeMessage ch msg" 0] show ?thesis by auto
  qed
  let ?n = "int (length (filter (can_take b) order))"
  have "chans_ok b1" and same: "channels b1 = channels b" using d1 by (simp_all add: delivered_def)
  from deliver_patterns_ok [OF this(1) pord(1), of match ch msg ?ex ?n] obtain k b' where
    b': "deliver_patterns match ch msg ?ex porder ?n b1 = Ret (k, b')"
    and d2: "delivered b1 b' (pattern_msgs match ch msg porder)"
    and k: "room_for b1 porder \<longrightarrow> k = ?n + pattern_count match ch ?ex porder" by blast
  have d: "delivered b b' (due match b ch msg porder)"
    by (rule delivered_cong [OF delivered_trans [OF d1 d2]]) (simp add: due_def fun_eq_iff ord(2))
  have "k = int (length order) + pattern_count match ch ?ex porder"
    if room: "\<forall>c. length (queue b c) + length porder < pubsubDeliveryBufSize"
  proof -
    have "can_take b c" if "c \<in> set order" for c
      using that ord(2) room [rule_format, of c] topic [of c] by (auto simp: can_take_def topics_def)
    then have "filter (can_take b) order = order" by simp
    moreover have "has_chan b1 c \<and> length (queue b1 c) + length porder \<le> pubsubDeliveryBufSize"
      if "(p, cs) \<in> set porder" "c \<in> set cs" for p cs c
      using that pord(2) [OF that(1)] topic [of c] d1 room [rule_format, of c]
      by (auto simp: delivered_def offer_def topics_def)
    then have "room_for b1 porder" by (auto simp: room_for_def)
    ultimately show ?thesis using k by simp
  qed
  moreover have "Publish match order porder b ch msg = Ret (k, b')"
    using b1 b' same by (simp add: Publish_def)
  ultimately show ?thesis
    using delivered_broker_ok [OF assms(1) d] d topic by (auto simp: delivered_def)
qed

text \<open>
  A connection that subscribed to two patterns matching a channel counts twice in the result of
  \<open>Publish\<close>.
\<close>

lemma publish_counts_a_connection_twice:
  assumes "match p ch = Inr True" and "match q ch = Inr True" and "p \<noteq> q"
    and "b = snd (PSubscribe (snd (PSubscribe newPubSubBroker c p)) c q)"
  shows "\<exists>b'. Publish match [] [(p, [c]), (q, [c])] b ch msg = Ret (2, b')"
  using assms
  by (simp add: PSubscribe_def newPubSubBroker_def getOrCreateChan_def add_sub_def
      subscribers_def Let_def pubsubDeliveryBufSize_def Publish_def deliver_def chan_try_send_def make_chan_def)

end
