(* ===== verification/ServerState.thy ===== *)
theory ServerState
  imports Evaluate BrokerPublish
begin

text \<open>
  The state of the server and the methods on it that are not the request loop
  (\<open>internal/core/server/config.go\<close>, \<open>connection.go\<close>, \<open>commands.go\<close>, \<open>server_utils.go\<close> and the
  struct of \<open>server.go\<close>). A \<open>net.Conn\<close> is a number; what the server writes to it is a text that
  only grows. Writing to a connection succeeds until the server closes it; afterwards it fails,
  which the code ignores. The registry of commands never changes after
  \<open>NewServer\<close> and is passed to the request loop instead of being part of the state.
\<close>

section \<open>Configuration\<close>

record Config =
  cfg_Host :: string
  cfg_Port :: string
  cfg_Password :: string
  cfg_UseRDB :: bool
  cfg_UseAOF :: bool
  cfg_Version :: string
  cfg_DataDir :: string
  cfg_LogLevel :: string

definition NewConfig :: Config where
  "NewConfig = \<lparr>cfg_Host = [], cfg_Port = ''6379'', cfg_Password = ''guest'', cfg_UseRDB = True,
     cfg_UseAOF = True, cfg_Version = [], cfg_DataDir = ''data'', cfg_LogLevel = ''info''\<rparr>"

text \<open>The environment is a function; an unset variable reads as the empty text.\<close>

definition LoadFromEnv :: "(string \<Rightarrow> string) \<Rightarrow> Config \<Rightarrow> Config" where
  "LoadFromEnv getenv c =
     (let c = (if getenv ''HOST'' \<noteq> [] then c\<lparr>cfg_Host := getenv ''HOST''\<rparr> else c);
          c = (if getenv ''PORT'' \<noteq> [] then c\<lparr>cfg_Port := getenv ''PORT''\<rparr> else c);
          c = (if getenv ''PASSWORD'' \<noteq> [] then c\<lparr>cfg_Password := getenv ''PASSWORD''\<rparr> else c);
          c = (if getenv ''USE_RDB'' \<noteq> [] then c\<lparr>cfg_UseRDB := (getenv ''USE_RDB'' = ''true'')\<rparr> else c);
          c = (if getenv ''USE_AOF'' \<noteq> [] then c\<lparr>cfg_UseAOF := (getenv ''USE_AOF'' = ''true'')\<rparr> else c);
          c = (if getenv ''DATA_DIR'' \<noteq> [] then c\<lparr>cfg_DataDir := getenv ''DATA_DIR''\<rparr> else c)
      in if getenv ''LOG_LEVEL'' \<noteq> [] then c\<lparr>cfg_LogLevel := getenv ''LOG_LEVEL''\<rparr> else c)"

section \<open>Connections\<close>

datatype ConnMode = ModeNormal | ModeSubscriber

record Conn =
  conn_dbIndex :: int
  conn_authed :: bool
  conn_mode :: ConnMode
  conn_id :: int
  conn_name :: string

definition newConn :: Conn where
  "newConn = \<lparr>conn_dbIndex = 0, conn_authed = False, conn_mode = ModeNormal, conn_id = 0, conn_name = []\<rparr>"

section \<open>The server\<close>

text \<open>
  \<open>outputs\<close> is what was written to each connection, \<open>closedConns\<close> the connections the server has
  closed. A goroutine that writes published messages to a connection takes them from the
  delivery channel of the broker (\<open>writing\<close>); once the broker has closed and dropped the channel,
  the goroutine still holds the messages that were left in it (\<open>draining\<close>).
\<close>

record Server =
  srv_store :: Store
  srv_config :: Config
  connections :: "(conn, Conn) fmap"
  srv_broker :: PubSubBroker
  shutdownClosed :: bool
  listening :: bool
  connCounter :: int
  outputs :: "(conn, string) fmap"
  closedConns :: "conn fset"
  writing :: "conn fset"
  draining :: "(conn \<times> string list) list"

text \<open>Creating the data directory succeeds.\<close>

definition NewServer :: "Config \<Rightarrow> Server" where
  "NewServer config = \<lparr>srv_store = NewStore (Some (make_chan 100)), srv_config = config,
     connections = fmempty, srv_broker = newPubSubBroker, shutdownClosed = False, listening = False,
     connCounter = 0, outputs = fmempty, closedConns = {||}, writing = {||}, draining = []\<rparr>"

definition output_of :: "Server \<Rightarrow> conn \<Rightarrow> string" where
  "output_of s c = (case fmlookup (outputs s) c of None \<Rightarrow> [] | Some out \<Rightarrow> out)"

definition write_bytes :: "conn \<Rightarrow> string \<Rightarrow> Server \<Rightarrow> Server" where
  "write_bytes c bs s = (if c |\<in>| closedConns s then s
     else s\<lparr>outputs := fmupd c (output_of s c @ bs) (outputs s)\<rparr>)"

text \<open>
  \<open>Encode\<close> into a buffered writer, then \<open>Flush\<close>. Both errors are ignored, so that the bytes of a
  value that failed half way are sent.
\<close>

definition write_value :: "conn \<Rightarrow> RESPValue \<Rightarrow> Server \<Rightarrow> Server" where
  "write_value c v s = write_bytes c (fst (Encode v)) s"

definition close_conn :: "conn \<Rightarrow> Server \<Rightarrow> Server" where
  "close_conn c s = s\<lparr>closedConns := finsert c (closedConns s)\<rparr>"

definition update_conn :: "conn \<Rightarrow> (Conn \<Rightarrow> Conn) \<Rightarrow> Server \<Rightarrow> Server" where
  "update_conn c f s = (case fmlookup (connections s) c of
     None \<Rightarrow> s
   | Some cn \<Rightarrow> s\<lparr>connections := fmupd c (f cn) (connections s)\<rparr>)"

definition isAuthenticates :: "Server \<Rightarrow> conn \<Rightarrow> bool" where
  "isAuthenticates s c = (case fmlookup (connections s) c of None \<Rightarrow> False | Some cn \<Rightarrow> conn_authed cn)"

definition Authenticate :: "conn \<Rightarrow> string \<Rightarrow> Server \<Rightarrow> bool \<times> Server" where
  "Authenticate c password s = (if password \<noteq> cfg_Password (srv_config s) then (False, s)
     else (True, update_conn c (\<lambda>cn. cn\<lparr>conn_authed := True\<rparr>) s))"

definition getCurrentDb :: "Server \<Rightarrow> conn \<Rightarrow> int" where
  "getCurrentDb s c = (case fmlookup (connections s) c of None \<Rightarrow> 0 | Some cn \<Rightarrow> conn_dbIndex cn)"

definition SelectDb :: "conn \<Rightarrow> int \<Rightarrow> Server \<Rightarrow> goerror option \<times> Server" where
  "SelectDb c dbIndex s = (if dbIndex < 0 \<or> Count (srv_store s) \<le> dbIndex
     then (Some ''invalid DB index'', s)
     else (None, update_conn c (\<lambda>cn. cn\<lparr>conn_dbIndex := dbIndex\<rparr>) s))"

text \<open>The method \<open>Quit\<close>, which the QUIT command does not call.\<close>

definition Server_Quit :: "conn \<Rightarrow> Server \<Rightarrow> Server" where
  "Server_Quit c s = close_conn c (write_bytes c (''OK'' @ [CHR 0x0A]) s)"

definition Server_Info :: "Server \<Rightarrow> string" where
  "Server_Info s = ''# Server'' @ [CHR 0x0A] @
     ''version:'' @ cfg_Version (srv_config s) @ [CHR 0x0A] @
     ''uptime_in_seconds:'' @ Itoa 1000 @ [CHR 0x0A] @
     ''connected_clients:'' @ Itoa 0 @ [CHR 0x0A]"

definition Server_Ping :: RESPValue where "Server_Ping = SimpleString ''PONG''"
definition Server_Echo :: "string \<Rightarrow> RESPValue" where "Server_Echo message = SimpleString message"

definition stopAcceptLoop :: "Server \<Rightarrow> Server" where
  "stopAcceptLoop s = s\<lparr>shutdownClosed := True, listening := False\<rparr>"

section \<open>Readiness\<close>

text \<open>
  \<open>bound\<close> is the address the system gave to the listener. When the accept loop has ended, it sets the listener to
  \<open>nil\<close>, which the model does together with closing it.
\<close>

definition Addr :: "Server \<Rightarrow> string \<Rightarrow> string" where
  "Addr s bound = (if listening s then bound else [])"

text \<open>
  A round of the loop of \<open>WaitForReady\<close> reads the clock, asks for the address and dials it; between two rounds it
  sleeps for 10 ms. The loop takes the rounds it sees as a list, and is undecided (\<open>None\<close>) when they are used up.
\<close>

type_synonym round = "time \<times> Server \<times> string \<times> (string \<Rightarrow> bool)"

fun ready_loop :: "duration \<Rightarrow> time \<Rightarrow> round list \<Rightarrow> goerror option option" where
  "ready_loop timeout deadline [] = None"
| "ready_loop timeout deadline ((now, s, bound, dial) # rounds) =
     (if now < deadline then
        (let addr = Addr s bound in
         if addr \<noteq> [] \<and> dial addr then Some None else ready_loop timeout deadline rounds)
      else Some (Some (''server did not become ready within '' @ Duration_String timeout)))"

definition WaitForReady :: "duration \<Rightarrow> time \<Rightarrow> round list \<Rightarrow> goerror option option" where
  "WaitForReady timeout start rounds = ready_loop timeout (Time_Add start timeout) rounds"

text \<open>The loop ends with the deadline, and without an error exactly when it reached the server before.\<close>

lemma ready_loop_ends: "\<exists>r \<in> set rounds. deadline \<le> fst r \<Longrightarrow> ready_loop timeout deadline rounds \<noteq> None"
  by (induction timeout deadline rounds rule: ready_loop.induct) (auto simp: Let_def)

lemma ready_loop_ok: "ready_loop timeout deadline rounds = Some None \<longleftrightarrow>
    list_ex (\<lambda>(now, s, bound, dial). listening s \<and> bound \<noteq> [] \<and> dial bound) (takeWhile (\<lambda>r. fst r < deadline) rounds)"
  by (induction timeout deadline rounds rule: ready_loop.induct) (auto simp: Addr_def Let_def)

lemma WaitForReady_ends:
  assumes "\<And>j. j < length rounds \<Longrightarrow> start + int j * (10 * Millisecond) \<le> fst (rounds ! j)"
    and "timeout \<le> int (length rounds - 1) * (10 * Millisecond)" and "rounds \<noteq> []"
  shows "WaitForReady timeout start rounds \<noteq> None"
  unfolding WaitForReady_def
proof (rule ready_loop_ends)
  have "length rounds - 1 < length rounds" using assms(3) by simp
  with assms(1) [of "length rounds - 1"] assms(2)
  have "Time_Add start timeout \<le> fst (rounds ! (length rounds - 1))" by (simp add: Time_Add_def)
  then show "\<exists>r \<in> set rounds. Time_Add start timeout \<le> fst r"
    using assms(3) by (auto intro!: bexI [of _ "rounds ! (length rounds - 1)"])
qed

section \<open>Modes of a connection\<close>

text \<open>
  A new broker state after an operation on behalf of \<open>c\<close>. When the operation closed the delivery
  channel of \<open>c\<close>, a goroutine that was reading it goes on with what is left in it.
\<close>

definition set_broker :: "conn \<Rightarrow> PubSubBroker \<Rightarrow> Server \<Rightarrow> Server" where
  "set_broker c b' s =
     (if c |\<in>| writing s \<and> has_chan (srv_broker s) c \<and> \<not> has_chan b' c
      then s\<lparr>srv_broker := b', writing := writing s |-| {|c|},
             draining := draining s @ [(c, queue (srv_broker s) c)]\<rparr>
      else s\<lparr>srv_broker := b'\<rparr>)"

definition SetMode :: "conn \<Rightarrow> int \<Rightarrow> Server \<Rightarrow> Server" where
  "SetMode c mode s = (case fmlookup (connections s) c of
     None \<Rightarrow> s
   | Some cn \<Rightarrow>
       if mode = 1 \<and> conn_mode cn \<noteq> ModeSubscriber then
         (case GetConnChan (srv_broker s) c of
            None \<Rightarrow> s
          | Some _ \<Rightarrow> update_conn c (\<lambda>cn. cn\<lparr>conn_mode := ModeSubscriber\<rparr>)
              (s\<lparr>writing := finsert c (writing s)\<rparr>))
       else if mode = 0 then update_conn c (\<lambda>cn. cn\<lparr>conn_mode := ModeNormal\<rparr>) s
       else s)"

text \<open>One round of the writing goroutine of a connection, and of one whose channel was closed.\<close>

definition writer_step :: "conn \<Rightarrow> Server \<Rightarrow> Server" where
  "writer_step c s = (if c |\<notin>| writing s then s
     else (case fmlookup (connChans (srv_broker s)) c of
         None \<Rightarrow> s
       | Some ch \<Rightarrow> (case chan_recv ch of
           None \<Rightarrow> s
         | Some (msg, ch') \<Rightarrow> write_bytes c msg (s\<lparr>srv_broker :=
             (srv_broker s)\<lparr>connChans := fmupd c ch' (connChans (srv_broker s))\<rparr>\<rparr>))))"

definition drain_step :: "Server \<Rightarrow> Server" where
  "drain_step s = (case draining s of
     [] \<Rightarrow> s
   | (c, []) # rest \<Rightarrow> s\<lparr>draining := rest\<rparr>
   | (c, msg # msgs) # rest \<Rightarrow> write_bytes c msg (s\<lparr>draining := (c, msgs) # rest\<rparr>))"

end
