(* ===== verification/CommandBase.thy ===== *)
theory CommandBase
  imports ServerState
begin

text \<open>
  What the command objects share (\<open>internal/core/command\<close>): the \<open>Command\<close> interface and the
  \<open>Context\<close> through which a command reaches the server (\<open>command.go\<close>), the argument checks
  (\<open>validate_helpers.go\<close>) and the conversions to replies (\<open>resp_helpers.go\<close>). A command is a record
  of its four methods. The closures of the context are functions on the server state; what a
  command reads from outside (the clock, the visiting orders of maps, the libraries) is its
  environment.
\<close>

section \<open>Context and command\<close>

record Env =
  env_now :: time
  env_now2 :: time
  env_order :: "string list"
  env_regexp :: regexp_lib
  env_glob :: glob_lib
  env_conns :: "conn list"
  env_patterns :: "(string \<times> conn list) list"
  env_addr :: string

text \<open>A reply is an error, nothing (\<open>nil, nil\<close>), or a value.\<close>

type_synonym reply = "goerror + RESPValue option"

record Context =
  ctx_DBIndex :: int
  ctx_Conn :: conn
  ctx_env :: Env
  ctx_Nil :: RESPValue
  ctx_Auth :: "(string \<Rightarrow> Server \<Rightarrow> bool \<times> Server) option"
  ctx_SelectDB :: "(int \<Rightarrow> Server \<Rightarrow> goerror option \<times> Server) option"
  ctx_Info :: "(Server \<Rightarrow> string) option"
  ctx_ProtocolVersion :: int
  ctx_GetVersion :: "Server \<Rightarrow> string"
  ctx_GetConnID :: "Server \<Rightarrow> int"
  ctx_GetConnName :: "Server \<Rightarrow> string"
  ctx_SetConnName :: "string \<Rightarrow> Server \<Rightarrow> Server"
  ctx_GetConnInfo :: "(Server \<Rightarrow> string) option"
  ctx_Write :: "RESPValue \<Rightarrow> Server \<Rightarrow> Server"
  ctx_SetMode :: "int \<Rightarrow> Server \<Rightarrow> Server"

type_synonym execution = "(reply \<times> Server) outcome"

record Command =
  cmd_Name :: string
  cmd_RequiresAuth :: bool
  cmd_Validate :: "string list \<Rightarrow> goerror option"
  cmd_Execute :: "Context \<Rightarrow> string list \<Rightarrow> Server \<Rightarrow> execution"

definition ErrWrongNumberOfArguments :: goerror where
  "ErrWrongNumberOfArguments = ''ERR wrong number of arguments for command''"

section \<open>Argument checks\<close>

definition requireExactArgs :: "nat \<Rightarrow> string list \<Rightarrow> goerror option" where
  "requireExactArgs expected args = (if length args \<noteq> expected then Some ErrWrongNumberOfArguments else None)"

definition requireMinArgs :: "nat \<Rightarrow> string list \<Rightarrow> goerror option" where
  "requireMinArgs min_args args = (if length args < min_args then Some ErrWrongNumberOfArguments else None)"

fun requireOneOfArgCounts :: "nat list \<Rightarrow> string list \<Rightarrow> goerror option" where
  "requireOneOfArgCounts [] args = Some ErrWrongNumberOfArguments"
| "requireOneOfArgCounts (n # ns) args = (if length args = n then None else requireOneOfArgCounts ns args)"

definition parseIntArg :: "string \<Rightarrow> string \<Rightarrow> goerror + int" where
  "parseIntArg v errMsg = (case Atoi v of (n, None) \<Rightarrow> Inr n | (_, Some _) \<Rightarrow> Inl errMsg)"

definition requireFieldValuePairs :: "string list \<Rightarrow> goerror option" where
  "requireFieldValuePairs args = (if length args < 3 \<or> length args mod 2 = 0
     then Some ErrWrongNumberOfArguments else None)"

definition requireKeyWithFields :: "string list \<Rightarrow> goerror option" where
  "requireKeyWithFields args = requireMinArgs 2 args"

text \<open>The loop reads \<open>args[i+1]\<close>, which panics for a last field without a value.\<close>

fun field_value_loop :: "string list \<Rightarrow> (string, goval) fmap \<Rightarrow> (string, goval) fmap outcome" where
  "field_value_loop [] m = Ret m"
| "field_value_loop [f] m = Panic"
| "field_value_loop (f # v # rest) m = field_value_loop rest (fmupd f (GStr v) m)"

definition hashFieldValueArgs :: "string list \<Rightarrow> (string, goval) fmap outcome" where
  "hashFieldValueArgs args = field_value_loop args fmempty"

section \<open>Replies\<close>

fun valueToRESP :: "goval \<Rightarrow> RESPValue" where
  "valueToRESP (GStr s) = bulk s"
| "valueToRESP (GList xs) = arr (map valueToRESP xs)"
| "valueToRESP v = bulk (Sprintf_v v)"

definition anySliceToRESPArray :: "goval list \<Rightarrow> RESPValue" where
  "anySliceToRESPArray items = arr (map valueToRESP items)"

definition stringSliceToRESPArray :: "string list \<Rightarrow> RESPValue" where
  "stringSliceToRESPArray items = arr (map bulk items)"

definition hashToRESPArray :: "(string, string) fmap \<Rightarrow> RESPValue" where
  "hashToRESPArray items = arr (concat (map (\<lambda>k. [bulk k, bulk (case fmlookup items k of
     Some v \<Rightarrow> v | None \<Rightarrow> [])]) (sorted_keys items)))"

section \<open>Helpers of the models\<close>

text \<open>\<open>args[n]\<close> and \<open>args[n:]\<close>\<close>

definition arg :: "string list \<Rightarrow> nat \<Rightarrow> string outcome" where
  "arg args n = (if n < length args then Ret (args ! n) else Panic)"

definition args_from :: "string list \<Rightarrow> nat \<Rightarrow> string list outcome" where
  "args_from args n = (if n \<le> length args then Ret (drop n args) else Panic)"

text \<open>A method of the store that writes, and one that only reads.\<close>

definition on_store :: "(Store \<Rightarrow> ('r \<times> Store) outcome) \<Rightarrow> Server \<Rightarrow> ('r \<times> Server) outcome" where
  "on_store f s = andThen (f (srv_store s)) (\<lambda>(r, st). Ret (r, s\<lparr>srv_store := st\<rparr>))"

definition no_result :: "Store outcome \<Rightarrow> (unit \<times> Store) outcome" where
  "no_result m = andThen m (\<lambda>s. Ret ((), s))"

definition replies :: "RESPValue \<Rightarrow> Server \<Rightarrow> execution" where
  "replies v s = Ret (Inr (Some v), s)"

definition fails :: "goerror \<Rightarrow> Server \<Rightarrow> execution" where
  "fails e s = Ret (Inl e, s)"

definition OK :: RESPValue where
  "OK = SimpleString ''OK''"

lemmas command_helpers [cmd_defs] = ErrWrongNumberOfArguments_def requireExactArgs_def requireMinArgs_def
  parseIntArg_def requireFieldValuePairs_def requireKeyWithFields_def hashFieldValueArgs_def
  anySliceToRESPArray_def stringSliceToRESPArray_def hashToRESPArray_def arg_def args_from_def
  on_store_def no_result_def replies_def fails_def OK_def

end
