(* ===== verification/CommandsData.thy ===== *)
theory CommandsData
  imports CommandBase
begin

text \<open>
  The commands on strings, keys and lists: \<open>get.go\<close>, \<open>set.go\<close>, \<open>del.go\<close>, \<open>exists.go\<close>,
  \<open>expire.go\<close>, \<open>incr.go\<close>, \<open>decr.go\<close>, \<open>ttl.go\<close>, \<open>setnx.go\<close>, \<open>type.go\<close>, \<open>strlen.go\<close>,
  \<open>getrange.go\<close>, \<open>rename.go\<close>, \<open>keys.go\<close>, \<open>scan.go\<close>, \<open>flushdb.go\<close>, \<open>flushall.go\<close>,
  \<open>lpush.go\<close>, \<open>rpush.go\<close>, \<open>lrange.go\<close>, \<open>ltrim.go\<close>, \<open>lpop.go\<close> and \<open>rpop.go\<close> of
  \<open>internal/core/command\<close>. Each is one record: name, authentication, validation, execution.
\<close>

section \<open>Strings\<close>

definition GetCommand :: Command where
  "GetCommand = \<lparr>cmd_Name = ''GET'', cmd_RequiresAuth = False,
     cmd_Validate = (\<lambda>args. if length args \<noteq> 1 then Some ErrWrongNumberOfArguments else None),
     cmd_Execute = (\<lambda>ctx args s. andThen (arg args 0) (\<lambda>key.
       andThen (Store_Get (srv_store s) (env_now (ctx_env ctx)) (ctx_DBIndex ctx) key) (\<lambda>r. case r of
         None \<Rightarrow> replies (ctx_Nil ctx) s
       | Some v \<Rightarrow>
           if IsExpired (env_now2 (ctx_env ctx)) v then
             andThen (on_store (\<lambda>st. no_result (Store_Delete st (ctx_DBIndex ctx) key)) s) (\<lambda>(_, s).
               replies (ctx_Nil ctx) s)
           else (case ToString v of
               Inl _ \<Rightarrow> fails ErrWrongType s
             | Inr str \<Rightarrow> replies (bulk str) s))))\<rparr>"

definition SetCommand :: Command where
  "SetCommand = \<lparr>cmd_Name = ''SET'', cmd_RequiresAuth = False,
     cmd_Validate = (\<lambda>args. if length args < 2 then Some ErrWrongNumberOfArguments else None),
     cmd_Execute = (\<lambda>ctx args s. andThen (arg args 0) (\<lambda>key. andThen (arg args 1) (\<lambda>val.
       andThen (args_from args 2) (\<lambda>options.
       andThen (on_store (\<lambda>st. Store_Set st (env_now (ctx_env ctx)) (ctx_DBIndex ctx) key (GStr val) options) s)
         (\<lambda>(r, s). case r of
            Inl e \<Rightarrow> fails e s
          | Inr ok \<Rightarrow> if \<not> ok then replies (ctx_Nil ctx) s else replies OK s)))))\<rparr>"

definition SetNXCommand :: Command where
  "SetNXCommand = \<lparr>cmd_Name = ''SETNX'', cmd_RequiresAuth = False,
     cmd_Validate = (\<lambda>args. if length args \<noteq> 2 then Some ErrWrongNumberOfArguments else None),
     cmd_Execute = (\<lambda>ctx args s. andThen (arg args 0) (\<lambda>key. andThen (arg args 1) (\<lambda>val.
       andThen (on_store (\<lambda>st. Store_SetNX st (env_now (ctx_env ctx)) (env_now2 (ctx_env ctx))
           (ctx_DBIndex ctx) key val) s) (\<lambda>(n, s).
         replies (Integer n) s))))\<rparr>"

definition GetRangeCommand :: Command where
  "GetRangeCommand = \<lparr>cmd_Name = ''GETRANGE'', cmd_RequiresAuth = False,
     cmd_Validate = requireExactArgs 3,
     cmd_Execute = (\<lambda>ctx args s. andThen (arg args 1) (\<lambda>a1.
       case parseIntArg a1 ''value is not an integer or out of range'' of
         Inl e \<Rightarrow> fails e s
       | Inr start \<Rightarrow> andThen (arg args 2) (\<lambda>a2.
           case parseIntArg a2 ''value is not an integer or out of range'' of
             Inl e \<Rightarrow> fails e s
           | Inr stop \<Rightarrow> andThen (arg args 0) (\<lambda>key.
               andThen (Store_GetRange (srv_store s) (env_now (ctx_env ctx)) (ctx_DBIndex ctx) key start stop)
                 (\<lambda>r. case r of Inl e \<Rightarrow> fails e s | Inr v \<Rightarrow> replies (bulk v) s)))))\<rparr>"

definition StrLenCommand :: Command where
  "StrLenCommand = \<lparr>cmd_Name = ''STRLEN'', cmd_RequiresAuth = False,
     cmd_Validate = (\<lambda>args. if length args \<noteq> 1 then Some ErrWrongNumberOfArguments else None),
     cmd_Execute = (\<lambda>ctx args s. andThen (arg args 0) (\<lambda>key.
       andThen (Store_StrLen (srv_store s) (env_now (ctx_env ctx)) (ctx_DBIndex ctx) key) (\<lambda>r. case r of
         Inl e \<Rightarrow> fails e s | Inr n \<Rightarrow> replies (Integer n) s)))\<rparr>"

text \<open>\<open>INCR\<close> and \<open>DECR\<close> differ in the method they call.\<close>

definition counter_execute :: "(Store \<Rightarrow> int \<Rightarrow> string \<Rightarrow> ((goerror + int) \<times> Store) outcome) \<Rightarrow>
    Context \<Rightarrow> string list \<Rightarrow> Server \<Rightarrow> execution" where
  "counter_execute f ctx args s = andThen (arg args 0) (\<lambda>key.
     andThen (on_store (\<lambda>st. f st (ctx_DBIndex ctx) key) s) (\<lambda>(r, s). case r of
       Inl e \<Rightarrow> fails e s | Inr n \<Rightarrow> replies (Integer n) s))"

definition IncrCommand :: Command where
  "IncrCommand = \<lparr>cmd_Name = ''INCR'', cmd_RequiresAuth = False,
     cmd_Validate = (\<lambda>args. if length args \<noteq> 1 then Some ErrWrongNumberOfArguments else None),
     cmd_Execute = counter_execute Store_Incr\<rparr>"

definition DecrCommand :: Command where
  "DecrCommand = \<lparr>cmd_Name = ''DECR'', cmd_RequiresAuth = False,
     cmd_Validate = (\<lambda>args. if length args \<noteq> 1 then Some ErrWrongNumberOfArguments else None),
     cmd_Execute = counter_execute Store_Decr\<rparr>"

section \<open>Keys\<close>

definition DelCommand :: Command where
  "DelCommand = \<lparr>cmd_Name = ''DEL'', cmd_RequiresAuth = False,
     cmd_Validate = (\<lambda>args. if length args \<noteq> 1 then Some ErrWrongNumberOfArguments else None),
     cmd_Execute = (\<lambda>ctx args s. andThen (arg args 0) (\<lambda>key.
       andThen (on_store (\<lambda>st. no_result (Store_Del st (ctx_DBIndex ctx) key)) s) (\<lambda>(_, s).
         replies (Integer 1) s)))\<rparr>"

definition ExistsCommand :: Command where
  "ExistsCommand = \<lparr>cmd_Name = ''EXISTS'', cmd_RequiresAuth = False,
     cmd_Validate = (\<lambda>args. if length args < 1 then Some ErrWrongNumberOfArguments else None),
     cmd_Execute = (\<lambda>ctx args s.
       andThen (Store_Exists (srv_store s) (env_now (ctx_env ctx)) (ctx_DBIndex ctx) args) (\<lambda>n.
         replies (Integer n) s))\<rparr>"

definition ExpireCommand :: Command where
  "ExpireCommand = \<lparr>cmd_Name = ''EXPIRE'', cmd_RequiresAuth = False,
     cmd_Validate = requireExactArgs 2,
     cmd_Execute = (\<lambda>ctx args s. andThen (arg args 1) (\<lambda>a1.
       case parseIntArg a1 ''invalid expire time in 'expire' command'' of
         Inl e \<Rightarrow> fails e s
       | Inr ttl \<Rightarrow>
           if ttl < 0 then replies (ErrorString ''ERR invalid expire time in 'expire' command'') s
           else andThen (arg args 0) (\<lambda>key.
             andThen (on_store (\<lambda>st. Store_Expire st (env_now (ctx_env ctx)) (ctx_DBIndex ctx) key
                 (Duration_mul ttl Second)) s) (\<lambda>(ok, s).
               replies (Integer (if ok then 1 else 0)) s))))\<rparr>"

definition TTLCommand :: Command where
  "TTLCommand = \<lparr>cmd_Name = ''TTL'', cmd_RequiresAuth = False,
     cmd_Validate = (\<lambda>args. if length args \<noteq> 1 then Some ErrWrongNumberOfArguments else None),
     cmd_Execute = (\<lambda>ctx args s. andThen (arg args 0) (\<lambda>key.
       andThen (Store_TTL (srv_store s) (env_now (ctx_env ctx)) (ctx_DBIndex ctx) key) (\<lambda>n.
         replies (Integer n) s)))\<rparr>"

definition TypeCommand :: Command where
  "TypeCommand = \<lparr>cmd_Name = ''TYPE'', cmd_RequiresAuth = False,
     cmd_Validate = (\<lambda>args. if length args \<noteq> 1 then Some ErrWrongNumberOfArguments else None),
     cmd_Execute = (\<lambda>ctx args s. andThen (arg args 0) (\<lambda>key.
       andThen (Store_Type (srv_store s) (ctx_DBIndex ctx) key) (\<lambda>t. replies (SimpleString t) s)))\<rparr>"

definition RenameCommand :: Command where
  "RenameCommand = \<lparr>cmd_Name = ''RENAME'', cmd_RequiresAuth = False,
     cmd_Validate = (\<lambda>args. if length args \<noteq> 2 then Some ErrWrongNumberOfArguments else None),
     cmd_Execute = (\<lambda>ctx args s. andThen (arg args 0) (\<lambda>old. andThen (arg args 1) (\<lambda>new.
       andThen (on_store (\<lambda>st. Store_Rename st (env_now (ctx_env ctx)) (ctx_DBIndex ctx) old new) s)
         (\<lambda>(r, s). case r of Some e \<Rightarrow> fails e s | None \<Rightarrow> replies OK s))))\<rparr>"

definition KeysCommand :: Command where
  "KeysCommand = \<lparr>cmd_Name = ''KEYS'', cmd_RequiresAuth = False,
     cmd_Validate = (\<lambda>args. if length args \<noteq> 1 then Some ErrWrongNumberOfArguments else None),
     cmd_Execute = (\<lambda>ctx args s. andThen (arg args 0) (\<lambda>pattern.
       andThen (Store_Keys (env_regexp (ctx_env ctx)) (srv_store s) (ctx_DBIndex ctx) pattern
           (env_order (ctx_env ctx))) (\<lambda>r. case r of
         Inl e \<Rightarrow> fails e s | Inr keys \<Rightarrow> replies (stringSliceToRESPArray keys) s)))\<rparr>"

definition FlushDBCommand :: Command where
  "FlushDBCommand = \<lparr>cmd_Name = ''FLUSHDB'', cmd_RequiresAuth = False,
     cmd_Validate = (\<lambda>_. None),
     cmd_Execute = (\<lambda>ctx args s.
       andThen (on_store (\<lambda>st. Store_FlushDb st (ctx_DBIndex ctx)) s) (\<lambda>(_, s). replies OK s))\<rparr>"

definition FlushAllCommand :: Command where
  "FlushAllCommand = \<lparr>cmd_Name = ''FLUSHALL'', cmd_RequiresAuth = False,
     cmd_Validate = (\<lambda>_. None),
     cmd_Execute = (\<lambda>ctx args s. andThen (on_store Store_FlushAll s) (\<lambda>(_, s). replies OK s))\<rparr>"

text \<open>The options of \<open>SCAN\<close>, from the second argument on.\<close>

fun scan_options :: "string list \<Rightarrow> string \<Rightarrow> int \<Rightarrow> goerror + string \<times> int" where
  "scan_options [] pattern count = Inr (pattern, count)"
| "scan_options (a # rest) pattern count =
     (if ToUpper a = ''MATCH'' then
        (case rest of [] \<Rightarrow> Inl ''syntax error''
         | p # rest' \<Rightarrow> scan_options rest' p count)
      else if ToUpper a = ''COUNT'' then
        (case rest of [] \<Rightarrow> Inl ''syntax error''
         | n # rest' \<Rightarrow> (case parseIntArg n ''value is not an integer or out of range'' of
             Inl e \<Rightarrow> Inl e
           | Inr c \<Rightarrow> if c \<le> 0 then Inl ''value is not an integer or out of range''
               else scan_options rest' pattern c))
      else Inl ''syntax error'')"

definition ScanCommand :: Command where
  "ScanCommand = \<lparr>cmd_Name = ''SCAN'', cmd_RequiresAuth = False,
     cmd_Validate = requireMinArgs 1,
     cmd_Execute = (\<lambda>ctx args s. andThen (arg args 0) (\<lambda>a0.
       case parseIntArg a0 ''invalid cursor'' of
         Inl e \<Rightarrow> fails e s
       | Inr cursor \<Rightarrow> (case scan_options (drop 1 args) ''*'' 10 of
           Inl e \<Rightarrow> fails e s
         | Inr (pattern, count) \<Rightarrow>
             andThen (Store_Scan (env_regexp (ctx_env ctx)) (srv_store s) (env_now (ctx_env ctx))
                 (ctx_DBIndex ctx) cursor pattern count (env_order (ctx_env ctx))) (\<lambda>r. case r of
               Inl e \<Rightarrow> fails e s
             | Inr (newCursor, keys) \<Rightarrow>
                 replies (arr [bulk (Itoa newCursor), stringSliceToRESPArray keys]) s))))\<rparr>"

section \<open>Lists\<close>

text \<open>\<open>LPUSH\<close> and \<open>RPUSH\<close>; \<open>make([]any, len(args)-1)\<close> panics without arguments.\<close>

definition push_execute :: "(Store \<Rightarrow> int \<Rightarrow> string \<Rightarrow> goval list \<Rightarrow> ((goerror + int) \<times> Store) outcome) \<Rightarrow>
    Context \<Rightarrow> string list \<Rightarrow> Server \<Rightarrow> execution" where
  "push_execute f ctx args s = andThen (args_from args 1) (\<lambda>vals. andThen (arg args 0) (\<lambda>key.
     andThen (on_store (\<lambda>st. f st (ctx_DBIndex ctx) key (map GStr vals)) s) (\<lambda>(r, s). case r of
       Inl e \<Rightarrow> replies (ErrorString e) s
     | Inr n \<Rightarrow> replies (Integer n) s)))"

definition LPushCommand :: Command where
  "LPushCommand = \<lparr>cmd_Name = ''LPUSH'', cmd_RequiresAuth = False,
     cmd_Validate = (\<lambda>args. if length args < 2 then Some ErrWrongNumberOfArguments else None),
     cmd_Execute = push_execute Store_LPush\<rparr>"

definition RPushCommand :: Command where
  "RPushCommand = \<lparr>cmd_Name = ''RPUSH'', cmd_RequiresAuth = False,
     cmd_Validate = (\<lambda>args. if length args < 2 then Some ErrWrongNumberOfArguments else None),
     cmd_Execute = push_execute Store_RPush\<rparr>"

definition LRangeCommand :: Command where
  "LRangeCommand = \<lparr>cmd_Name = ''LRANGE'', cmd_RequiresAuth = False,
     cmd_Validate = requireExactArgs 3,
     cmd_Execute = (\<lambda>ctx args s. andThen (arg args 1) (\<lambda>a1.
       case parseIntArg a1 ''value is not an integer or out of range'' of
         Inl e \<Rightarrow> fails e s
       | Inr start \<Rightarrow> andThen (arg args 2) (\<lambda>a2.
           case parseIntArg a2 ''value is not an integer or out of range'' of
             Inl e \<Rightarrow> fails e s
           | Inr stop \<Rightarrow> andThen (arg args 0) (\<lambda>key.
               andThen (Store_LRange (srv_store s) (env_now (ctx_env ctx)) (ctx_DBIndex ctx) key start stop)
                 (\<lambda>r. case r of
                    Inl e \<Rightarrow> fails e s
                  | Inr vals \<Rightarrow> replies (arr (map (\<lambda>v. bulk (Sprintf_v v)) vals)) s)))))\<rparr>"

definition LTrimCommand :: Command where
  "LTrimCommand = \<lparr>cmd_Name = ''LTRIM'', cmd_RequiresAuth = False,
     cmd_Validate = requireExactArgs 3,
     cmd_Execute = (\<lambda>ctx args s. andThen (arg args 1) (\<lambda>a1.
       case parseIntArg a1 ''value is not an integer or out of range'' of
         Inl e \<Rightarrow> fails e s
       | Inr start \<Rightarrow> andThen (arg args 2) (\<lambda>a2.
           case parseIntArg a2 ''value is not an integer or out of range'' of
             Inl e \<Rightarrow> fails e s
           | Inr stop \<Rightarrow> andThen (arg args 0) (\<lambda>key.
               andThen (on_store (\<lambda>st. Store_LTrim st (env_now (ctx_env ctx)) (ctx_DBIndex ctx) key start stop) s)
                 (\<lambda>(r, s). case r of Some e \<Rightarrow> fails e s | None \<Rightarrow> replies OK s)))))\<rparr>"

text \<open>\<open>LPOP\<close> and \<open>RPOP\<close>, with an optional count.\<close>

definition pop_count :: "string list \<Rightarrow> goerror + int option" where
  "pop_count args = (if length args = 2
     then map_sum (\<lambda>e. e) Some (parseIntArg (args ! 1) ''value is out of range, must be positive'')
     else Inr None)"

definition pop_execute :: "(Store \<Rightarrow> time \<Rightarrow> int \<Rightarrow> string \<Rightarrow> int option \<Rightarrow> ((goerror + goval) \<times> Store) outcome) \<Rightarrow>
    Context \<Rightarrow> string list \<Rightarrow> Server \<Rightarrow> execution" where
  "pop_execute f ctx args s = (case pop_count args of
     Inl e \<Rightarrow> fails e s
   | Inr pcount \<Rightarrow> andThen (arg args 0) (\<lambda>key.
       andThen (on_store (\<lambda>st. f st (env_now (ctx_env ctx)) (ctx_DBIndex ctx) key pcount) s) (\<lambda>(r, s). case r of
         Inl e \<Rightarrow> fails e s
       | Inr v \<Rightarrow> if v = GNil then replies (ctx_Nil ctx) s else replies (valueToRESP v) s)))"

definition LPopCommand :: Command where
  "LPopCommand = \<lparr>cmd_Name = ''LPOP'', cmd_RequiresAuth = False,
     cmd_Validate = requireOneOfArgCounts [1, 2],
     cmd_Execute = pop_execute Store_LPop\<rparr>"

definition RPopCommand :: Command where
  "RPopCommand = \<lparr>cmd_Name = ''RPOP'', cmd_RequiresAuth = False,
     cmd_Validate = requireOneOfArgCounts [1, 2],
     cmd_Execute = pop_execute Store_RPop\<rparr>"

lemmas data_commands [cmd_defs] = GetCommand_def SetCommand_def SetNXCommand_def GetRangeCommand_def
  StrLenCommand_def IncrCommand_def DecrCommand_def DelCommand_def ExistsCommand_def ExpireCommand_def
  TTLCommand_def TypeCommand_def RenameCommand_def KeysCommand_def FlushDBCommand_def
  FlushAllCommand_def ScanCommand_def LPushCommand_def RPushCommand_def LRangeCommand_def
  LTrimCommand_def LPopCommand_def RPopCommand_def counter_execute_def push_execute_def
  pop_execute_def pop_count_def

end
