(* ===== verification/CommandsHash.thy ===== *)
theory CommandsHash
  imports CommandBase
begin

text \<open>
  The commands on hashes: \<open>hset.go\<close>, \<open>hget.go\<close>, \<open>hgetall.go\<close>, \<open>hdel.go\<close>, \<open>hexists.go\<close>,
  \<open>hlen.go\<close>, \<open>hmget.go\<close>, \<open>hkeys.go\<close> and \<open>hvals.go\<close> of \<open>internal/core/command\<close>.
\<close>

definition HSetCommand :: Command where
  "HSetCommand = \<lparr>cmd_Name = ''HSET'', cmd_RequiresAuth = False,
     cmd_Validate = requireFieldValuePairs,
     cmd_Execute = (\<lambda>ctx args s. andThen (arg args 0) (\<lambda>key. andThen (args_from args 1) (\<lambda>rest.
       andThen (hashFieldValueArgs rest) (\<lambda>flds.
       andThen (on_store (\<lambda>st. Store_HSet st (env_now (ctx_env ctx)) (ctx_DBIndex ctx) key flds) s)
         (\<lambda>(r, s). case r of Inl e \<Rightarrow> fails e s | Inr added \<Rightarrow> replies (Integer added) s)))))\<rparr>"

definition HGetCommand :: Command where
  "HGetCommand = \<lparr>cmd_Name = ''HGET'', cmd_RequiresAuth = False,
     cmd_Validate = requireExactArgs 2,
     cmd_Execute = (\<lambda>ctx args s. andThen (arg args 0) (\<lambda>key. andThen (arg args 1) (\<lambda>field.
       andThen (Store_HGet (srv_store s) (env_now (ctx_env ctx)) (ctx_DBIndex ctx) key field) (\<lambda>r. case r of
         Inl e \<Rightarrow> fails e s
       | Inr None \<Rightarrow> replies (ctx_Nil ctx) s
       | Inr (Some v) \<Rightarrow> replies (bulk v) s))))\<rparr>"

definition HGetAllCommand :: Command where
  "HGetAllCommand = \<lparr>cmd_Name = ''HGETALL'', cmd_RequiresAuth = False,
     cmd_Validate = requireExactArgs 1,
     cmd_Execute = (\<lambda>ctx args s. andThen (arg args 0) (\<lambda>key.
       andThen (Store_HGetAll (srv_store s) (env_now (ctx_env ctx)) (ctx_DBIndex ctx) key) (\<lambda>r. case r of
         Inl e \<Rightarrow> fails e s
       | Inr vs \<Rightarrow> replies (hashToRESPArray vs) s)))\<rparr>"

definition HDelCommand :: Command where
  "HDelCommand = \<lparr>cmd_Name = ''HDEL'', cmd_RequiresAuth = False,
     cmd_Validate = requireKeyWithFields,
     cmd_Execute = (\<lambda>ctx args s. andThen (arg args 0) (\<lambda>key. andThen (args_from args 1) (\<lambda>flds.
       andThen (on_store (\<lambda>st. Store_HDel st (env_now (ctx_env ctx)) (ctx_DBIndex ctx) key flds) s)
         (\<lambda>(r, s). case r of Inl e \<Rightarrow> fails e s | Inr deleted \<Rightarrow> replies (Integer deleted) s))))\<rparr>"

definition HExistsCommand :: Command where
  "HExistsCommand = \<lparr>cmd_Name = ''HEXISTS'', cmd_RequiresAuth = False,
     cmd_Validate = requireExactArgs 2,
     cmd_Execute = (\<lambda>ctx args s. andThen (arg args 0) (\<lambda>key. andThen (arg args 1) (\<lambda>field.
       andThen (Store_HExists (srv_store s) (env_now (ctx_env ctx)) (ctx_DBIndex ctx) key field) (\<lambda>r. case r of
         Inl e \<Rightarrow> fails e s
       | Inr found \<Rightarrow> if found then replies (Integer 1) s else replies (Integer 0) s))))\<rparr>"

definition HLenCommand :: Command where
  "HLenCommand = \<lparr>cmd_Name = ''HLEN'', cmd_RequiresAuth = False,
     cmd_Validate = requireExactArgs 1,
     cmd_Execute = (\<lambda>ctx args s. andThen (arg args 0) (\<lambda>key.
       andThen (Store_HLen (srv_store s) (env_now (ctx_env ctx)) (ctx_DBIndex ctx) key) (\<lambda>r. case r of
         Inl e \<Rightarrow> fails e s
       | Inr n \<Rightarrow> replies (Integer n) s)))\<rparr>"

definition HMGetCommand :: Command where
  "HMGetCommand = \<lparr>cmd_Name = ''HMGET'', cmd_RequiresAuth = False,
     cmd_Validate = requireKeyWithFields,
     cmd_Execute = (\<lambda>ctx args s. andThen (arg args 0) (\<lambda>key. andThen (args_from args 1) (\<lambda>flds.
       andThen (Store_HMGet (srv_store s) (env_now (ctx_env ctx)) (ctx_DBIndex ctx) key flds) (\<lambda>r. case r of
         Inl e \<Rightarrow> fails e s
       | Inr vs \<Rightarrow> replies (arr (map (\<lambda>v. case v of None \<Rightarrow> ctx_Nil ctx | Some x \<Rightarrow> bulk x) vs)) s))))\<rparr>"

definition HKeysCommand :: Command where
  "HKeysCommand = \<lparr>cmd_Name = ''HKEYS'', cmd_RequiresAuth = False,
     cmd_Validate = requireExactArgs 1,
     cmd_Execute = (\<lambda>ctx args s. andThen (arg args 0) (\<lambda>key.
       andThen (Store_HKeys (srv_store s) (env_now (ctx_env ctx)) (ctx_DBIndex ctx) key
           (env_order (ctx_env ctx))) (\<lambda>r. case r of
         Inl e \<Rightarrow> fails e s
       | Inr keys \<Rightarrow> replies (stringSliceToRESPArray keys) s)))\<rparr>"

definition HValsCommand :: Command where
  "HValsCommand = \<lparr>cmd_Name = ''HVALS'', cmd_RequiresAuth = False,
     cmd_Validate = requireExactArgs 1,
     cmd_Execute = (\<lambda>ctx args s. andThen (arg args 0) (\<lambda>key.
       andThen (Store_HVals (srv_store s) (env_now (ctx_env ctx)) (ctx_DBIndex ctx) key
           (env_order (ctx_env ctx))) (\<lambda>r. case r of
         Inl e \<Rightarrow> fails e s
       | Inr vs \<Rightarrow> replies (stringSliceToRESPArray vs) s)))\<rparr>"

lemmas hash_commands [cmd_defs] = HSetCommand_def HGetCommand_def HGetAllCommand_def HDelCommand_def
  HExistsCommand_def HLenCommand_def HMGetCommand_def HKeysCommand_def HValsCommand_def

end
