(* ===== verification/CommandsConn.thy ===== *)
theory CommandsConn
  imports CommandBase
begin

text \<open>
  The commands on the connection and the server: \<open>auth.go\<close>, \<open>select.go\<close>, \<open>ping.go\<close>, \<open>echo.go\<close>,
  \<open>quit.go\<close>, \<open>info.go\<close>, \<open>client.go\<close>, \<open>config.go\<close>, \<open>hello.go\<close>, and the publish/subscribe commands
  \<open>subscribe.go\<close>, \<open>unsubscribe.go\<close>, \<open>psubscribe.go\<close>, \<open>punsubscribe.go\<close>, \<open>publish.go\<close> of
  \<open>internal/core/command\<close>. A closure of the context that can be nil is an option.
\<close>

section \<open>Connection and server\<close>

definition AuthCommand :: Command where
  "AuthCommand = \<lparr>cmd_Name = ''AUTH'', cmd_RequiresAuth = False,
     cmd_Validate = (\<lambda>args. if length args \<noteq> 1 then Some ErrWrongNumberOfArguments else None),
     cmd_Execute = (\<lambda>ctx args s. case ctx_Auth ctx of
         None \<Rightarrow> replies (ErrorString ''ERR invalid password'') s
       | Some auth \<Rightarrow> andThen (arg args 0) (\<lambda>password. case auth password s of
           (True, s) \<Rightarrow> replies OK s
         | (False, s) \<Rightarrow> replies (ErrorString ''ERR invalid password'') s))\<rparr>"

definition SelectCommand :: Command where
  "SelectCommand = \<lparr>cmd_Name = ''SELECT'', cmd_RequiresAuth = False,
     cmd_Validate = requireExactArgs 1,
     cmd_Execute = (\<lambda>ctx args s. andThen (arg args 0) (\<lambda>a0. case parseIntArg a0 ''invalid DB index'' of
         Inl e \<Rightarrow> fails e s
       | Inr dbIndex \<Rightarrow> (case ctx_SelectDB ctx of
           None \<Rightarrow> fails ''select DB not available'' s
         | Some select \<Rightarrow> (case select dbIndex s of
             (Some e, s) \<Rightarrow> fails e s
           | (None, s) \<Rightarrow> replies OK s))))\<rparr>"

definition PingCommand :: Command where
  "PingCommand = \<lparr>cmd_Name = ''PING'', cmd_RequiresAuth = False,
     cmd_Validate = (\<lambda>_. None),
     cmd_Execute = (\<lambda>ctx args s. if length args = 0 then replies (SimpleString ''PONG'') s
       else andThen (arg args 0) (\<lambda>a0. replies (bulk a0) s))\<rparr>"

definition EchoCommand :: Command where
  "EchoCommand = \<lparr>cmd_Name = ''ECHO'', cmd_RequiresAuth = False,
     cmd_Validate = (\<lambda>args. if length args < 1 then Some ErrWrongNumberOfArguments else None),
     cmd_Execute = (\<lambda>ctx args s. replies (bulk (Join args '' '')) s)\<rparr>"

definition QuitCommand :: Command where
  "QuitCommand = \<lparr>cmd_Name = ''QUIT'', cmd_RequiresAuth = False,
     cmd_Validate = (\<lambda>_. None),
     cmd_Execute = (\<lambda>ctx args s. replies OK s)\<rparr>"

definition InfoCommand :: Command where
  "InfoCommand = \<lparr>cmd_Name = ''INFO'', cmd_RequiresAuth = False,
     cmd_Validate = (\<lambda>_. None),
     cmd_Execute = (\<lambda>ctx args s. case ctx_Info ctx of
         None \<Rightarrow> replies (bulk []) s
       | Some info \<Rightarrow> replies (bulk (info s)) s)\<rparr>"

text \<open>The reply to \<open>CLIENT INFO\<close> and \<open>CLIENT LIST\<close>.\<close>

definition client_info :: "Context \<Rightarrow> Server \<Rightarrow> execution" where
  "client_info ctx s = (case ctx_GetConnInfo ctx of
     None \<Rightarrow> replies (bulk []) s
   | Some info \<Rightarrow> replies (bulk (info s)) s)"

definition client_execute :: "Context \<Rightarrow> string list \<Rightarrow> Server \<Rightarrow> execution" where
  "client_execute ctx args s = andThen (arg args 0) (\<lambda>sub.
     if ToUpper sub = ''SETNAME'' then
       (if length args \<noteq> 2 then replies (ErrorString ''ERR syntax error.'') s
        else andThen (arg args 1) (\<lambda>name.
          if list_ex (\<lambda>c. c \<in> {CHR '' '', CHR 0x0A, CHR 0x0D}) name
          then replies (ErrorString
            ''ERR Client names cannot contain spaces, newlines or special characters.'') s
          else replies OK (ctx_SetConnName ctx name s)))
     else if ToUpper sub = ''GETNAME'' then
       (if ctx_GetConnName ctx s = [] then replies (ctx_Nil ctx) s
        else replies (bulk (ctx_GetConnName ctx s)) s)
     else if ToUpper sub = ''ID'' then replies (Integer (ctx_GetConnID ctx s)) s
     else if ToUpper sub = ''INFO'' then client_info ctx s
     else if ToUpper sub = ''LIST'' then client_info ctx s
     else if ToUpper sub = ''NO-EVICT'' \<or> ToUpper sub = ''NO-TOUCH'' then
       (if length args \<noteq> 2 then replies (ErrorString ''ERR syntax error'') s
        else andThen (arg args 1) (\<lambda>a1. if ToUpper a1 = ''ON'' \<or> ToUpper a1 = ''OFF'' then replies OK s
          else replies (ErrorString ''ERR syntax error'') s))
     else replies (ErrorString (''ERR unknown subcommand '' @ [CHR 0x27] @ sub @ ''.'' @ [CHR 0x27])) s)"

definition ClientCommand :: Command where
  "ClientCommand = \<lparr>cmd_Name = ''CLIENT'', cmd_RequiresAuth = False,
     cmd_Validate = (\<lambda>args. if length args < 1 then Some ErrWrongNumberOfArguments else None),
     cmd_Execute = client_execute\<rparr>"

definition ConfigCommand :: Command where
  "ConfigCommand = \<lparr>cmd_Name = ''CONFIG'', cmd_RequiresAuth = False,
     cmd_Validate = (\<lambda>args. if length args < 1 then Some ErrWrongNumberOfArguments else None),
     cmd_Execute = (\<lambda>ctx args s. andThen (arg args 0) (\<lambda>sub.
       if ToUpper sub = ''GET'' then replies (arr []) s
       else if ToUpper sub = ''SET'' then replies OK s
       else if ToUpper sub = ''RESETSTAT'' then replies OK s
       else replies (ErrorString (''ERR unknown subcommand '' @ [CHR 0x27] @ sub @ ''.'' @ [CHR 0x27])) s))\<rparr>"

definition ReturnHello2 :: "Context \<Rightarrow> Server \<Rightarrow> RESPValue" where
  "ReturnHello2 ctx s = arr [
     bulk ''server'', bulk ''goodiesdb'',
     bulk ''version'', bulk (ctx_GetVersion ctx s),
     bulk ''proto'', Integer (ctx_ProtocolVersion ctx),
     bulk ''id'', Integer (ctx_GetConnID ctx s),
     bulk ''mode'', bulk ''standalone'',
     bulk ''role'', bulk ''master'',
     bulk ''modules'', arr []]"

definition HelloCommand :: Command where
  "HelloCommand = \<lparr>cmd_Name = ''HELLO'', cmd_RequiresAuth = False,
     cmd_Validate = (\<lambda>args. if 1 < length args then Some ErrWrongNumberOfArguments else None),
     cmd_Execute = (\<lambda>ctx args s. if length args = 0 then replies (ReturnHello2 ctx s) s
       else andThen (arg args 0) (\<lambda>a0.
         if ToUpper a0 = ''2'' then replies (ReturnHello2 ctx s) s
         else if ToUpper a0 = ''3'' then
           replies (ErrorString ''NOPROTO this server does not support RESP3'') s
         else replies (ErrorString
           ''ERR Protocol version is not supported or command arguments are not correct.'') s))\<rparr>"

section \<open>Publish and subscribe\<close>

definition modeSubscriber :: int where "modeSubscriber = 1"
definition modeNormal :: int where "modeNormal = 0"

text \<open>The confirmation of one subscription or its removal.\<close>

definition confirmation :: "string \<Rightarrow> string option \<Rightarrow> int \<Rightarrow> RESPValue" where
  "confirmation kind name count = arr [bulk kind, BulkString name, Integer count]"

text \<open>
  The loops over the arguments. \<open>UNSUBSCRIBE\<close> and \<open>PUNSUBSCRIBE\<close> have the same loop over a
  different method of the broker.
\<close>

fun subscribe_loop :: "(PubSubBroker \<Rightarrow> conn \<Rightarrow> string \<Rightarrow> int \<times> PubSubBroker) \<Rightarrow> string \<Rightarrow> Context \<Rightarrow>
    string list \<Rightarrow> Server \<Rightarrow> Server" where
  "subscribe_loop f kind ctx [] s = s"
| "subscribe_loop f kind ctx (name # names) s =
     (let (count, b') = f (srv_broker s) (ctx_Conn ctx) name;
          s = ctx_Write ctx (confirmation kind (Some name) count) (set_broker (ctx_Conn ctx) b' s)
      in subscribe_loop f kind ctx names s)"

fun unsubscribe_loop :: "(PubSubBroker \<Rightarrow> conn \<Rightarrow> string \<Rightarrow> (int \<times> PubSubBroker) outcome) \<Rightarrow> string \<Rightarrow>
    Context \<Rightarrow> string list \<Rightarrow> Server \<Rightarrow> Server outcome" where
  "unsubscribe_loop f kind ctx [] s = Ret s"
| "unsubscribe_loop f kind ctx (name # names) s =
     andThen (f (srv_broker s) (ctx_Conn ctx) name) (\<lambda>(remaining, b').
       let s = ctx_Write ctx (confirmation kind (Some name) remaining) (set_broker (ctx_Conn ctx) b' s);
           s = (if remaining = 0 then ctx_SetMode ctx modeNormal s else s)
       in unsubscribe_loop f kind ctx names s)"

text \<open>Without arguments: all subscriptions of the connection end, with one confirmation.\<close>

definition unsubscribe_all :: "string \<Rightarrow> Context \<Rightarrow> Server \<Rightarrow> execution" where
  "unsubscribe_all kind ctx s = andThen (UnsubscribeAll (srv_broker s) (ctx_Conn ctx)) (\<lambda>b'.
     let s = ctx_Write ctx (confirmation kind None 0) (set_broker (ctx_Conn ctx) b' s)
     in Ret (Inr None, ctx_SetMode ctx modeNormal s))"

definition SubscribeCommand :: Command where
  "SubscribeCommand = \<lparr>cmd_Name = ''SUBSCRIBE'', cmd_RequiresAuth = False,
     cmd_Validate = (\<lambda>args. if length args < 1
       then Some ''wrong number of arguments for 'subscribe' command''
       else None),
     cmd_Execute = (\<lambda>ctx args s. Ret (Inr None,
       ctx_SetMode ctx modeSubscriber (subscribe_loop Subscribe ''subscribe'' ctx args s)))\<rparr>"

definition PSubscribeCommand :: Command where
  "PSubscribeCommand = \<lparr>cmd_Name = ''PSUBSCRIBE'', cmd_RequiresAuth = False,
     cmd_Validate = (\<lambda>args. if length args < 1
       then Some ''wrong number of arguments for 'psubscribe' command''
       else None),
     cmd_Execute = (\<lambda>ctx args s. Ret (Inr None,
       ctx_SetMode ctx modeSubscriber (subscribe_loop PSubscribe ''psubscribe'' ctx args s)))\<rparr>"

definition UnsubscribeCommand :: Command where
  "UnsubscribeCommand = \<lparr>cmd_Name = ''UNSUBSCRIBE'', cmd_RequiresAuth = False,
     cmd_Validate = (\<lambda>_. None),
     cmd_Execute = (\<lambda>ctx args s. if length args = 0 then unsubscribe_all ''unsubscribe'' ctx s
       else andThen (unsubscribe_loop Unsubscribe ''unsubscribe'' ctx args s) (\<lambda>s. Ret (Inr None, s)))\<rparr>"

definition PUnsubscribeCommand :: Command where
  "PUnsubscribeCommand = \<lparr>cmd_Name = ''PUNSUBSCRIBE'', cmd_RequiresAuth = False,
     cmd_Validate = (\<lambda>_. None),
     cmd_Execute = (\<lambda>ctx args s. if length args = 0 then unsubscribe_all ''punsubscribe'' ctx s
       else andThen (unsubscribe_loop PUnsubscribe ''punsubscribe'' ctx args s) (\<lambda>s. Ret (Inr None, s)))\<rparr>"

definition PublishCommand :: Command where
  "PublishCommand = \<lparr>cmd_Name = ''PUBLISH'', cmd_RequiresAuth = False,
     cmd_Validate = (\<lambda>args. if length args \<noteq> 2
       then Some ''wrong number of arguments for 'publish' command''
       else None),
     cmd_Execute = (\<lambda>ctx args s. andThen (arg args 0) (\<lambda>channel. andThen (arg args 1) (\<lambda>msg.
       andThen (Publish (env_glob (ctx_env ctx)) (env_conns (ctx_env ctx)) (env_patterns (ctx_env ctx))
           (srv_broker s) channel msg) (\<lambda>(n, b').
         replies (Integer n) (s\<lparr>srv_broker := b'\<rparr>)))))\<rparr>"

lemmas conn_commands [cmd_defs] = AuthCommand_def SelectCommand_def PingCommand_def EchoCommand_def
  QuitCommand_def InfoCommand_def client_info_def client_execute_def ClientCommand_def
  ConfigCommand_def ReturnHello2_def HelloCommand_def modeSubscriber_def modeNormal_def
  confirmation_def unsubscribe_all_def SubscribeCommand_def PSubscribeCommand_def
  UnsubscribeCommand_def PUnsubscribeCommand_def PublishCommand_def

end
