(* ===== verification/Registry.thy ===== *)
theory Registry
  imports CommandsData CommandsHash CommandsConn
begin

text \<open>
  The table of commands (\<open>internal/core/command/registry.go\<close>): a map from names to command
  objects, filled once by \<open>NewRegistry\<close> and only read afterwards.
\<close>

type_synonym Registry = "(string, Command) fmap"

definition Register :: "Command \<Rightarrow> Registry \<Rightarrow> Registry" where
  "Register cmd r = fmupd (cmd_Name cmd) cmd r"

definition Registry_Get :: "Registry \<Rightarrow> string \<Rightarrow> Command option" where
  "Registry_Get r name = fmlookup r (ToUpper name)"

text \<open>The commands in the order in which they are registered.\<close>

definition all_commands :: "Command list" where
  "all_commands = [GetCommand, SetCommand, DelCommand, ExistsCommand, ExpireCommand, IncrCommand,
     DecrCommand, TTLCommand, SetNXCommand, TypeCommand, StrLenCommand, GetRangeCommand,
     LPushCommand, RPushCommand, LRangeCommand, LTrimCommand, LPopCommand, RPopCommand,
     HSetCommand, HGetCommand, HGetAllCommand, HDelCommand, HExistsCommand, HLenCommand,
     HMGetCommand, HKeysCommand, HValsCommand, AuthCommand, SelectCommand, RenameCommand,
     KeysCommand, InfoCommand, PingCommand, EchoCommand, QuitCommand, FlushDBCommand,
     FlushAllCommand, ScanCommand, SubscribeCommand, UnsubscribeCommand, PublishCommand,
     PSubscribeCommand, PUnsubscribeCommand, ClientCommand, ConfigCommand, HelloCommand]"

definition NewRegistry :: Registry where
  "NewRegistry = fold Register all_commands fmempty"

section \<open>Lookup\<close>

lemma Register_lookup [simp]:
  "fmlookup (Register cmd r) name = (if name = cmd_Name cmd then Some cmd else fmlookup r name)"
  by (auto simp: Register_def)

lemma fold_Register_notin:
  "name \<notin> set (map cmd_Name cmds) \<Longrightarrow> fmlookup (fold Register cmds r) name = fmlookup r name"
  by (induction cmds arbitrary: r) auto

lemma fold_Register_lookup:
  "distinct (map cmd_Name cmds) \<Longrightarrow>
    fmlookup (fold Register cmds r) name =
      (case map_of (map (\<lambda>c. (cmd_Name c, c)) cmds) name of None \<Rightarrow> fmlookup r name | Some c \<Rightarrow> Some c)"
  by (induction cmds arbitrary: r) (auto simp: fold_Register_notin split: option.splits dest!: map_of_SomeD)

lemma command_names:
  "map cmd_Name all_commands = [''GET'', ''SET'', ''DEL'', ''EXISTS'', ''EXPIRE'', ''INCR'', ''DECR'',
     ''TTL'', ''SETNX'', ''TYPE'', ''STRLEN'', ''GETRANGE'', ''LPUSH'', ''RPUSH'', ''LRANGE'', ''LTRIM'',
     ''LPOP'', ''RPOP'', ''HSET'', ''HGET'', ''HGETALL'', ''HDEL'', ''HEXISTS'', ''HLEN'', ''HMGET'',
     ''HKEYS'', ''HVALS'', ''AUTH'', ''SELECT'', ''RENAME'', ''KEYS'', ''INFO'', ''PING'', ''ECHO'',
     ''QUIT'', ''FLUSHDB'', ''FLUSHALL'', ''SCAN'', ''SUBSCRIBE'', ''UNSUBSCRIBE'', ''PUBLISH'',
     ''PSUBSCRIBE'', ''PUNSUBSCRIBE'', ''CLIENT'', ''CONFIG'', ''HELLO'']"
  by (simp add: all_commands_def data_commands hash_commands conn_commands)

lemma command_names_distinct: "distinct (map cmd_Name all_commands)"
  by (simp add: command_names)

lemma Registry_Get_NewRegistry:
  "Registry_Get NewRegistry name = map_of (map (\<lambda>c. (cmd_Name c, c)) all_commands) (ToUpper name)"
  by (simp add: Registry_Get_def NewRegistry_def fold_Register_lookup [OF command_names_distinct]
      split: option.splits)

lemma Registry_Get_member:
  "Registry_Get NewRegistry name = Some cmd \<Longrightarrow> cmd \<in> set all_commands \<and> cmd_Name cmd = ToUpper name"
  unfolding Registry_Get_NewRegistry by (auto dest!: map_of_SomeD)

lemma Registry_Get_command:
  assumes "cmd \<in> set all_commands" and "ToUpper name = cmd_Name cmd"
  shows "Registry_Get NewRegistry name = Some cmd"
  unfolding Registry_Get_NewRegistry assms(2)
  by (rule map_of_is_SomeI) (use assms(1) command_names_distinct in \<open>auto simp: comp_def\<close>)

lemma command_by_name:
  "cmd \<in> set all_commands \<Longrightarrow> cmd' \<in> set all_commands \<Longrightarrow> cmd_Name cmd = cmd_Name cmd' \<Longrightarrow> cmd = cmd'"
  using command_names_distinct unfolding distinct_map by (blast dest: inj_onD)

lemma no_command_requires_auth: "cmd \<in> set all_commands \<Longrightarrow> \<not> cmd_RequiresAuth cmd"
  by (auto simp: all_commands_def data_commands hash_commands conn_commands)

end
