(* ===== verification/Rdb.thy ===== *)
theory Rdb
  imports StoreCore
begin

text \<open>
  Snapshots (\<open>internal/persistence/rdb/rdb.go\<close>). \<open>encoding/gob\<close> is a pair of functions that the
  definitions take as arguments: the encoder gives the bytes it wrote and its error, the decoder
  the databases or an error. What the program relies on is that the decoder inverts the encoder
  (\<open>gob_inverse\<close>). Creating the file truncates it; a file that cannot be opened is an error.
\<close>

type_synonym gob_encoder = "database list \<Rightarrow> string \<times> goerror option"
type_synonym gob_decoder = "string \<Rightarrow> goerror + database list"
type_synonym file_system_result = "goerror + string"

text \<open>The error of \<open>SaveSnapshot\<close> and the contents of the file afterwards.\<close>

definition SaveSnapshot :: "gob_encoder \<Rightarrow> goerror option \<Rightarrow> Store \<Rightarrow> file_system_result \<Rightarrow>
    goerror option \<times> file_system_result" where
  "SaveSnapshot enc create s old = (let data = GetSnapshot s in
     case create of
       Some e \<Rightarrow> (Some e, old)
     | None \<Rightarrow> (let (bytes, e) = enc data in (e, Inr bytes)))"

definition LoadSnapshot :: "gob_decoder \<Rightarrow> Store \<Rightarrow> file_system_result \<Rightarrow> goerror option \<times> Store" where
  "LoadSnapshot dec s file = (case file of
     Inl e \<Rightarrow> (Some e, s)
   | Inr bytes \<Rightarrow> (case dec bytes of
       Inl e \<Rightarrow> (Some e, s)
     | Inr d \<Rightarrow> (None, RestoreFromSnapshot s d)))"

definition gob_inverse :: "gob_encoder \<Rightarrow> gob_decoder \<Rightarrow> bool" where
  "gob_inverse enc dec \<longleftrightarrow> (\<forall>d bytes. enc d = (bytes, None) \<longrightarrow> dec bytes = Inr d)"

lemmas rdb_defs = SaveSnapshot_def LoadSnapshot_def GetSnapshot_def RestoreFromSnapshot_def

section \<open>The copy of a database\<close>

lemma copy_into_empty: "fmempty ++\<^sub>f db = db"
  by simp

lemma GetSnapshot_data: "GetSnapshot s = data s"
  by (simp add: GetSnapshot_def)

lemma load_saved:
  assumes "gob_inverse enc dec" and "SaveSnapshot enc create s old = (None, new)"
  shows "LoadSnapshot dec t new = (None, t\<lparr>data := data s\<rparr>)"
  using assms
  by (auto simp: rdb_defs gob_inverse_def Let_def split: option.splits prod.splits)

lemma save_fails:
  assumes "SaveSnapshot enc create s old = (Some e, new)"
  shows "create = Some e \<and> new = old \<or> (create = None \<and> snd (enc (data s)) = Some e)"
  using assms by (auto simp: rdb_defs Let_def split: option.splits prod.splits)

end
