(* ===== verification/Server.thy ===== *)
theory Server
  imports Registry Rdb
begin

text \<open>
  The request loop (\<open>internal/core/server/server.go\<close>): from the bytes a client sends to the
  execution of a command and the bytes of its reply. One iteration of the loop of \<open>handleConn\<close> is
  \<open>handle_turn\<close>; \<open>handleConn\<close> serves a whole input without interruption, and \<open>server_step\<close>
  interleaves the iterations of all connections with the goroutines that write.
\<close>

section \<open>Requests\<close>

text \<open>
  \<open>fmt.Sprintf("%v", x)\<close> of a protocol value. A \<open>BulkString\<close> is a byte slice, which prints as the
  list of its bytes; the entries of a map are in the order in which they are printed.
\<close>

fun resp_text :: "RESPValue \<Rightarrow> string" where
  "resp_text (SimpleString s) = s"
| "resp_text (ErrorString s) = s"
| "resp_text (Integer i) = Itoa i"
| "resp_text (BulkString b) = ''['' @ Join (map (\<lambda>c. Itoa (of_char c)) (case b of None \<Rightarrow> [] | Some bs \<Rightarrow> bs)) '' '' @ '']''"
| "resp_text (Array None) = ''[]''"
| "resp_text (Array (Some vs)) = ''['' @ Join (map resp_text vs) '' '' @ '']''"
| "resp_text (RMap kvs) = ''map['' @ Join (map (\<lambda>(k, v). resp_text k @ '':'' @ resp_text v) kvs) '' '' @ '']''"
| "resp_text (RSet vs) = ''['' @ Join (map resp_text vs) '' '' @ '']''"
| "resp_text (RBoolean b) = (if b then ''true'' else ''false'')"
| "resp_text (RDouble d) = (case d of F64 t \<Rightarrow> t)"
| "resp_text (BigNumber s) = s"
| "resp_text Null = ''{}''"
| "resp_text (RPush vs) = ''['' @ Join (map resp_text vs) '' '' @ '']''"

definition part_text :: "RESPValue \<Rightarrow> string" where
  "part_text v = (case v of
     BulkString None \<Rightarrow> []
   | BulkString (Some bs) \<Rightarrow> bs
   | SimpleString s \<Rightarrow> s
   | _ \<Rightarrow> resp_text v)"

definition convertArrayToStrings :: "RESPValue list option \<Rightarrow> string list" where
  "convertArrayToStrings rawParts = (case rawParts of None \<Rightarrow> [] | Some vs \<Rightarrow> map part_text vs)"

text \<open>The name of a request as the check of the subscriber mode reads it.\<close>

definition request_name :: "RESPValue \<Rightarrow> string" where
  "request_name v = (case v of
     Array (Some (BulkString bs # _)) \<Rightarrow> ToUpper (case bs of None \<Rightarrow> [] | Some b \<Rightarrow> b)
   | _ \<Rightarrow> [])"

definition allowedInSubMode :: "string \<Rightarrow> bool" where
  "allowedInSubMode name \<longleftrightarrow>
     name \<in> {''SUBSCRIBE'', ''UNSUBSCRIBE'', ''PSUBSCRIBE'', ''PUNSUBSCRIBE'', ''PING'', ''QUIT''}"

section \<open>Executing a command\<close>

text \<open>The closures \<open>invokeCommand\<close> gives to a command.\<close>

definition conn_info :: "string \<Rightarrow> conn \<Rightarrow> Server \<Rightarrow> string" where
  "conn_info addr c s = (case fmlookup (connections s) c of None \<Rightarrow> []
     | Some cn \<Rightarrow> ''id='' @ Itoa (conn_id cn) @ '' addr='' @ addr @ '' name='' @ conn_name cn @
         '' db='' @ Itoa (conn_dbIndex cn))"

definition conn_context :: "Env \<Rightarrow> conn \<Rightarrow> int \<Rightarrow> Context" where
  "conn_context env c dbIndex = \<lparr>ctx_DBIndex = dbIndex, ctx_Conn = c, ctx_env = env,
     ctx_Nil = EncodeNil,
     ctx_Auth = Some (Authenticate c),
     ctx_SelectDB = Some (SelectDb c),
     ctx_Info = Some Server_Info,
     ctx_ProtocolVersion = ProtocolVersion,
     ctx_GetVersion = (\<lambda>s. cfg_Version (srv_config s)),
     ctx_GetConnID = (\<lambda>s. case fmlookup (connections s) c of None \<Rightarrow> 0 | Some cn \<Rightarrow> conn_id cn),
     ctx_GetConnName = (\<lambda>s. case fmlookup (connections s) c of None \<Rightarrow> [] | Some cn \<Rightarrow> conn_name cn),
     ctx_SetConnName = (\<lambda>name. update_conn c (\<lambda>cn. cn\<lparr>conn_name := name\<rparr>)),
     ctx_GetConnInfo = Some (conn_info (env_addr env) c),
     ctx_Write = write_value c,
     ctx_SetMode = SetMode c\<rparr>"

definition invokeCommand :: "Env \<Rightarrow> Command \<Rightarrow> string list \<Rightarrow> conn \<Rightarrow> int \<Rightarrow> Server \<Rightarrow> execution" where
  "invokeCommand env cmd args c dbIndex s = (case cmd_Validate cmd args of
     Some e \<Rightarrow> replies (ErrorString (''ERR '' @ e)) s
   | None \<Rightarrow>
       if cmd_RequiresAuth cmd \<and> \<not> isAuthenticates s c
       then replies (ErrorString ''NOAUTH Authentication required'') s
       else cmd_Execute cmd (conn_context env c dbIndex) args s)"

definition executeCommand :: "Registry \<Rightarrow> Env \<Rightarrow> conn \<Rightarrow> RESPValue \<Rightarrow> Server \<Rightarrow> execution" where
  "executeCommand reg env c request s = (case request of
     Array rawParts \<Rightarrow> (case convertArrayToStrings rawParts of
         [] \<Rightarrow> replies (SimpleString []) s
       | name # args \<Rightarrow> (case Registry_Get reg (ToUpper name) of
           Some cmd \<Rightarrow> invokeCommand env cmd args c (getCurrentDb s c) s
         | None \<Rightarrow> replies (ErrorString (''ERR unknown command '' @ [CHR 0x27] @ name @ [CHR 0x27])) s))
   | _ \<Rightarrow> fails (''expected array, got '' @ go_type request) s)"

section \<open>The loop of a connection\<close>

definition conn_mode_of :: "Server \<Rightarrow> conn \<Rightarrow> ConnMode" where
  "conn_mode_of s c = (case fmlookup (connections s) c of None \<Rightarrow> ModeNormal | Some cn \<Rightarrow> conn_mode cn)"

definition open_conn :: "conn \<Rightarrow> Server \<Rightarrow> Server" where
  "open_conn c s = (let n = wrap64 (connCounter s + 1)
     in s\<lparr>connCounter := n, connections := fmupd c (newConn\<lparr>conn_id := n\<rparr>) (connections s)\<rparr>)"

text \<open>The deferred function of \<open>handleConn\<close>.\<close>

definition end_conn :: "conn \<Rightarrow> Server \<Rightarrow> Server outcome" where
  "end_conn c s = andThen (UnsubscribeAll (srv_broker s) c) (\<lambda>b'.
     let s = set_broker c b' s;
         s = s\<lparr>connections := fmdrop c (connections s)\<rparr>
     in Ret (close_conn c s))"

definition subscriber_pong :: string where
  "subscriber_pong = ''*3'' @ CRLF @ ''$4'' @ CRLF @ ''pong'' @ CRLF @ ''$0'' @ CRLF @ CRLF"

text \<open>The part of the loop behind a parsed request.\<close>

definition answer :: "Registry \<Rightarrow> Env \<Rightarrow> conn \<Rightarrow> RESPValue \<Rightarrow> Server \<Rightarrow> Server outcome" where
  "answer reg env c v s = andThen (executeCommand reg env c v s) (\<lambda>(r, s). case r of
     Inl e \<Rightarrow> Ret (write_value c (ErrorString (''ERR '' @ e)) s)
   | Inr None \<Rightarrow> Ret s
   | Inr (Some reply) \<Rightarrow> Ret (write_value c reply s))"

definition handle_request :: "Registry \<Rightarrow> Env \<Rightarrow> conn \<Rightarrow> RESPValue \<Rightarrow> Server \<Rightarrow> Server outcome" where
  "handle_request reg env c v s =
     (if conn_mode_of s c = ModeSubscriber \<and> \<not> allowedInSubMode (request_name v)
      then Ret (write_value c (ErrorString ''ERR Command not allowed in subscribe mode'') s)
      else if conn_mode_of s c = ModeSubscriber \<and> request_name v = ''PING''
      then Ret (write_bytes c subscriber_pong s)
      else answer reg env c v s)"

text \<open>One iteration: the rest of the input, or \<open>None\<close> when the loop has ended.\<close>

definition handle_turn :: "Registry \<Rightarrow> Env \<Rightarrow> conn \<Rightarrow> string \<Rightarrow> Server \<Rightarrow> (string option \<times> Server) outcome" where
  "handle_turn reg env c input s = andThen (Parse input) (\<lambda>(r, rest). case r of
     Inl e \<Rightarrow>
       if e = ''EOF'' then andThen (end_conn c s) (\<lambda>s. Ret (None, s))
       else Ret (Some rest, write_value c (ErrorString (''parse error: '' @ e)) s)
   | Inr v \<Rightarrow> andThen (handle_request reg env c v s) (\<lambda>s. Ret (Some rest, s)))"

lemma handle_turn_Some:
  assumes "handle_turn reg env c input s = Ret (Some rest, s')"
  obtains (bad) e where "Parse input = Ret (Inl e, rest)" and "e \<noteq> ''EOF''"
      and "s' = write_value c (ErrorString (''parse error: '' @ e)) s"
    | (good) v where "Parse input = Ret (Inr v, rest)" and "handle_request reg env c v s = Ret s'"
proof -
  from assms obtain x r where x: "Parse input = Ret (x, r)"
    by (auto simp: handle_turn_def andThen_eq_Ret)
  show thesis
  proof (cases x)
    case (Inl e)
    with assms x that(1) [of e] show thesis
      by (cases "e = ''EOF''") (simp_all add: handle_turn_def andThen_eq_Ret)
  next
    case (Inr v)
    with assms x that(2) [of v] show thesis by (simp add: handle_turn_def andThen_eq_Ret)
  qed
qed

lemma handle_turn_None:
  assumes "handle_turn reg env c input s = Ret (None, s')"
  shows "end_conn c s = Ret s'"
proof -
  from assms obtain x r where x: "Parse input = Ret (x, r)"
    by (auto simp: handle_turn_def andThen_eq_Ret)
  with assms show ?thesis
    by (cases x) (auto simp: handle_turn_def andThen_eq_Ret split: if_splits)
qed

lemma handle_turn_consumes: "handle_turn reg env c input s = Ret (Some rest, s') \<Longrightarrow> length rest < length input"
  by (erule handle_turn_Some; cases input; use Parse_consumes [of input] in \<open>fastforce simp: io_EOF_def\<close>)

function handle_loop :: "Registry \<Rightarrow> (nat \<Rightarrow> Env) \<Rightarrow> nat \<Rightarrow> conn \<Rightarrow> string \<Rightarrow> Server \<Rightarrow> Server outcome" where
  "handle_loop reg env n c input s = andThen (handle_turn reg (env n) c input s) (\<lambda>(r, s). case r of
     None \<Rightarrow> Ret s
   | Some rest \<Rightarrow> handle_loop reg env (Suc n) c rest s)"
  by pat_completeness auto
termination
  by (relation "measure (\<lambda>(reg, env, n, c, input, s). length input)")
     (auto dest: handle_turn_consumes)

declare handle_loop.simps [simp del]

definition handleConn :: "Registry \<Rightarrow> (nat \<Rightarrow> Env) \<Rightarrow> conn \<Rightarrow> string \<Rightarrow> Server \<Rightarrow> Server outcome" where
  "handleConn reg env c input s = handle_loop reg env 0 c input (open_conn c s)"

section \<open>Start and shutdown\<close>

text \<open>
  \<open>recoverStore\<close>: the snapshot first, the log only when there is no readable snapshot. The two
  files are given by the result of opening them.
\<close>

definition recoverStore :: "gob_decoder \<Rightarrow> (nat \<Rightarrow> time) \<Rightarrow> file_system_result \<Rightarrow> file_system_result \<Rightarrow>
    Server \<Rightarrow> Server outcome" where
  "recoverStore dec clk rdbFile aofFile s =
     (let (s, flagOk) =
        (if cfg_UseRDB (srv_config s) then
           (case LoadSnapshot dec (srv_store s) rdbFile of
              (Some e, st) \<Rightarrow> (s\<lparr>srv_store := st\<rparr>, False)
            | (None, st) \<Rightarrow> (s\<lparr>srv_store := st\<rparr>, True))
         else (s, False))
      in if cfg_UseAOF (srv_config s) \<and> \<not> flagOk
         then andThen (RebuildStoreFromAOF clk (srv_store s) aofFile) (\<lambda>(_, st). Ret (s\<lparr>srv_store := st\<rparr>))
         else Ret s)"

text \<open>Listening on the address succeeds; the loop that accepts connections is part of \<open>server_step\<close>.\<close>

definition Start :: "gob_decoder \<Rightarrow> (nat \<Rightarrow> time) \<Rightarrow> file_system_result \<Rightarrow> file_system_result \<Rightarrow> Server \<Rightarrow>
    Server outcome" where
  "Start dec clk rdbFile aofFile s =
     andThen (if cfg_UseRDB (srv_config s) \<or> cfg_UseAOF (srv_config s)
       then recoverStore dec clk rdbFile aofFile s else Ret s)
     (\<lambda>s. Ret (s\<lparr>listening := True\<rparr>))"

text \<open>One round of \<open>startRDB\<close>: a snapshot when a minute has passed, the end after a shutdown.\<close>

definition startRDB_round :: "gob_encoder \<Rightarrow> goerror option \<Rightarrow> Server \<Rightarrow> file_system_result \<Rightarrow>
    file_system_result option" where
  "startRDB_round enc create s file = (if shutdownClosed s then None
     else Some (snd (SaveSnapshot enc create (srv_store s) file)))"

text \<open>\<open>Shutdown\<close> closes the log channel, which panics when it is closed already, and saves a snapshot.\<close>

definition Shutdown :: "gob_encoder \<Rightarrow> goerror option \<Rightarrow> file_system_result \<Rightarrow> Server \<Rightarrow>
    (file_system_result \<times> Server) outcome" where
  "Shutdown enc create rdbFile s =
     (let s = stopAcceptLoop s in
      andThen (if cfg_UseAOF (srv_config s) then
          (case aofChan (srv_store s) of
             None \<Rightarrow> Ret s
           | Some ch \<Rightarrow> andThen (chan_close ch) (\<lambda>ch'. Ret (s\<lparr>srv_store := (srv_store s)\<lparr>aofChan := Some ch'\<rparr>\<rparr>)))
        else Ret s)
      (\<lambda>s. Ret (if cfg_UseRDB (srv_config s)
          then snd (SaveSnapshot enc create (srv_store s) rdbFile) else rdbFile, s)))"

section \<open>All goroutines together\<close>

text \<open>
  The server with the unread input of every running handler and the two files. A step is a new
  connection, one iteration of a handler, a message written by the goroutine of a subscriber, a
  logged command taken and written by \<open>AOFWriter\<close>, or a round of \<open>startRDB\<close>. Two commands on the data give
  up the lock of the store between two of its methods, and other handlers can run there: \<open>SETNX\<close>, which has
  found no value and is about to set one, and \<open>GET\<close>, which has read a value that has expired since and is about to
  delete the key. A handler in the middle of one of them is in a \<open>phase\<close>, with the request taken from its
  input.
\<close>

datatype phase = Storing int string string | Deleting int string

text \<open>
  The order in which a Go map is ranged over is any order; the one an environment gives to
  \<open>PUBLISH\<close> has to be an order of the maps of the broker.
\<close>

definition request_parts :: "RESPValue \<Rightarrow> string list" where
  "request_parts v = (case v of Array vs \<Rightarrow> convertArrayToStrings vs | _ \<Rightarrow> [])"

definition orders_match :: "Env \<Rightarrow> Server \<Rightarrow> RESPValue \<Rightarrow> bool" where
  "orders_match env s v \<longleftrightarrow> (case request_parts v of
     name # channel # _ \<Rightarrow> ToUpper name = ''PUBLISH'' \<longrightarrow>
       publish_orders (srv_broker s) channel (env_conns env) (env_patterns env)
   | _ \<Rightarrow> True)"

record World =
  w_server :: Server
  w_inputs :: "(conn, string) fmap"
  w_aof :: string
  w_rdb :: file_system_result
  w_phases :: "(conn, phase) fmap"

inductive server_step :: "Registry \<Rightarrow> gob_encoder \<Rightarrow> World \<Rightarrow> World \<Rightarrow> bool" for reg enc where
  accept: "listening (w_server w) \<Longrightarrow> fmlookup (w_inputs w) c = None \<Longrightarrow> c |\<notin>| closedConns (w_server w) \<Longrightarrow>
    server_step reg enc w (w\<lparr>w_server := open_conn c (w_server w), w_inputs := fmupd c input (w_inputs w)\<rparr>)"
| request: "fmlookup (w_inputs w) c = Some input \<Longrightarrow> fmlookup (w_phases w) c = None \<Longrightarrow>
    (\<And>v r. Parse input = Ret (Inr v, r) \<Longrightarrow> orders_match env (w_server w) v) \<Longrightarrow>
    handle_turn reg env c input (w_server w) = Ret (Some rest, s') \<Longrightarrow>
    server_step reg enc w (w\<lparr>w_server := s', w_inputs := fmupd c rest (w_inputs w)\<rparr>)"
| check_setnx: "fmlookup (w_inputs w) c = Some input \<Longrightarrow> fmlookup (w_phases w) c = None \<Longrightarrow>
    Parse input = Ret (Inr v, rest) \<Longrightarrow> request_parts v = [name, k, val] \<Longrightarrow> ToUpper name = ''SETNX'' \<Longrightarrow>
    conn_mode_of (w_server w) c = ModeNormal \<Longrightarrow> i = getCurrentDb (w_server w) c \<Longrightarrow>
    setnx_check (srv_store (w_server w)) now i k = Ret False \<Longrightarrow>
    server_step reg enc w (w\<lparr>w_inputs := fmupd c rest (w_inputs w), w_phases := fmupd c (Storing i k val) (w_phases w)\<rparr>)"
| store_setnx: "fmlookup (w_phases w) c = Some (Storing i k val) \<Longrightarrow>
    setnx_store (srv_store (w_server w)) now i k val = Ret (n, st) \<Longrightarrow>
    server_step reg enc w (w\<lparr>w_server := write_value c (Integer n) ((w_server w)\<lparr>srv_store := st\<rparr>),
      w_phases := fmdrop c (w_phases w)\<rparr>)"
| see_expired: "fmlookup (w_inputs w) c = Some input \<Longrightarrow> fmlookup (w_phases w) c = None \<Longrightarrow>
    Parse input = Ret (Inr v, rest) \<Longrightarrow> request_parts v = [name, k] \<Longrightarrow> ToUpper name = ''GET'' \<Longrightarrow>
    conn_mode_of (w_server w) c = ModeNormal \<Longrightarrow> i = getCurrentDb (w_server w) c \<Longrightarrow>
    Store_Get (srv_store (w_server w)) now i k = Ret (Some val) \<Longrightarrow> IsExpired now' val \<Longrightarrow>
    server_step reg enc w (w\<lparr>w_inputs := fmupd c rest (w_inputs w), w_phases := fmupd c (Deleting i k) (w_phases w)\<rparr>)"
| delete_expired: "fmlookup (w_phases w) c = Some (Deleting i k) \<Longrightarrow>
    Store_Delete (srv_store (w_server w)) i k = Ret st \<Longrightarrow>
    server_step reg enc w (w\<lparr>w_server := write_value c EncodeNil ((w_server w)\<lparr>srv_store := st\<rparr>),
      w_phases := fmdrop c (w_phases w)\<rparr>)"
| leave: "fmlookup (w_inputs w) c = Some input \<Longrightarrow> fmlookup (w_phases w) c = None \<Longrightarrow>
    handle_turn reg env c input (w_server w) = Ret (None, s') \<Longrightarrow>
    server_step reg enc w (w\<lparr>w_server := s', w_inputs := fmdrop c (w_inputs w)\<rparr>)"
| deliver: "server_step reg enc w (w\<lparr>w_server := writer_step c (w_server w)\<rparr>)"
| drain: "server_step reg enc w (w\<lparr>w_server := drain_step (w_server w)\<rparr>)"
| written: "cfg_UseAOF (srv_config (w_server w)) \<Longrightarrow>
    take_pending (srv_store (w_server w)) = (cmds, st) \<Longrightarrow> AOFWriter cmds (w_aof w) = (bytes, None) \<Longrightarrow>
    server_step reg enc w (w\<lparr>w_server := (w_server w)\<lparr>srv_store := st\<rparr>, w_aof := bytes\<rparr>)"
| snapshot: "cfg_UseRDB (srv_config (w_server w)) \<Longrightarrow>
    startRDB_round enc create (w_server w) (w_rdb w) = Some contents \<Longrightarrow>
    server_step reg enc w (w\<lparr>w_rdb := contents\<rparr>)"

inductive_cases server_stepE: "server_step reg enc w w'"

definition reachable :: "Registry \<Rightarrow> gob_encoder \<Rightarrow> World \<Rightarrow> World \<Rightarrow> bool" where
  "reachable reg enc = (server_step reg enc)\<^sup>*\<^sup>*"

lemmas server_defs [cmd_defs] = part_text_def convertArrayToStrings_def request_name_def
  allowedInSubMode_def conn_info_def conn_context_def invokeCommand_def executeCommand_def
  conn_mode_of_def open_conn_def end_conn_def subscriber_pong_def answer_def handle_request_def
  handle_turn_def recoverStore_def Start_def startRDB_round_def Shutdown_def

end
