(* ===== verification/ServerSpec.thy ===== *)
theory ServerSpec
  imports Server
begin

text \<open>
  The invariant of the server and its preservation by every request: no command panics on a
  request that reached it (with one exception, the overflow in \<open>SCAN\<close>), the log channel stays open, the store well
  formed, the database index of every connection valid, the subscriber mode of a connection in
  step with its subscriptions, and the goroutine that writes published messages runs exactly for
  the subscribed connections.
\<close>

section \<open>The invariant\<close>

definition conn_ok :: "PubSubBroker \<Rightarrow> conn \<Rightarrow> Conn \<Rightarrow> bool" where
  "conn_ok b c cn \<longleftrightarrow> 0 \<le> conn_dbIndex cn \<and> conn_dbIndex cn < 16 \<and>
     (conn_mode cn = ModeSubscriber \<longleftrightarrow> topics b c \<noteq> {})"

definition server_ok :: "Server \<Rightarrow> bool" where
  "server_ok s \<longleftrightarrow> good 0 (srv_store s) \<and> broker_ok (srv_broker s) \<and>
     (\<forall>c cn. fmlookup (connections s) c = Some cn \<longrightarrow> conn_ok (srv_broker s) c cn) \<and>
     (\<forall>c. fmlookup (connections s) c = None \<longrightarrow> topics (srv_broker s) c = {}) \<and>
     (\<forall>c. c |\<in>| writing s \<longleftrightarrow> topics (srv_broker s) c \<noteq> {})"

text \<open>A command keeps the invariant and the set of connections.\<close>

definition kept :: "Server \<Rightarrow> Server \<Rightarrow> bool" where
  "kept s s' \<longleftrightarrow> server_ok s' \<and> fmdom (connections s') = fmdom (connections s)"

abbreviation exec_ok :: "Server \<Rightarrow> execution \<Rightarrow> bool" where
  "exec_ok s m \<equiv> safely m (\<lambda>(r, s'). kept s s')"

lemma good_0: "good i s \<Longrightarrow> good 0 s"
  by (simp add: good_def wf_store_valid)

lemma good_index: "good 0 s \<Longrightarrow> 0 \<le> i \<Longrightarrow> i < 16 \<Longrightarrow> good i s"
  by (simp add: good_def wf_store_valid)

lemma server_ok_writes [simp]:
  "server_ok (write_bytes c bs s) = server_ok s" "server_ok (write_value c v s) = server_ok s"
  "connections (write_bytes c bs s) = connections s" "connections (write_value c v s) = connections s"
  by (simp_all add: server_ok_def write_value_def write_bytes_def)

lemma kept_writes [simp]:
  "kept s (write_bytes c bs s') = kept s s'" "kept s (write_value c v s') = kept s s'"
  by (simp_all add: kept_def)

lemma kept_store: "kept s s' \<Longrightarrow> good i st \<Longrightarrow> kept s (s'\<lparr>srv_store := st\<rparr>)"
  using good_0 by (auto simp: kept_def server_ok_def)

lemma kept_good: "kept s s' \<Longrightarrow> 0 \<le> i \<Longrightarrow> i < 16 \<Longrightarrow> good i (srv_store s')"
  by (auto simp: kept_def server_ok_def good_index)

lemma server_good: "server_ok s \<Longrightarrow> 0 \<le> i \<Longrightarrow> i < 16 \<Longrightarrow> good i (srv_store s)"
  by (simp add: server_ok_def good_index)

lemma kept_refl: "server_ok s \<Longrightarrow> kept s s"
  by (simp add: kept_def)

section \<open>Reading commands\<close>

lemma safely_reads:
  assumes "good i s"
  shows "safely (Store_Get s now i k) (\<lambda>_. True)"
    and "safely (Store_StrLen s now i k) (\<lambda>_. True)"
    and "safely (Store_Exists s now i ks) (\<lambda>_. True)"
    and "safely (Store_TTL s now i k) (\<lambda>_. True)"
    and "safely (Store_Type s i k) (\<lambda>_. True)"
    and "safely (Store_Keys re s i pat order) (\<lambda>_. True)"
    and "safely (read_hash s now i k) (\<lambda>_. True)"
  using assms safely_exists_loop [OF assms]
  unfolding Store_Get_def Store_StrLen_def Store_TTL_def Store_Type_def Store_Keys_def read_hash_def
    Store_Exists_def
  by (auto intro!: safely_andThen [OF safely_lookup] split: option.splits sum.splits goval.splits)
     (simp_all add: good_def db_at_def)

lemma safely_ranges:
  assumes "good i s"
  shows "safely (Store_GetRange s now i k a b) (\<lambda>_. True)"
    and "safely (Store_LRange s now i k a b) (\<lambda>_. True)"
  using assms unfolding Store_GetRange_def Store_LRange_def Let_def
  by (auto intro!: safely_andThen [OF safely_lookup] safely_andThen [OF safely_go_slice]
      dest!: clamp_range_bounds split: option.splits sum.splits goval.splits prod.splits)

lemma safely_hash_reads:
  assumes "good i s"
  shows "safely (Store_HGet s now i k f) (\<lambda>_. True)"
    and "safely (Store_HGetAll s now i k) (\<lambda>_. True)"
    and "safely (Store_HExists s now i k f) (\<lambda>_. True)"
    and "safely (Store_HLen s now i k) (\<lambda>_. True)"
    and "safely (Store_HMGet s now i k fs) (\<lambda>_. True)"
    and "safely (Store_HKeys s now i k order) (\<lambda>_. True)"
    and "safely (Store_HVals s now i k order) (\<lambda>_. True)"
  unfolding Store_HGet_def Store_HGetAll_def Store_HExists_def Store_HLen_def Store_HMGet_def
    Store_HKeys_def Store_HVals_def andThen_assoc
  by (rule safely_andThen [OF safely_reads(7) [OF assms]]; simp split: sum.splits option.splits)+

text \<open>The window of \<open>SCAN\<close> is in range unless the sum of cursor and count overflows.\<close>

lemma safely_Scan:
  assumes "good i s" and "0 < count" and "cursor + count \<le> max_int"
  shows "safely (Store_Scan re s now i cursor pat count order) (\<lambda>_. True)"
proof -
  have "wrap64 (cursor + count) = cursor + count" if "0 \<le> cursor"
    using that assms(2,3) by (intro wrap64_id) (simp add: int_bounds)
  with assms(1,2) show ?thesis
    unfolding Store_Scan_def Let_def
    by (auto simp: db_at_def good_def intro!: safely_andThen [OF safely_go_slice] split: sum.splits)
qed

lemmas reads_ok = safely_reads [THEN safely_andThen] safely_ranges [THEN safely_andThen]
  safely_hash_reads [THEN safely_andThen] 

section \<open>Rules for the bodies of commands\<close>

lemma safely_replies: "kept s s' \<Longrightarrow> exec_ok s (replies v s')"
  by (simp add: replies_def)

lemma safely_fails: "kept s s' \<Longrightarrow> exec_ok s (fails e s')"
  by (simp add: fails_def)

lemma safely_arg: "n < length args \<Longrightarrow> safely (f (args ! n)) P \<Longrightarrow> safely (andThen (arg args n) f) P"
  by (simp add: arg_def)

lemma safely_args_from:
  "n \<le> length args \<Longrightarrow> safely (f (drop n args)) P \<Longrightarrow> safely (andThen (args_from args n) f) P"
  by (simp add: args_from_def)

lemma safely_on_store:
  assumes "kept s s'" and "safely (f (srv_store s')) (\<lambda>(r, st). good i st)"
    and "\<And>r s''. kept s s'' \<Longrightarrow> safely (k (r, s'')) P"
  shows "safely (andThen (on_store f s') k) P"
  using assms kept_store [OF assms(1)] by (cases "f (srv_store s')") (auto simp: on_store_def)

lemma safely_no_result: "safely m (good i) \<Longrightarrow> safely (no_result m) (\<lambda>(r, s). good i s)"
  by (cases m) (simp_all add: no_result_def)

lemmas body_rules = safely_replies safely_fails safely_arg safely_args_from reads_ok

section \<open>The commands\<close>

definition command_ok :: "Command \<Rightarrow> bool" where
  "command_ok cmd \<longleftrightarrow> (\<forall>env c i args s. server_ok s \<longrightarrow> c |\<in>| fmdom (connections s) \<longrightarrow> 0 \<le> i \<longrightarrow> i < 16 \<longrightarrow>
     cmd_Validate cmd args = None \<longrightarrow> exec_ok s (cmd_Execute cmd (conn_context env c i) args s))"

lemma context_simps [simp]:
  "ctx_DBIndex (conn_context env c i) = i" "ctx_Conn (conn_context env c i) = c"
  "ctx_env (conn_context env c i) = env" "ctx_Write (conn_context env c i) = write_value c"
  "ctx_SetMode (conn_context env c i) = SetMode c" "ctx_Auth (conn_context env c i) = Some (Authenticate c)"
  "ctx_SelectDB (conn_context env c i) = Some (SelectDb c)"
  "ctx_Info (conn_context env c i) = Some Server_Info"
  "ctx_GetConnInfo (conn_context env c i) = Some (conn_info (env_addr env) c)"
  by (simp_all add: conn_context_def)

lemmas writes_ok = safely_Set safely_SetNX safely_Expire safely_add_step safely_LPush safely_RPush
  safely_LPop safely_RPop safely_LTrim safely_Rename safely_HSet safely_HDel safely_FlushDb
  safely_FlushAll safely_no_result [OF safely_Del] safely_no_result [OF safely_delKey]

lemma read_commands_ok:
  "command_ok GetRangeCommand" "command_ok StrLenCommand" "command_ok ExistsCommand" "command_ok TTLCommand"
  "command_ok TypeCommand" "command_ok KeysCommand" "command_ok LRangeCommand"
  "command_ok HGetCommand" "command_ok HGetAllCommand" "command_ok HExistsCommand" "command_ok HLenCommand"
  "command_ok HMGetCommand" "command_ok HKeysCommand" "command_ok HValsCommand"
  unfolding command_ok_def data_commands hash_commands
  by (auto simp: requireExactArgs_def requireKeyWithFields_def requireMinArgs_def kept_refl
      split: if_splits sum.splits option.splits intro!: body_rules server_good)

lemma write_rule:
  assumes "server_ok s" and "\<And>st. good i st \<Longrightarrow> safely (f st) (\<lambda>(r, st'). good i st')"
    and "0 \<le> i" and "i < 16" and "\<And>r s'. kept s s' \<Longrightarrow> safely (k (r, s')) P"
  shows "safely (andThen (on_store f s) k) P"
  by (rule safely_on_store [where s = s and i = i])
    (use assms in \<open>simp_all add: kept_refl server_good\<close>)

lemma write_commands_ok:
  "command_ok SetCommand" "command_ok SetNXCommand" "command_ok IncrCommand" "command_ok DecrCommand"
  "command_ok DelCommand" "command_ok ExpireCommand" "command_ok RenameCommand" "command_ok FlushDBCommand"
  "command_ok LPushCommand" "command_ok RPushCommand" "command_ok HDelCommand" "command_ok FlushAllCommand"
  unfolding command_ok_def data_commands hash_commands Store_Incr_def Store_Decr_def
  by (auto simp: requireExactArgs_def requireKeyWithFields_def requireMinArgs_def
      split: if_splits sum.splits option.splits
      intro!: body_rules write_rule writes_ok kept_refl)

lemma LTrim_ok: "command_ok LTrimCommand"
  unfolding command_ok_def data_commands
  by (auto simp: requireExactArgs_def split: if_splits sum.splits option.splits
      intro!: body_rules kept_refl write_rule) (rule safely_LTrim)

lemma pop_commands_ok: "command_ok LPopCommand" "command_ok RPopCommand"
  unfolding command_ok_def data_commands
  by (auto split: if_splits sum.splits intro!: body_rules write_rule writes_ok kept_refl)

lemma Get_ok: "command_ok GetCommand"
  unfolding command_ok_def data_commands Store_Delete_def
  by (auto split: if_splits sum.splits option.splits
      intro!: body_rules write_rule writes_ok kept_refl server_good)

lemma field_value_loop_pairs: "even (length args) \<Longrightarrow> \<exists>m'. field_value_loop args m = Ret m'"
  by (induction args m rule: field_value_loop.induct) auto

lemma HSet_ok: "command_ok HSetCommand"
proof -
  have "exec_ok s (cmd_Execute HSetCommand (conn_context env c i) args s)"
    if "server_ok s" "0 \<le> i" "i < 16" "requireFieldValuePairs args = None" for env c i args s
  proof -
    have "3 \<le> length args" "odd (length args)"
      using that(4) by (simp_all add: requireFieldValuePairs_def odd_iff_mod_2_eq_one split: if_splits)
    then obtain m where "hashFieldValueArgs (drop 1 args) = Ret m"
      using field_value_loop_pairs [of "drop 1 args" fmempty] by (auto simp: hashFieldValueArgs_def)
    with that \<open>3 \<le> length args\<close> show ?thesis
      by (auto simp: HSetCommand_def split: sum.splits
          intro!: safely_arg safely_args_from write_rule safely_HSet safely_fails safely_replies kept_refl)
  qed
  then show ?thesis by (simp add: command_ok_def HSetCommand_def)
qed

text \<open>\<open>SCAN\<close> needs cursor and count to add up within 64 bits.\<close>

definition scan_fits :: "string list \<Rightarrow> bool" where
  "scan_fits args \<longleftrightarrow> (case args of [] \<Rightarrow> True
     | a # rest \<Rightarrow> (case (parseIntArg a [], scan_options rest [] 10) of
         (Inr cursor, Inr (_, count)) \<Rightarrow> cursor + count \<le> max_int
       | _ \<Rightarrow> True))"

lemma scan_options_count: "scan_options rest p n = Inr (q, count) \<Longrightarrow> 0 < n \<Longrightarrow> 0 < count"
  by (induction rest p n rule: scan_options.induct)
     (auto split: if_splits list.splits sum.splits)

lemma scan_options_pattern:
  "scan_options rest p n = Inr (q, count) \<Longrightarrow> \<exists>q'. scan_options rest p' n = Inr (q', count)"
  by (induction rest p n arbitrary: p' rule: scan_options.induct)
     (auto split: if_splits list.splits sum.splits)

lemma parseIntArg_msg: "parseIntArg a e = Inr n \<Longrightarrow> parseIntArg a e' = Inr n"
  by (auto simp: parseIntArg_def split: prod.splits option.splits)

lemma Scan_ok:
  assumes "server_ok s" and "0 \<le> i" and "i < 16" and "cmd_Validate ScanCommand args = None" and "scan_fits args"
  shows "exec_ok s (cmd_Execute ScanCommand (conn_context env c i) args s)"
proof -
  obtain a rest where args: "args = a # rest"
    using assms(4) by (cases args) (auto simp: ScanCommand_def requireMinArgs_def)
  have "cursor + count \<le> max_int \<and> 0 < count"
    if "parseIntArg a ''invalid cursor'' = Inr cursor" "scan_options rest ''*'' 10 = Inr (p, count)"
    for cursor p count
    using parseIntArg_msg [OF that(1), of "[]"] scan_options_pattern [OF that(2), of "[]"]
      scan_options_count [OF that(2)] assms(5) by (auto simp: scan_fits_def args)
  with assms(1-3) show ?thesis
    by (auto simp: ScanCommand_def args arg_def split: sum.splits
        intro!: safely_fails safely_replies kept_refl safely_andThen [OF safely_Scan] server_good)
qed

section \<open>Commands on the connection\<close>

lemma kept_update_conn:
  assumes "kept s s'" and "\<And>cn b. conn_ok b c cn \<Longrightarrow> conn_ok b c (f cn)"
  shows "kept s (update_conn c f s')"
proof (cases "fmlookup (connections s') c")
  case (Some cn)
  then have "c |\<in>| fmdom (connections s')" by (rule fmdomI)
  then have "finsert c (fmdom (connections s)) = fmdom (connections s)" 
    using assms(1) by (auto simp: kept_def)
  with assms Some show ?thesis by (auto simp: kept_def server_ok_def update_conn_def)
qed (use assms in \<open>simp add: update_conn_def\<close>)

lemma kept_Authenticate: "server_ok s \<Longrightarrow> Authenticate c p s = (b, s') \<Longrightarrow> kept s s'"
  by (auto simp: Authenticate_def conn_ok_def split: if_splits intro!: kept_update_conn kept_refl)

lemma kept_SelectDb: "server_ok s \<Longrightarrow> SelectDb c i s = (e, s') \<Longrightarrow> kept s s'"
  using server_good [of s 0]
  by (auto simp: SelectDb_def conn_ok_def Count_def good_def wf_store_def split: if_splits
      intro!: kept_update_conn kept_refl)

lemma conn_commands_ok:
  "command_ok AuthCommand" "command_ok SelectCommand" "command_ok PingCommand" "command_ok EchoCommand"
  "command_ok QuitCommand" "command_ok InfoCommand" "command_ok ConfigCommand" "command_ok HelloCommand"
  unfolding command_ok_def conn_commands
  by (auto simp: requireExactArgs_def split: if_splits sum.splits option.splits prod.splits bool.splits
      intro!: body_rules kept_refl intro: kept_Authenticate kept_SelectDb)

lemma Client_ok: "command_ok ClientCommand"
  unfolding command_ok_def ClientCommand_def client_execute_def client_info_def
  by (auto simp: conn_context_def conn_ok_def split: if_splits option.splits 
      intro!: body_rules kept_refl kept_update_conn)

section \<open>Publish and subscribe\<close>

lemma write_value_frame: "\<exists>o'. write_value c v s = s\<lparr>outputs := o'\<rparr>"
  by (cases s) (auto simp: write_value_def write_bytes_def)

lemma has_chan_topics: "broker_ok b \<Longrightarrow> has_chan b c \<longleftrightarrow> topics b c \<noteq> {}"
  by (simp add: broker_ok_def has_chan_def)

text \<open>The answers and the broker of \<open>SUBSCRIBE\<close> are those of the contract.\<close>

lemma subscribe_loop_frame:
  assumes "\<And>b n k b'. broker_ok b \<Longrightarrow> f b c n = (k, b') \<Longrightarrow> broker_ok b' \<and> topics b' c \<noteq> {}"
  shows "broker_ok (srv_broker s) \<Longrightarrow> \<exists>o'. subscribe_loop f kind (conn_context env c i) ns s =
    s\<lparr>srv_broker := snd (subscribe_each f (srv_broker s) c ns), outputs := o'\<rparr>"
proof (induction ns arbitrary: s)
  case Nil
  show ?case by (cases s) auto
next
  case (Cons n ns)
  obtain k b' where f: "f (srv_broker s) c n = (k, b')" by (cases "f (srv_broker s) c n")
  note b' = assms [OF Cons.prems f]
  then have "set_broker c b' s = s\<lparr>srv_broker := b'\<rparr>"
    by (auto simp: set_broker_def has_chan_topics)
  moreover obtain o1 where "write_value c (confirmation kind (Some n) k) (s\<lparr>srv_broker := b'\<rparr>) =
      s\<lparr>srv_broker := b', outputs := o1\<rparr>"
    using write_value_frame by blast
  moreover obtain o2 where "subscribe_loop f kind (conn_context env c i) ns (s\<lparr>srv_broker := b', outputs := o1\<rparr>) =
      s\<lparr>srv_broker := snd (subscribe_each f b' c ns), outputs := o2\<rparr>"
    using Cons.IH [of "s\<lparr>srv_broker := b', outputs := o1\<rparr>"] b' by auto
  ultimately show ?case using f by (auto simp: split_def Let_def)
qed

text \<open>A change of the broker that leaves nobody without subscriptions, and nobody with new ones.\<close>

lemma kept_same_subscribers:
  assumes "kept s s'" and "broker_ok b'" and "\<And>d. topics b' d = {} \<longleftrightarrow> topics (srv_broker s') d = {}"
  shows "kept s (s'\<lparr>srv_broker := b', outputs := o'\<rparr>)"
  using assms by (auto simp: kept_def server_ok_def conn_ok_def)

lemma subscriber_mode:
  assumes "server_ok s" and "c |\<in>| fmdom (connections s)" and "broker_ok b'"
    and "topics b' = (topics (srv_broker s))(c := A)" and "A \<noteq> {}"
  shows "kept s (SetMode c 1 (s\<lparr>srv_broker := b', outputs := o'\<rparr>))"
proof -
  from assms(2) obtain cn where cn: "fmlookup (connections s) c = Some cn" by (auto simp: fmlookup_dom_iff)
  have "fmlookup (connChans b') c \<noteq> None" using has_chan_topics [OF assms(3), of c] assms(4,5) by (simp add: has_chan_def)
  then obtain ch where ch: "GetConnChan b' c = Some ch" by (auto simp: GetConnChan_def)
  have dom: "finsert c (fmdom (connections s)) = fmdom (connections s)" using assms(2) by auto
  show ?thesis
  proof (cases "conn_mode cn = ModeSubscriber")
    case True
    with assms(1) cn have "topics (srv_broker s) c \<noteq> {}" by (auto simp: server_ok_def conn_ok_def)
    with assms show ?thesis
      by (auto simp: SetMode_def cn True intro!: kept_same_subscribers kept_refl split: if_splits)
  next
    case False
    with assms cn ch dom show ?thesis
      by (auto simp: SetMode_def update_conn_def kept_def server_ok_def conn_ok_def)
  qed
qed

lemma subscribe_kept:
  assumes "server_ok s" and "c |\<in>| fmdom (connections s)" and "names \<noteq> []"
    and "\<And>b n k b'. broker_ok b \<Longrightarrow> f b c n = (k, b') \<Longrightarrow> broker_ok b' \<and> topics b' c \<noteq> {}"
    and "\<And>ks b'. subscribe_each f (srv_broker s) c names = (ks, b') \<Longrightarrow> broker_ok b' \<and>
      topics b' = (topics (srv_broker s))(c := topics (srv_broker s) c \<union> T ` set names)"
  shows "kept s (SetMode c 1 (subscribe_loop f kind (conn_context env c i) names s))"
proof -
  have "broker_ok (srv_broker s)" using assms(1) by (simp add: server_ok_def)
  then have "\<exists>o'. subscribe_loop f kind (conn_context env c i) names s =
      s\<lparr>srv_broker := snd (subscribe_each f (srv_broker s) c names), outputs := o'\<rparr>"
    by (intro subscribe_loop_frame assms(4))
  then obtain o' where "subscribe_loop f kind (conn_context env c i) names s =
      s\<lparr>srv_broker := snd (subscribe_each f (srv_broker s) c names), outputs := o'\<rparr>" by blast
  with subscriber_mode [OF assms(1,2)] assms(3,5) show ?thesis
    by (cases "subscribe_each f (srv_broker s) c names") auto
qed

lemma Subscribe_some: "broker_ok b \<Longrightarrow> Subscribe b c n = (k, b') \<Longrightarrow> broker_ok b' \<and> topics b' c \<noteq> {}"
  by (drule (1) Subscribe_ok) simp

lemma PSubscribe_some: "broker_ok b \<Longrightarrow> PSubscribe b c n = (k, b') \<Longrightarrow> broker_ok b' \<and> topics b' c \<noteq> {}"
  by (drule (1) PSubscribe_ok) simp

lemma server_ok_broker: "server_ok s \<Longrightarrow> broker_ok (srv_broker s)"
  by (simp add: server_ok_def)

lemma subscribe_both:
  assumes "server_ok s" and "c |\<in>| fmdom (connections s)" and "names \<noteq> []"
  shows "kept s (SetMode c 1 (subscribe_loop Subscribe kind (conn_context env c i) names s))"
    and "kept s (SetMode c 1 (subscribe_loop PSubscribe kind (conn_context env c i) names s))"
  by (rule subscribe_kept [where T = Exact, OF assms Subscribe_some],
      assumption, assumption, use exact.subscribe_each_ok [OF server_ok_broker [OF assms(1)]] in blast)
     (rule subscribe_kept [where T = Glob, OF assms PSubscribe_some],
      assumption, assumption, use glob.subscribe_each_ok [OF server_ok_broker [OF assms(1)]] in blast)

lemma subscribe_commands_ok: "command_ok SubscribeCommand" "command_ok PSubscribeCommand"
  using subscribe_both
  by (simp_all add: command_ok_def SubscribeCommand_def PSubscribeCommand_def modeSubscriber_def)

text \<open>Losing subscriptions: the last one ends the subscriber mode and the writing goroutine.\<close>

lemma set_broker_writing:
  assumes "server_ok s" and "broker_ok b'" and "topics b' = (topics (srv_broker s))(c := A)"
    and "A \<subseteq> topics (srv_broker s) c"
  shows "\<exists>d'. set_broker c b' s = s\<lparr>srv_broker := b',
    writing := (if A = {} then writing s |-| {|c|} else writing s), draining := d'\<rparr>"
proof -
  have w: "c |\<in>| writing s \<longleftrightarrow> topics (srv_broker s) c \<noteq> {}"
    using assms(1) by (simp add: server_ok_def)
  have h: "has_chan (srv_broker s) c \<longleftrightarrow> topics (srv_broker s) c \<noteq> {}" "has_chan b' c \<longleftrightarrow> A \<noteq> {}"
    using has_chan_topics [OF server_ok_broker [OF assms(1)], of c] has_chan_topics [OF assms(2), of c]
      assms(3) by simp_all
  show ?thesis
  proof (cases "A = {} \<and> topics (srv_broker s) c \<noteq> {}")
    case True
    with w h show ?thesis
      by (intro exI [of _ "draining s @ [(c, queue (srv_broker s) c)]"]) (simp add: set_broker_def)
  next
    case False
    with assms(4) w have "(if A = {} then writing s |-| {|c|} else writing s) = writing s" by auto
    moreover have "set_broker c b' s = s\<lparr>srv_broker := b'\<rparr>"
      using False w h by (auto simp: set_broker_def)
    ultimately show ?thesis by (intro exI [of _ "draining s"]) simp
  qed
qed

lemma unsubscribe_step_kept:
  assumes "server_ok s" and "c |\<in>| fmdom (connections s)" and "broker_ok b'"
    and "topics b' = (topics (srv_broker s))(c := A)" and "A \<subseteq> topics (srv_broker s) c"
  shows "A = {} \<Longrightarrow> kept s (SetMode c 0 (write_value c v (set_broker c b' s)))"
    and "A \<noteq> {} \<Longrightarrow> kept s (write_value c v (set_broker c b' s))"
proof -
  from assms(2) obtain cn where cn: "fmlookup (connections s) c = Some cn" by (auto simp: fmlookup_dom_iff)
  from set_broker_writing [OF assms(1,3-5)] obtain d' where
    d': "set_broker c b' s = s\<lparr>srv_broker := b',
      writing := (if A = {} then writing s |-| {|c|} else writing s), draining := d'\<rparr>" by blast
  have dom: "finsert c (fmdom (connections s)) = fmdom (connections s)" using assms(2) by auto
  {
    assume "A = {}"
    with d' obtain o' where "write_value c v (set_broker c b' s) =
        s\<lparr>srv_broker := b', writing := writing s |-| {|c|}, draining := d', outputs := o'\<rparr>"
      using write_value_frame [of c v "set_broker c b' s"] by auto
    with assms \<open>A = {}\<close> cn dom show "kept s (SetMode c 0 (write_value c v (set_broker c b' s)))"
      by (simp add: SetMode_def update_conn_def kept_def server_ok_def conn_ok_def)
  }
  {
    assume "A \<noteq> {}"
    with d' obtain o' where "write_value c v (set_broker c b' s) =
        s\<lparr>srv_broker := b', draining := d', outputs := o'\<rparr>"
      using write_value_frame [of c v "set_broker c b' s"] by auto
    with assms \<open>A \<noteq> {}\<close> cn show "kept s (write_value c v (set_broker c b' s))"
      by (auto simp: kept_def server_ok_def conn_ok_def)
  }
qed

lemma kept_trans: "kept s s' \<Longrightarrow> kept s' s'' \<Longrightarrow> kept s s''"
  by (simp add: kept_def)

lemma unsubscribe_loop_kept:
  assumes f: "\<And>b n. broker_ok b \<Longrightarrow> \<exists>b'. f b c n = Ret (int (card (topics b' c)), b') \<and> broker_ok b' \<and>
    topics b' = (topics b)(c := topics b c - {T n})"
  shows "server_ok s \<Longrightarrow> c |\<in>| fmdom (connections s) \<Longrightarrow>
    safely (unsubscribe_loop f kind (conn_context env c i) names s) (kept s)"
proof (induction names arbitrary: s)
  case Nil
  then show ?case by (simp add: kept_refl)
next
  case (Cons n names)
  from f [OF server_ok_broker [OF Cons.prems(1)], of n] obtain b' where
    u: "f (srv_broker s) c n = Ret (int (card (topics b' c)), b')" and b': "broker_ok b'"
      and t: "topics b' = (topics (srv_broker s))(c := topics (srv_broker s) c - {T n})" by blast
  let ?A = "topics (srv_broker s) c - {T n}"
  let ?s = "write_value c (confirmation kind (Some n) (int (card (topics b' c)))) (set_broker c b' s)"
  have z: "int (card (topics b' c)) = 0 \<longleftrightarrow> ?A = {}"
    using t finite_topics [of b' c] by simp
  let ?s' = "if ?A = {} then SetMode c 0 ?s else ?s"
  have k: "kept s ?s'"
    using unsubscribe_step_kept [OF Cons.prems b' t] by auto
  then have "safely (unsubscribe_loop f kind (conn_context env c i) names ?s') (kept ?s')"
    using Cons.prems(2) by (intro Cons.IH) (simp_all add: kept_def)
  then have "safely (unsubscribe_loop f kind (conn_context env c i) names ?s') (kept s)"
    by (rule safely_mono) (rule kept_trans [OF k])
  with u z show ?case by (cases "?A = {}") (simp_all add: Let_def modeNormal_def)
qed

lemma unsubscribe_all_kept:
  assumes "server_ok s" and "c |\<in>| fmdom (connections s)"
  shows "exec_ok s (unsubscribe_all kind (conn_context env c i) s)"
proof -
  from UnsubscribeAll_ok [OF server_ok_broker [OF assms(1)], of c] obtain b' where
    "UnsubscribeAll (srv_broker s) c = Ret b'" "broker_ok b'" "topics b' = (topics (srv_broker s))(c := {})" by blast
  with unsubscribe_step_kept(1) [OF assms this(2,3)] show ?thesis
    by (simp add: unsubscribe_all_def Let_def modeNormal_def)
qed

lemma unsubscribe_commands_ok: "command_ok UnsubscribeCommand" "command_ok PUnsubscribeCommand"
  unfolding command_ok_def UnsubscribeCommand_def PUnsubscribeCommand_def
  by (auto intro!: unsubscribe_all_kept safely_andThen [OF unsubscribe_loop_kept [OF Unsubscribe_ok]]
      safely_andThen [OF unsubscribe_loop_kept [OF PUnsubscribe_ok]])

lemma Publish_command_ok:
  assumes "server_ok s" and "cmd_Validate PublishCommand args = None"
    and "\<And>channel rest. args = channel # rest \<Longrightarrow>
      publish_orders (srv_broker s) channel (env_conns env) (env_patterns env)"
  shows "exec_ok s (cmd_Execute PublishCommand (conn_context env c i) args s)"
proof -
  obtain ch msg where args: "args = [ch, msg]"
    using assms(2) by (auto simp: PublishCommand_def length_Suc_conv eval_nat_numeral split: if_splits)
  with Publish_ok [OF server_ok_broker [OF assms(1)], of ch "env_conns env" "env_patterns env" "env_glob env" msg]
    assms(3) [OF args] obtain k b' where
    "Publish (env_glob env) (env_conns env) (env_patterns env) (srv_broker s) ch msg = Ret (k, b')"
    "broker_ok b'" "topics b' = topics (srv_broker s)" by auto
  with assms(1) show ?thesis
    by (auto simp: PublishCommand_def args arg_def replies_def kept_def server_ok_def conn_ok_def)
qed

section \<open>Requests\<close>

definition scan_request_fits :: "RESPValue \<Rightarrow> bool" where
  "scan_request_fits v \<longleftrightarrow> (case request_parts v of
     name # args \<Rightarrow> ToUpper name = ''SCAN'' \<longrightarrow> scan_fits args
   | [] \<Rightarrow> True)"

lemma all_commands_ok:
  "cmd \<in> set all_commands \<Longrightarrow> cmd_Name cmd \<noteq> ''SCAN'' \<Longrightarrow> cmd_Name cmd \<noteq> ''PUBLISH'' \<Longrightarrow> command_ok cmd"
  by (auto simp: all_commands_def read_commands_ok write_commands_ok LTrim_ok pop_commands_ok Get_ok HSet_ok
      conn_commands_ok Client_ok subscribe_commands_ok unsubscribe_commands_ok)
     (simp_all add: ScanCommand_def PublishCommand_def)

lemma getCurrentDb_ok: "server_ok s \<Longrightarrow> 0 \<le> getCurrentDb s c \<and> getCurrentDb s c < 16"
  by (auto simp: getCurrentDb_def server_ok_def conn_ok_def split: option.splits)

text \<open>What a request runs: nothing that changes the server, or one command that accepts its arguments.\<close>

lemma executeCommand_cases [consumes 1]:
  assumes "server_ok s"
  obtains (reply) r where "executeCommand NewRegistry env c v s = Ret (r, s)"
    | (command) name args cmd where "request_parts v = name # args" and "cmd \<in> set all_commands"
      and "cmd_Name cmd = ToUpper name" and "cmd_Validate cmd args = None"
      and "executeCommand NewRegistry env c v s =
        cmd_Execute cmd (conn_context env c (getCurrentDb s c)) args s"
proof (cases "\<exists>vs name args cmd. v = Array vs \<and> convertArrayToStrings vs = name # args \<and>
    Registry_Get NewRegistry (ToUpper name) = Some cmd \<and> cmd_Validate cmd args = None")
  case False
  then have "\<exists>r. executeCommand NewRegistry env c v s = Ret (r, s)"
    by (auto simp: executeCommand_def invokeCommand_def replies_def fails_def
        split: RESPValue.splits list.splits option.splits)
  with reply show thesis by blast
next
  case True
  then obtain vs name args cmd where v: "v = Array vs" "convertArrayToStrings vs = name # args"
      and cmd: "Registry_Get NewRegistry (ToUpper name) = Some cmd" and valid: "cmd_Validate cmd args = None" by blast
  have mem: "cmd \<in> set all_commands" and name: "cmd_Name cmd = ToUpper name"
    using Registry_Get_member [OF cmd] by simp_all
  show thesis
    by (rule command [OF _ mem name valid])
      (use v cmd valid no_command_requires_auth [OF mem] in
        \<open>simp_all add: request_parts_def executeCommand_def invokeCommand_def\<close>)
qed

lemma named_command:
  assumes "cmd \<in> set all_commands"
  shows "cmd_Name cmd = ''SCAN'' \<Longrightarrow> cmd = ScanCommand" and "cmd_Name cmd = ''PUBLISH'' \<Longrightarrow> cmd = PublishCommand"
  by (intro command_by_name [OF assms]; simp add: all_commands_def; simp add: ScanCommand_def PublishCommand_def)+

lemma Scan_keeps: "if_returns (cmd_Execute ScanCommand ctx args s) (\<lambda>(r, s'). s' = s)"
  by (auto simp: ScanCommand_def replies_def fails_def split: sum.splits intro!: if_returns_any)

lemma command_runs_ok:
  assumes "server_ok s" and "c |\<in>| fmdom (connections s)" and "cmd \<in> set all_commands"
    and "cmd_Validate cmd args = None" and "cmd_Name cmd \<noteq> ''SCAN''"
    and "\<And>channel rest. cmd_Name cmd = ''PUBLISH'' \<Longrightarrow> args = channel # rest \<Longrightarrow>
      publish_orders (srv_broker s) channel (env_conns env) (env_patterns env)"
  shows "exec_ok s (cmd_Execute cmd (conn_context env c (getCurrentDb s c)) args s)"
proof (cases "cmd_Name cmd = ''PUBLISH''")
  case True
  with Publish_command_ok [OF assms(1), of args env c] assms(4,6) named_command(2) [OF assms(3)]
  show ?thesis by blast
next
  case False
  with all_commands_ok [OF assms(3,5)] assms(1,2,4) getCurrentDb_ok [OF assms(1), of c]
  show ?thesis by (auto simp: command_ok_def)
qed

lemma orders_matchD:
  "orders_match env s v \<Longrightarrow> request_parts v = name # channel # rest \<Longrightarrow> ToUpper name = ''PUBLISH'' \<Longrightarrow>
    publish_orders (srv_broker s) channel (env_conns env) (env_patterns env)"
  by (simp add: orders_match_def)

lemma executeCommand_ok:
  assumes "server_ok s" and "c |\<in>| fmdom (connections s)" and "orders_match env s v" and "scan_request_fits v"
  shows "exec_ok s (executeCommand NewRegistry env c v s)"
  using assms(1)
proof (cases rule: executeCommand_cases [where env = env and c = c and v = v])
  case (reply r)
  with assms(1) show ?thesis by (simp add: kept_refl)
next
  case (command name args cmd)
  show ?thesis
  proof (cases "cmd_Name cmd = ''SCAN''")
    case True
    with command assms(4) have "scan_fits args" by (simp add: scan_request_fits_def)
    with Scan_ok [OF assms(1), of "getCurrentDb s c" args env c] getCurrentDb_ok [OF assms(1), of c]
      named_command(1) [OF command(2) True] command(4,5) show ?thesis by simp
  next
    case False
    with command_runs_ok [OF assms(1,2) command(2,4), of env] orders_matchD [OF assms(3)] command
    show ?thesis by auto
  qed
qed

lemma executeCommand_kept:
  assumes "server_ok s" and "c |\<in>| fmdom (connections s)" and "orders_match env s v"
  shows "if_returns (executeCommand NewRegistry env c v s) (\<lambda>(r, s'). kept s s')"
  using assms(1)
proof (cases rule: executeCommand_cases [where env = env and c = c and v = v])
  case (reply r)
  with assms show ?thesis by (simp add: kept_refl)
next
  case (command name args cmd)
  show ?thesis
  proof (cases "cmd_Name cmd = ''SCAN''")
    case True
    with Scan_keeps [of "conn_context env c (getCurrentDb s c)" args s] named_command(1) [OF command(2)]
    have "if_returns (executeCommand NewRegistry env c v s) (\<lambda>(r, s'). s' = s)"
      by (simp add: command(5))
    with kept_refl [OF assms(1)] show ?thesis by (cases "executeCommand NewRegistry env c v s") auto
  next
    case False
    with command_runs_ok [OF assms(1,2) command(2,4), of env] orders_matchD [OF assms(3)] command
    show ?thesis by (auto intro!: safely_if_returns)
  qed
qed

lemma handle_request_ok:
  assumes "server_ok s" and "c |\<in>| fmdom (connections s)" and "orders_match env s v" and "scan_request_fits v"
  shows "safely (handle_request NewRegistry env c v s) (kept s)"
  using assms(1)
  by (auto simp: handle_request_def answer_def kept_refl split: sum.splits option.splits
      intro!: safely_andThen [OF executeCommand_ok [OF assms]])

lemma handle_request_kept:
  assumes "server_ok s" and "c |\<in>| fmdom (connections s)" and "orders_match env s v"
  shows "if_returns (handle_request NewRegistry env c v s) (kept s)"
  using assms(1)
  by (auto simp: handle_request_def answer_def kept_refl split: sum.splits option.splits
      intro!: if_returns_andThen [OF executeCommand_kept [OF assms]])

lemma end_conn_ok:
  assumes "server_ok s"
  shows "\<exists>s'. end_conn c s = Ret s' \<and> server_ok s' \<and> connections s' = fmdrop c (connections s) \<and>
    c |\<in>| closedConns s' \<and> topics (srv_broker s') = (topics (srv_broker s))(c := {})"
proof -
  from UnsubscribeAll_ok [OF server_ok_broker [OF assms], of c] obtain b' where
    b': "UnsubscribeAll (srv_broker s) c = Ret b'" "broker_ok b'" "topics b' = (topics (srv_broker s))(c := {})" by blast
  from set_broker_writing [OF assms b'(2,3)] obtain d' where
    "set_broker c b' s = s\<lparr>srv_broker := b', writing := writing s |-| {|c|}, draining := d'\<rparr>" by auto
  with assms b' show ?thesis
    by (auto simp: end_conn_def close_conn_def Let_def server_ok_def conn_ok_def)
qed

lemma open_conn_ok:
  "server_ok s \<Longrightarrow> fmlookup (connections s) c = None \<Longrightarrow> server_ok (open_conn c s)"
  by (auto simp: server_ok_def open_conn_def Let_def conn_ok_def newConn_def)

section \<open>All goroutines\<close>

text \<open>
  The invariant of the interleaved server: every handler that runs has its connection registered,
  and the server is well formed. The steps of handlers are restricted to requests that
  \<open>request_ok\<close> admits; the other steps need nothing.
\<close>

fun phase_db :: "phase \<Rightarrow> int" where
  "phase_db (Storing i k v) = i"
| "phase_db (Deleting i k) = i"

definition world_ok :: "World \<Rightarrow> bool" where
  "world_ok w \<longleftrightarrow> server_ok (w_server w) \<and> fmdom (w_inputs w) = fmdom (connections (w_server w)) \<and>
     fmpred (\<lambda>c p. 0 \<le> phase_db p \<and> phase_db p < 16) (w_phases w)"

lemma world_phase: "world_ok w \<Longrightarrow> fmlookup (w_phases w) c = Some p \<Longrightarrow> 0 \<le> phase_db p \<and> phase_db p < 16"
  unfolding world_ok_def by (blast dest: fmpredD)

lemma server_ok_written: "server_ok s \<Longrightarrow> good i st \<Longrightarrow>
    server_ok (write_value c v (s\<lparr>srv_store := st\<rparr>)) \<and> connections (write_value c v (s\<lparr>srv_store := st\<rparr>)) = connections s"
  using kept_store [OF kept_refl, of s i st] write_value_frame [of c v "s\<lparr>srv_store := st\<rparr>"]
  by (auto simp: kept_def server_ok_def)

lemma server_ok_queue:
  assumes "server_ok s" and "fmlookup (connChans (srv_broker s)) c = Some ch" and "chan_recv ch = Some (msg, ch')"
  shows "server_ok (s\<lparr>srv_broker := (srv_broker s)\<lparr>connChans := fmupd c ch' (connChans (srv_broker s))\<rparr>\<rparr>)"
proof -
  let ?b = "(srv_broker s)\<lparr>connChans := fmupd c ch' (connChans (srv_broker s))\<rparr>"
  have t: "topics ?b = topics (srv_broker s)" by simp
  have "ch_closed ch' = ch_closed ch \<and> ch_cap ch' = ch_cap ch \<and> length (ch_buf ch') \<le> length (ch_buf ch)"
    using assms(3) by (auto simp: chan_recv_def split: list.splits)
  moreover have "\<not> ch_closed ch \<and> ch_cap ch = pubsubDeliveryBufSize \<and> length (ch_buf ch) \<le> pubsubDeliveryBufSize"
    using assms(1,2) by (auto simp: server_ok_def broker_ok_def chans_ok_def)
  ultimately have "\<not> ch_closed ch' \<and> ch_cap ch' = pubsubDeliveryBufSize \<and> length (ch_buf ch') \<le> pubsubDeliveryBufSize"
    by simp
  then have "broker_ok ?b"
    using server_ok_broker [OF assms(1)] assms(2) by (auto simp: broker_ok_def chans_ok_def t)
  with assms(1) show ?thesis by (simp add: server_ok_def conn_ok_def t)
qed

lemma writer_step_ok: "server_ok s \<Longrightarrow> server_ok (writer_step c s) \<and> connections (writer_step c s) = connections s"
  by (auto simp: writer_step_def server_ok_queue split: option.splits)

lemma server_ok_draining [simp]: "server_ok (s\<lparr>draining := d\<rparr>) = server_ok s"
  by (simp add: server_ok_def)

lemma drain_step_ok: "server_ok s \<Longrightarrow> server_ok (drain_step s) \<and> connections (drain_step s) = connections s"
  by (auto simp: drain_step_def split: list.splits prod.splits)

lemma good_take_pending: "good 0 st \<Longrightarrow> take_pending st = (cmds, st') \<Longrightarrow> good 0 st'"
  by (auto simp: take_pending_def good_def wf_store_def valid_index_def aof_open_def chan_recv_def
      split: option.splits list.splits)

lemma handle_turn_ok:
  assumes "server_ok s" and "c |\<in>| fmdom (connections s)"
    and "\<And>v rest. Parse input = Ret (Inr v, rest) \<Longrightarrow> orders_match env s v"
    and "handle_turn NewRegistry env c input s = Ret (Some rest, s')"
  shows "kept s s'"
  using assms(4)
proof (cases rule: handle_turn_Some)
  case (bad e)
  with assms(1) show ?thesis by (simp add: kept_refl)
next
  case (good v)
  with handle_request_kept [OF assms(1,2) assms(3) [OF good(1)]] show ?thesis by simp
qed

lemma server_step_ok: "server_step NewRegistry enc w w' \<Longrightarrow> world_ok w \<Longrightarrow> world_ok w'"
proof (induction rule: server_step.induct)
  case (accept w c input)
  then have "fmlookup (connections (w_server w)) c = None"
    by (metis fmdom_notI fmdom_notD world_ok_def)
  with accept open_conn_ok [of "w_server w" c] show ?case
    by (auto simp: world_ok_def open_conn_def Let_def)
next
  case (request w c input env rest s')
  then have "c |\<in>| fmdom (w_inputs w)" by (auto simp: fmlookup_dom_iff)
  with request handle_turn_ok [OF _ _ request(3,4)] show ?case
    by (auto simp: world_ok_def kept_def)
next
  case (check_setnx w c input v rest name k val i now)
  then have "c |\<in>| fmdom (w_inputs w)" by (auto simp: fmlookup_dom_iff)
  with check_setnx getCurrentDb_ok [of "w_server w" c] show ?case by (auto simp: world_ok_def)
next
  case (store_setnx w c i k val now n st)
  have "good i (srv_store (w_server w))"
    using world_phase [OF store_setnx(3,1)] store_setnx(3) by (simp add: world_ok_def server_good)
  from safely_setnx_store [OF this, of now k val] store_setnx(2) have "good i st" by simp
  from server_ok_written [OF _ this, of "w_server w" c "Integer n"] store_setnx(3) show ?case by (simp add: world_ok_def fmpred_drop)
next
  case (see_expired w c input v rest name k i now val now')
  then have "c |\<in>| fmdom (w_inputs w)" by (auto simp: fmlookup_dom_iff)
  with see_expired getCurrentDb_ok [of "w_server w" c] show ?case by (auto simp: world_ok_def)
next
  case (delete_expired w c i k st)
  have "good i (srv_store (w_server w))"
    using world_phase [OF delete_expired(3,1)] delete_expired(3) by (simp add: world_ok_def server_good)
  from safely_delKey [OF this, of k] delete_expired(2) have "good i st" by (simp add: Store_Delete_def)
  from server_ok_written [OF _ this, of "w_server w" c EncodeNil] delete_expired(3) show ?case by (simp add: world_ok_def fmpred_drop)
next
  case (leave w c input env s')
  then have "end_conn c (w_server w) = Ret s'" by (intro handle_turn_None)
  with end_conn_ok [of "w_server w" c] leave show ?case by (auto simp: world_ok_def)
next
  case (deliver w c)
  with writer_step_ok [of "w_server w" c] show ?case by (simp add: world_ok_def)
next
  case (drain w)
  with drain_step_ok [of "w_server w"] show ?case by (simp add: world_ok_def)
next
  case (written w cmds st bytes)
  with good_take_pending [of "srv_store (w_server w)"] show ?case
    by (simp add: world_ok_def server_ok_def)
next
  case (snapshot w create contents)
  then show ?case by (simp add: world_ok_def)
qed

lemma reachable_ok: "reachable NewRegistry enc w w' \<Longrightarrow> world_ok w \<Longrightarrow> world_ok w'"
  unfolding reachable_def by (induction rule: rtranclp_induct) (auto intro: server_step_ok)

lemma start_ok: "server_ok (NewServer config)"
  using ready_NewStore [of 0] broker_ok_new
  by (simp add: server_ok_def NewServer_def ready_def)
     (simp add: topics_def newPubSubBroker_def subscribers_def)

end
