(* ===== verification/ServerFrame.thy ===== *)
theory ServerFrame
  imports ServerSpec
begin

text \<open>
  What every command has in common, without any assumption on the state: it touches no other
  connection, and its reply is a value the protocol can encode.
\<close>

section \<open>Encodable replies\<close>

definition encodable :: "RESPValue \<Rightarrow> bool" where
  "encodable v \<longleftrightarrow> snd (Encode v) = None"

lemma encode_elements_ok: "snd (encode_elements vs) = None \<longleftrightarrow> list_all encodable vs"
  by (induction vs) (auto simp: encodable_def split: prod.splits option.splits)

lemma encodable_simps [simp]:
  "encodable (SimpleString s)" "encodable (ErrorString s)" "encodable (Integer i)" "encodable (BulkString b)"
  "encodable (Array None)" "encodable (arr vs) = list_all encodable vs"
  by (auto simp: encodable_def encodeSimpleString_def encodeErrorString_def encodeInteger_def
      encodeBulkString_def encode_elements_ok [symmetric] split: option.splits prod.splits)

lemma encodable_bulks [simp]: "encodable (stringSliceToRESPArray xs)"
  by (simp add: stringSliceToRESPArray_def list_all_iff)

lemma encodable_hash [simp]: "encodable (hashToRESPArray m)"
  by (auto simp: hashToRESPArray_def list_all_iff)

lemma encodable_valueToRESP [simp]: "encodable (valueToRESP v)"
  by (induction v) (simp_all add: list_all_iff)

lemma encodable_OK [simp]: "encodable OK"
  by (simp add: OK_def)

lemma encodable_hello [simp]: "encodable (ReturnHello2 ctx s)"
  by (simp add: ReturnHello2_def)

section \<open>Other connections\<close>

definition apart :: "conn \<Rightarrow> Server \<Rightarrow> Server \<Rightarrow> bool" where
  "apart c s s' \<longleftrightarrow> srv_config s' = srv_config s \<and> closedConns s' = closedConns s \<and>
     (\<forall>d. d \<noteq> c \<longrightarrow> fmlookup (connections s') d = fmlookup (connections s) d \<and> output_of s' d = output_of s d)"

lemma apart_refl [simp]: "apart c s s"
  by (simp add: apart_def)

lemma apart_simps [simp]:
  "apart c s (s'\<lparr>srv_store := st\<rparr>) = apart c s s'" "apart c s (s'\<lparr>srv_broker := b\<rparr>) = apart c s s'"
  by (simp_all add: apart_def output_of_def)

lemma apart_write [simp]: "apart c s (write_bytes c bs s') = apart c s s'" 
  by (auto simp: apart_def write_bytes_def output_of_def)

lemma apart_write_value [simp]: "apart c s (write_value c v s') = apart c s s'"
  by (simp add: write_value_def)

lemma apart_update_conn [simp]: "apart c s (update_conn c f s') = apart c s s'"
  by (auto simp: apart_def update_conn_def output_of_def split: option.splits)

lemma apart_set_broker [simp]: "apart c s (set_broker c b s') = apart c s s'"
  by (auto simp: apart_def set_broker_def output_of_def)

lemma apart_SetMode [simp]: "apart c s (SetMode c m s') = apart c s s'"
proof -
  have "apart c s (s'\<lparr>writing := w\<rparr>) = apart c s s'" for w
    by (simp add: apart_def output_of_def)
  then show ?thesis by (simp add: SetMode_def split: option.splits)
qed

definition polite :: "conn \<Rightarrow> Server \<Rightarrow> execution \<Rightarrow> bool" where
  "polite c s m \<longleftrightarrow> if_returns m (\<lambda>(r, s'). apart c s s' \<and> (\<forall>v. r = Inr (Some v) \<longrightarrow> encodable v))"

lemma polite_replies [simp]: "polite c s (replies v s') \<longleftrightarrow> apart c s s' \<and> encodable v"
  by (simp add: polite_def replies_def)

lemma polite_fails [simp]: "polite c s (fails e s') \<longleftrightarrow> apart c s s'"
  by (simp add: polite_def fails_def)

lemma polite_silent [simp]: "polite c s (Ret (Inr None, s')) \<longleftrightarrow> apart c s s'"
  by (simp add: polite_def)

lemma polite_andThen: "(\<And>x. polite c s (f x)) \<Longrightarrow> polite c s (andThen m f)"
  unfolding polite_def by (rule if_returns_any)

lemma polite_on_store:
  assumes "apart c s s'" and "\<And>r s''. apart c s s'' \<Longrightarrow> polite c s (k (r, s''))"
  shows "polite c s (andThen (on_store f s') k)"
proof (cases "f (srv_store s')")
  case (Ret x)
  with assms show ?thesis by (cases x) (simp add: on_store_def)
qed (simp_all add: on_store_def polite_def)

section \<open>The commands\<close>

definition command_polite :: "Command \<Rightarrow> bool" where
  "command_polite cmd \<longleftrightarrow> (\<forall>env c i args s. polite c s (cmd_Execute cmd (conn_context env c i) args s))"

lemma context_more [simp]:
  "ctx_Nil (conn_context env c i) = BulkString None"
  "ctx_SetConnName (conn_context env c i) name = update_conn c (\<lambda>cn. cn\<lparr>conn_name := name\<rparr>)"
  by (simp_all add: conn_context_def EncodeNil_def)

lemma data_commands_polite: "list_all command_polite [GetCommand, SetCommand, SetNXCommand, GetRangeCommand,
  StrLenCommand, IncrCommand, DecrCommand, DelCommand, ExistsCommand, ExpireCommand, TTLCommand, TypeCommand,
  RenameCommand, KeysCommand, FlushDBCommand, FlushAllCommand, ScanCommand, LPushCommand, RPushCommand,
  LRangeCommand, LTrimCommand, LPopCommand, RPopCommand]"
  by (simp add: command_polite_def data_commands OK_def)
     ((rule conjI | rule allI | rule polite_on_store | rule polite_andThen
       | clarsimp simp: list_all_iff split: sum.splits option.splits)+)

lemma hash_commands_polite: "list_all command_polite [HSetCommand, HGetCommand, HGetAllCommand, HDelCommand,
  HExistsCommand, HLenCommand, HMGetCommand, HKeysCommand, HValsCommand]"
  by (simp add: command_polite_def hash_commands)
     ((rule conjI | rule allI | rule polite_on_store | rule polite_andThen
       | clarsimp simp: list_all_iff split: sum.splits option.splits)+)

lemma apart_Authenticate: "Authenticate c p s = (b, s') \<Longrightarrow> apart c s s'"
  by (auto simp: Authenticate_def split: if_splits)

lemma apart_SelectDb: "SelectDb c i s = (e, s') \<Longrightarrow> apart c s s'"
  by (auto simp: SelectDb_def split: if_splits)

lemma apart_subscribe_loop [simp]:
  "apart c s (subscribe_loop f kind (conn_context env c i) names s') = apart c s s'"
  by (induction names arbitrary: s') (simp_all add: split_def Let_def)

lemma apart_unsubscribe_loop:
  "apart c s s' \<Longrightarrow> if_returns (unsubscribe_loop f kind (conn_context env c i) names s') (apart c s)"
  by (induction names arbitrary: s') (auto simp: Let_def intro!: if_returns_any)

lemma conn_commands_polite: "list_all command_polite [AuthCommand, SelectCommand, PingCommand, EchoCommand,
  QuitCommand, InfoCommand, ConfigCommand, HelloCommand, PublishCommand]"
  by (simp add: command_polite_def conn_commands OK_def)
     ((rule conjI | rule allI | rule impI | rule polite_on_store | rule polite_andThen
       | clarsimp simp: list_all_iff apart_Authenticate apart_SelectDb
         split: sum.splits option.splits prod.splits bool.splits if_splits)+)

lemma polite_client_info [simp]: "polite c s (client_info (conn_context env c i) s)"
  by (simp add: client_info_def)

lemma client_polite: "command_polite ClientCommand"
  unfolding command_polite_def ClientCommand_def client_execute_def
  by (auto split: if_splits intro!: polite_andThen)

lemma subscription_commands_polite: "list_all command_polite [SubscribeCommand, PSubscribeCommand,
  UnsubscribeCommand, PUnsubscribeCommand]"
proof -
  have "polite c s (andThen (unsubscribe_loop f kind (conn_context env c i) names s) (\<lambda>s'. Ret (Inr None, s')))"
    for f kind env c i names s
    unfolding polite_def by (rule if_returns_andThen [OF apart_unsubscribe_loop]) simp_all
  moreover have "polite c s (unsubscribe_all kind (conn_context env c i) s)" for kind env c i s
    unfolding polite_def unsubscribe_all_def by (rule if_returns_any) (simp add: Let_def)
  ultimately show ?thesis
    by (simp add: command_polite_def SubscribeCommand_def PSubscribeCommand_def UnsubscribeCommand_def
        PUnsubscribeCommand_def)
qed

lemma all_commands_polite: "cmd \<in> set all_commands \<Longrightarrow> command_polite cmd"
  using data_commands_polite hash_commands_polite conn_commands_polite client_polite subscription_commands_polite
  unfolding all_commands_def by (simp only: list.pred_inject list.set insert_iff empty_iff) blast

section \<open>Requests\<close>

lemma executeCommand_polite: "polite c s (executeCommand NewRegistry env c v s)"
proof -
  have "polite c s (invokeCommand env cmd args c i s)" if "cmd \<in> set all_commands" for cmd args i
    using all_commands_polite [OF that]
    by (simp add: invokeCommand_def command_polite_def split: option.splits)
  then show ?thesis
    by (auto simp: executeCommand_def split: RESPValue.splits list.splits option.splits
        dest!: Registry_Get_member)
qed

lemma handle_request_apart: "if_returns (handle_request NewRegistry env c v s) (apart c s)"
  using executeCommand_polite [of c s env v]
  by (auto simp: handle_request_def answer_def polite_def split: sum.splits option.splits
      intro!: if_returns_andThen)

end
