(* ===== verification/Logging.thy ===== *)
theory Logging
  imports GoScan
begin

text \<open>
  The logger (\<open>internal/logging/logging.go\<close>): three ordered levels, the parser of their names and
  the filter in front of the output. The current level is passed explicitly. A message is given
  after formatting; the text of the error for an unknown name quotes the name with
  \<open>strconv.Quote\<close>, which is an argument since nothing reads that text.
\<close>

section \<open>Levels\<close>

datatype Level = LevelError | LevelInfo | LevelDebug

text \<open>The order of the underlying integers.\<close>

primrec level_int :: "Level \<Rightarrow> int" where
  "level_int LevelError = 0"
| "level_int LevelInfo = 1"
| "level_int LevelDebug = 2"

lemma level_int_inject [simp]: "level_int a = level_int b \<longleftrightarrow> a = b"
  by (cases a; cases b) simp_all

instantiation Level :: linorder
begin

definition less_eq_Level :: "Level \<Rightarrow> Level \<Rightarrow> bool" where
  "less_eq_Level a b \<longleftrightarrow> level_int a \<le> level_int b"

definition less_Level :: "Level \<Rightarrow> Level \<Rightarrow> bool" where
  "less_Level a b \<longleftrightarrow> level_int a < level_int b"

instance
  by standard (auto simp: less_eq_Level_def less_Level_def)

end

lemmas Level_order [simp] = less_eq_Level_def less_Level_def

section \<open>Names of levels\<close>

text \<open>\<open>strings.TrimSpace\<close>, on the list of runes with their bytes.\<close>

function runes :: "string \<Rightarrow> (nat \<times> string) list" where
  "runes s = (if s = [] then [] else
     (let (r, w) = decode_rune s in (r, take w s) # runes (drop w s)))"
  by pat_completeness auto
termination
proof (relation "measure length")
  fix s x r w
  assume "s \<noteq> []" and "x = decode_rune s" and "(r, w) = x"
  with decode_rune_width [of s] show "(drop w s, s) \<in> measure length" by (cases "decode_rune s") simp
qed simp

declare runes.simps [simp del]

definition TrimSpace :: "string \<Rightarrow> string" where
  "TrimSpace s = (let trim = dropWhile (\<lambda>(r, _). is_space r)
     in concat (map snd (rev (trim (rev (trim (runes s)))))))"

text \<open>
  \<open>strings.ToLower\<close>, as far as its caller can tell: the result is only compared with words of
  ASCII letters other than k. Letters of ASCII are lowered, and so is the capital I with a dot
  (bytes C4 B0), whose lower case is the letter i.
\<close>

definition lower_char :: "char \<Rightarrow> char" where
  "lower_char c = (if 65 \<le> (of_char c :: nat) \<and> (of_char c :: nat) \<le> 90
     then char_of (of_char c + 32 :: nat) else c)"

fun ToLower :: "string \<Rightarrow> string" where
  "ToLower [] = []"
| "ToLower [c] = [lower_char c]"
| "ToLower (c # d # cs) =
     (if c = CHR 0xC4 \<and> d = CHR 0xB0 then CHR ''i'' # ToLower cs
      else lower_char c # ToLower (d # cs))"

definition parseLevel :: "(string \<Rightarrow> string) \<Rightarrow> string \<Rightarrow> Level \<times> string option" where
  "parseLevel quote raw = (let name = ToLower (TrimSpace raw) in
     if name = [] \<or> name = ''info'' then (LevelInfo, None)
     else if name = ''debug'' then (LevelDebug, None)
     else if name = ''error'' then (LevelError, None)
     else (LevelInfo, Some (''invalid log level '' @ quote raw)))"

definition SetLevel :: "(string \<Rightarrow> string) \<Rightarrow> string \<Rightarrow> Level \<Rightarrow> string option \<times> Level" where
  "SetLevel quote raw current = (case parseLevel quote raw of
     (_, Some e) \<Rightarrow> (Some e, current)
   | (level, None) \<Rightarrow> (None, level))"

section \<open>Output\<close>

definition logf :: "Level \<Rightarrow> Level \<Rightarrow> string \<Rightarrow> string \<Rightarrow> string" where
  "logf current level label msg =
     (if \<not> level \<le> current then [] else ''['' @ label @ ''] '' @ msg @ [CHR 0x0A])"

definition Debugf :: "Level \<Rightarrow> string \<Rightarrow> string" where "Debugf current msg = logf current LevelDebug ''DEBUG'' msg"
definition Infof :: "Level \<Rightarrow> string \<Rightarrow> string" where "Infof current msg = logf current LevelInfo ''INFO'' msg"
definition Errorf :: "Level \<Rightarrow> string \<Rightarrow> string" where "Errorf current msg = logf current LevelError ''ERROR'' msg"

lemmas logging_defs = parseLevel_def SetLevel_def logf_def Debugf_def Infof_def Errorf_def

section \<open>Facts\<close>

lemma runes_ascii: "(of_char c :: nat) < 128 \<Longrightarrow> runes (c # s) = (of_char c, [c]) # runes s"
  by (subst runes.simps) (simp add: Let_def)

lemma runes_Nil [simp]: "runes [] = []"
  by (simp add: runes.simps)

lemma runes_ascii_all: "list_all (\<lambda>c. (of_char c :: nat) < 128) s \<Longrightarrow> runes s = map (\<lambda>c. (of_char c, [c])) s"
  by (induction s) (simp_all add: runes_ascii)

lemma TrimSpace_ascii:
  assumes "list_all (\<lambda>c. (of_char c :: nat) < 128) s"
  shows "TrimSpace s = rev (dropWhile (\<lambda>c. is_space (of_char c)) (rev (dropWhile (\<lambda>c. is_space (of_char c)) s)))"
  unfolding TrimSpace_def Let_def runes_ascii_all [OF assms]
  by (simp add: dropWhile_map rev_map comp_def)

text \<open>
  A message is written exactly when its level is at most the current one, errors always are, and a
  level that does not parse leaves the current one.
\<close>

lemma log_level_filters:
  "(logf current level label msg \<noteq> [] \<longleftrightarrow> level \<le> current) \<and> Errorf current msg \<noteq> []"
  by (cases current; cases level) (simp_all add: logging_defs)

lemma SetLevel_keeps: "SetLevel quote raw current = (Some e, current') \<Longrightarrow> current' = current"
  by (auto simp: SetLevel_def split: prod.splits option.splits)

end
