(* ===== verification/ServerFacts.thy ===== *)
theory ServerFacts
  imports ServerFrame Logging
begin

text \<open>
  Facts about single requests that the properties of the server rest on: how a request made of
  bulk strings reaches its command, what the commands of the subscriber mode leave alone, and
  rewrite rules that run the request loop on a concrete input.
\<close>

section \<open>From a request to its command\<close>

lemma convert_bulks [simp]: "convertArrayToStrings (Some (map bulk parts)) = parts"
  by (simp add: convertArrayToStrings_def part_text_def comp_def)

lemma convert_bulks_Cons [simp]: "convertArrayToStrings (Some (bulk p # map bulk parts)) = p # parts"
  using convert_bulks [of "p # parts"] by simp

lemma request_parts_bulks [simp]: "request_parts (arr (map bulk parts)) = parts"
  by (simp add: request_parts_def)

lemma executeCommand_command:
  assumes "cmd \<in> set all_commands" and "ToUpper name = cmd_Name cmd" and "cmd_Validate cmd args = None"
  shows "executeCommand NewRegistry env c (arr (map bulk (name # args))) s =
    cmd_Execute cmd (conn_context env c (getCurrentDb s c)) args s"
  using Registry_Get_command [of cmd name, OF assms(1,2)] no_command_requires_auth [OF assms(1)] assms(3)
  by (simp add: executeCommand_def invokeCommand_def Registry_Get_def)

text \<open>The check of the subscriber mode and the registry read the same name.\<close>

lemma request_name_parts:
  "request_name v \<noteq> [] \<Longrightarrow> \<exists>name args. request_parts v = name # args \<and> request_name v = ToUpper name"
  by (auto simp: request_name_def request_parts_def convertArrayToStrings_def part_text_def
      split: RESPValue.splits option.splits list.splits)

section \<open>Commands that leave the data alone\<close>

lemma srv_store_frames [simp]:
  "srv_store (write_bytes c bs s) = srv_store s" "srv_store (write_value c v s) = srv_store s"
  "srv_store (update_conn c f s) = srv_store s" "srv_store (set_broker c b s) = srv_store s"
  by (simp_all add: write_value_def write_bytes_def update_conn_def set_broker_def split: option.splits)

lemma srv_store_SetMode [simp]: "srv_store (SetMode c m s) = srv_store s"
  by (simp add: SetMode_def split: option.splits)

lemma srv_store_subscribe_loop [simp]:
  "srv_store (subscribe_loop f kind (conn_context env c i) names s) = srv_store s"
  by (induction names arbitrary: s) (simp_all add: split_def Let_def)

lemma srv_store_unsubscribe_loop: "srv_store s = st \<Longrightarrow>
    if_returns (unsubscribe_loop f kind (conn_context env c i) names s) (\<lambda>s'. srv_store s' = st)"
  by (induction names arbitrary: s) (auto simp: Let_def intro!: if_returns_any)

definition keeps_store :: "Command \<Rightarrow> bool" where
  "keeps_store cmd \<longleftrightarrow> (\<forall>env c i args s.
     if_returns (cmd_Execute cmd (conn_context env c i) args s) (\<lambda>(r, s'). srv_store s' = srv_store s))"

definition subscriber_commands :: "Command list" where
  "subscriber_commands = [SubscribeCommand, UnsubscribeCommand, PSubscribeCommand, PUnsubscribeCommand,
     PingCommand, QuitCommand]"

lemma subscriber_command_names: "map cmd_Name subscriber_commands =
    [''SUBSCRIBE'', ''UNSUBSCRIBE'', ''PSUBSCRIBE'', ''PUNSUBSCRIBE'', ''PING'', ''QUIT'']"
  by (simp add: subscriber_commands_def conn_commands)

lemma subscriber_commands_registered: "set subscriber_commands \<subseteq> set all_commands"
  by (simp add: subscriber_commands_def all_commands_def)

lemma subscriber_commands_keep_store: "list_all keeps_store subscriber_commands"
proof -
  have "if_returns (andThen (unsubscribe_loop f kind (conn_context env c i) names s) (\<lambda>s'. Ret (Inr None, s')))
      (\<lambda>(r, s'). srv_store s' = srv_store s)" for f kind env c i names s
    by (rule if_returns_andThen [OF srv_store_unsubscribe_loop [OF refl]]) simp
  moreover have "if_returns (unsubscribe_all kind (conn_context env c i) s) (\<lambda>(r, s'). srv_store s' = srv_store s)"
    for kind env c i s
    unfolding unsubscribe_all_def by (rule if_returns_any) (simp add: Let_def)
  ultimately show ?thesis
    by (auto simp: subscriber_commands_def keeps_store_def SubscribeCommand_def PSubscribeCommand_def UnsubscribeCommand_def
        PUnsubscribeCommand_def PingCommand_def QuitCommand_def replies_def arg_def)
qed

lemma allowed_commands:
  assumes "cmd \<in> set all_commands" and "allowedInSubMode (cmd_Name cmd)"
  shows "keeps_store cmd"
proof -
  have "cmd_Name cmd \<in> set (map cmd_Name subscriber_commands)"
    unfolding subscriber_command_names using assms(2) by (auto simp: allowedInSubMode_def)
  then obtain cmd' where cmd': "cmd' \<in> set subscriber_commands" "cmd_Name cmd = cmd_Name cmd'" by auto
  with subscriber_commands_registered have "cmd = cmd'" by (intro command_by_name [OF assms(1)]) auto
  with cmd'(1) subscriber_commands_keep_store show ?thesis by (simp add: list_all_iff)
qed

lemma executeCommand_allowed:
  assumes "allowedInSubMode (request_name v)"
  shows "if_returns (executeCommand NewRegistry env c v s) (\<lambda>(r, s'). srv_store s' = srv_store s)"
proof -
  have "request_name v \<noteq> []" using assms by (auto simp: allowedInSubMode_def)
  then obtain name args where p: "request_parts v = name # args" and n: "request_name v = ToUpper name"
    using request_name_parts by blast
  then obtain vs where v: "v = Array vs" "convertArrayToStrings vs = name # args"
    by (auto simp: request_parts_def split: RESPValue.splits)
  show ?thesis
  proof (cases "Registry_Get NewRegistry (ToUpper name)")
    case None
    with v show ?thesis by (simp add: executeCommand_def replies_def)
  next
    case (Some cmd)
    with Registry_Get_member [of "ToUpper name" cmd] have "cmd \<in> set all_commands" "cmd_Name cmd = ToUpper name"
      by simp_all
    with allowed_commands [of cmd] assms n have "keeps_store cmd" by simp
    with Some v show ?thesis
      by (auto simp: executeCommand_def invokeCommand_def replies_def keeps_store_def split: option.splits)
  qed
qed

lemma handle_request_sub_mode:
  assumes "conn_mode_of s c = ModeSubscriber"
  shows "if_returns (handle_request NewRegistry env c v s) (\<lambda>s'. srv_store s' = srv_store s)"
proof (cases "allowedInSubMode (request_name v)")
  case True
  with assms show ?thesis
    by (auto simp: handle_request_def answer_def split: sum.splits option.splits
        intro!: if_returns_andThen [OF executeCommand_allowed])
qed (use assms in \<open>simp add: handle_request_def\<close>)

section \<open>The end of a connection\<close>

lemma end_conn_cleans:
  assumes "end_conn c s = Ret s'"
  shows "fmlookup (connections s') c = None \<and> c |\<in>| closedConns s' \<and> topics (srv_broker s') c = {} \<and>
    fmlookup (connChans (srv_broker s')) c = None"
proof -
  let ?b = "(srv_broker s)\<lparr>channels := remove_conn (channels (srv_broker s)) c,
    patterns := remove_conn (patterns (srv_broker s)) c\<rparr>"
  from assms obtain b' where b': "closeAndRemoveConnChan ?b c = Ret b'"
    and s': "s' = close_conn c ((set_broker c b' s)\<lparr>connections := fmdrop c (connections (set_broker c b' s))\<rparr>)"
    by (auto simp: end_conn_def UnsubscribeAll_def Let_def)
  have "topics ?b c = {}" by (simp add: topics_remove_conn)
  with b' have "topics b' c = {} \<and> fmlookup (connChans b') c = None"
    by (auto simp: closeAndRemoveConnChan_def andThen_eq_Ret split: option.splits)
  moreover have "srv_broker (set_broker c b' s) = b'" by (simp add: set_broker_def)
  ultimately show ?thesis by (simp add: s' close_conn_def)
qed

lemma handle_loop_cleans: "handle_loop reg env n c input s = Ret s' \<Longrightarrow>
    fmlookup (connections s') c = None \<and> c |\<in>| closedConns s' \<and> topics (srv_broker s') c = {} \<and>
    fmlookup (connChans (srv_broker s')) c = None"
proof (induction reg env n c input s rule: handle_loop.induct)
  case (1 reg env n c input s)
  from "1.prems" obtain r s1 where t: "handle_turn reg (env n) c input s = Ret (r, s1)"
    and k: "(case r of None \<Rightarrow> Ret s1 | Some rest \<Rightarrow> handle_loop reg env (Suc n) c rest s1) = Ret s'"
    by (subst (asm) handle_loop.simps) auto
  show ?case
  proof (cases r)
    case None
    with t k end_conn_cleans [of c s s1] show ?thesis by (simp add: handle_turn_None)
  next
    case (Some rest)
    with "1.IH" [OF t refl Some] k show ?thesis by simp
  qed
qed

end
