(* ===== verification/Restarts.thy ===== *)
theory Restarts
  imports ServerFacts
begin

text \<open>
  Facts on runs that cross components: a server that has recovered from any files is well formed; a counter that is incremented again on every replay of the
  log, requests that fill the log channel, the options of a \<open>SET\<close> with a short \<open>PX\<close>, and the
  second half of \<open>SETNX\<close> on its own.
\<close>

section \<open>Recovered servers\<close>

text \<open>
  Whatever a log file holds, recovering from it ends in a well-formed store if it ends with a result: an
  operation on a database that does not exist panics.
\<close>

lemma run_op_outside:
  assumes "\<not> valid_index s i" and "op \<noteq> OpFlushAll" and "run_op now i op s = Ret s'"
  shows "s' = s"
  using assms
  by (cases op) (auto simp: drop_result_def op_defs Store_Delete_def lookup_def db_at_def setKey_def delKey_def flushDb_def
    andThen_eq_Ret Let_def dest!: appendAOF_Ret split: sum.splits if_splits)

lemma run_op_good:
  assumes "run_op now i op s = Ret s'" and "good 0 s"
  shows "good 0 s'"
proof -
  consider (all) "op = OpFlushAll" | (inside) "valid_index s i" | (outside) "op \<noteq> OpFlushAll" "\<not> valid_index s i" by blast
  then show ?thesis
  proof cases
    case all
    with safely_run_op [OF assms(2), of now op] assms(1) show ?thesis by simp
  next
    case inside
    with assms(2) have "good i s" by (simp add: good_def)
    from safely_run_op [OF this, of now op] assms(1) show ?thesis using good_0 by simp
  next
    case outside
    from run_op_outside [OF outside(2,1) assms(1)] assms(2) show ?thesis by simp
  qed
qed

lemmas op_good = run_op_good [where op = "OpSet k v args" for k v args, simplified]
  run_op_good [where op = "OpSetNX k v" for k v, simplified] run_op_good [where op = "OpDel k" for k, simplified]
  run_op_good [where op = "OpExpire k d" for k d, simplified] run_op_good [where op = "OpIncr k" for k, simplified]
  run_op_good [where op = "OpDecr k" for k, simplified] run_op_good [where op = "OpLPush k vs" for k vs, simplified]
  run_op_good [where op = "OpRPush k vs" for k vs, simplified] run_op_good [where op = "OpLPop k n" for k n, simplified]
  run_op_good [where op = "OpRPop k n" for k n, simplified] run_op_good [where op = "OpLTrim k a b" for k a b, simplified]
  run_op_good [where op = "OpRename k k'" for k k', simplified] run_op_good [where op = "OpHSet k m" for k m, simplified]
  run_op_good [where op = "OpHDel k fs" for k fs, simplified] run_op_good [where op = "OpFlushDb", simplified]
  run_op_good [where op = "OpFlushAll", simplified]

lemma dispatch_good: "dispatchAOF now parts s = Ret s' \<Longrightarrow> good 0 s \<Longrightarrow> good 0 s'"
  by (auto simp: dispatch_defs handler_defs split: list.splits option.splits prod.splits if_splits dest: op_good)

lemma rebuild_good: "rebuild_loop clk n input s = Ret (r, s') \<Longrightarrow> good 0 s \<Longrightarrow> good 0 s'"
proof (induction clk n input s rule: rebuild_loop.induct)
  case (1 clk n input s)
  from 1(4) obtain x rest where p: "Parse input = Ret (x, rest)"
    by (subst (asm) rebuild_loop.simps) (auto split: outcome.splits)
  show ?case
  proof (cases x)
    case (Inl e)
    with 1(4,5) p show ?thesis by (simp add: rebuild_loop.simps)
  next
    case (Inr v)
    show ?thesis
    proof (cases "respArrayToCommand v")
      case None
      with 1(4,5) 1(1) [OF p refl Inr] Inr p show ?thesis by (simp add: rebuild_loop.simps [of clk n input])
    next
      case (Some parts)
      show ?thesis
      proof (cases "parts = []")
        case True
        with 1(4,5) 1(2) [OF p refl Inr Some] Inr p Some show ?thesis
          by (simp add: rebuild_loop.simps [of clk n input])
      next
        case False
        with 1(4) Inr p Some obtain t where t: "dispatchAOF (clk n) parts s = Ret t"
          "rebuild_loop clk (Suc n) rest t = Ret (r, s')"
          by (auto simp: rebuild_loop.simps [of clk n input] andThen_eq_Ret)
        from 1(3) [OF p refl Inr Some False t dispatch_good [OF t(1) 1(5)]] show ?thesis .
      qed
    qed
  qed
qed

lemma rebuild_store_good:
  assumes "RebuildStoreFromAOF clk s file = Ret (r, s')" and "good 0 s"
  shows "good 0 s'"
  using assms by (auto simp: RebuildStoreFromAOF_def dest: rebuild_good split: sum.splits if_splits list.splits)


text \<open>What the snapshots on disk have to hold: sixteen databases of well-typed values.\<close>

definition snapshots_ok :: "gob_decoder \<Rightarrow> bool" where
  "snapshots_ok dec \<longleftrightarrow> (\<forall>bytes d. dec bytes = Inr d \<longrightarrow> length d = 16 \<and> list_all wf_db d)"

lemma snapshots_okD: "dec bytes = Inr d \<Longrightarrow> snapshots_ok dec \<Longrightarrow> length d = 16 \<and> list_all wf_db d"
  by (simp add: snapshots_ok_def)

lemma load_good: "LoadSnapshot dec s file = (e, s') \<Longrightarrow> snapshots_ok dec \<Longrightarrow> good 0 s \<Longrightarrow> good 0 s'"
  by (auto simp: LoadSnapshot_def RestoreFromSnapshot_def good_def wf_store_valid wf_store_def aof_open_def
      split: sum.splits option.splits dest: snapshots_okD)

lemma recovered_server:
  assumes "Start dec clk rdbFile aofFile (NewServer config) = Ret s" and "snapshots_ok dec"
  shows "good 0 (srv_store s) \<and> s = (NewServer config)\<lparr>srv_store := srv_store s, listening := True\<rparr>"
proof -
  have g: "good 0 (srv_store (NewServer config))" using start_ok [of config] by (simp add: server_ok_def)
  with assms(1) show ?thesis
    by (auto simp: Start_def recoverStore_def andThen_eq_Ret Let_def split: if_splits prod.splits option.splits
        dest!: load_good [OF _ assms(2) g] dest: rebuild_store_good)
qed

text \<open>The world in which a server starts on its two files; a log that does not exist is created empty.\<close>

definition started :: "Server \<Rightarrow> file_system_result \<Rightarrow> file_system_result \<Rightarrow> World" where
  "started s rdbFile aofFile = \<lparr>w_server = s, w_inputs = fmempty,
     w_aof = (case aofFile of Inl _ \<Rightarrow> [] | Inr contents \<Rightarrow> contents), w_rdb = rdbFile, w_phases = fmempty\<rparr>"

section \<open>Replaying a counter\<close>

text \<open>A counter that is absent while it is zero.\<close>

definition counter_at :: "Store \<Rightarrow> string \<Rightarrow> nat \<Rightarrow> bool" where
  "counter_at s k m \<longleftrightarrow> fmlookup (data s ! 0) k = (if m = 0 then None else Some (NewStringValue (Itoa (int m))))"

lemma incr_counter:
  assumes "valid_index t 0" and "aof_room t (Suc r)" and "counter_at t k m" and "in_int (int (Suc m))"
  shows "dispatchAOF now [''INCR'', ''0'', k] t =
    Ret (with_sent (put_db t 0 (fmupd k (NewStringValue (Itoa (int (Suc m)))) (data t ! 0))) [''INCR'', ''0'', k])"
proof -
  have z: "in_int 0" "in_int (int m)" using assms(4) by (simp_all add: int_bounds)
  have "Store_Incr t 0 k = Ret (Inr (int (Suc m)),
      with_sent (put_db t 0 (fmupd k (NewStringValue (Itoa (int (Suc m)))) (data t ! 0))) [''INCR'', ''0'', k])"
    using assms z Atoi_Itoa [of "int m"] wrap64_id [OF assms(4)]
    by (auto simp: Store_Incr_def add_step_def lookup_def db_at_def setKey_def counter_at_def Let_def appendAOF_room
        dbIndexArg_def Itoa_zero Atoi_zero NewStringValue_def add.commute)
  then show ?thesis
    using dispatch_ops(4) [OF z(1), of now k t] by (simp add: Itoa_zero drop_result_def)
qed

lemma replay_counter:
  assumes "valid_index t 0" and "aof_room t n" and "counter_at t k m" and "in_int (int (m + n))"
  shows "\<exists>t'. replay (stamped clk i (replicate n [''INCR'', ''0'', k])) t = Ret t' \<and> counter_at t' k (m + n) \<and>
    (aofChan t \<noteq> None \<longrightarrow> pending t' = pending t @ replicate n [''INCR'', ''0'', k])"
  using assms
proof (induction n arbitrary: t m i)
  case (Suc n)
  let ?t = "with_sent (put_db t 0 (fmupd k (NewStringValue (Itoa (int (Suc m)))) (data t ! 0))) [''INCR'', ''0'', k]"
  from Suc.prems(4) have "in_int (int (Suc m))" by (auto simp: int_bounds)
  from incr_counter [OF Suc.prems(1-3) this] have step: "dispatchAOF (clk i) [''INCR'', ''0'', k] t = Ret ?t" .
  have "aof_room ?t n" using Suc.prems(2) by (intro aof_room_sent) simp
  moreover have "valid_index ?t 0" "counter_at ?t k (Suc m)" "in_int (int (Suc m + n))"
    using Suc.prems by (simp_all add: counter_at_def valid_index_def put_db_def)
  ultimately show ?case using Suc.IH [of ?t "Suc m" "Suc i"] step
    by (auto simp: pending_sent put_db_def)
      (simp_all add: pending_def with_sent_def split: option.splits)
qed auto

section \<open>Filling the log channel\<close>

lemma set_request:
  assumes "conn_mode_of s c = ModeNormal" and "getCurrentDb s c = 0" and "valid_index (srv_store s) 0"
    and "aofChan (srv_store s) = Some ch" and "\<not> ch_closed ch"
  shows "chan_room ch = 0 \<Longrightarrow> handle_request NewRegistry env c (arr (map bulk [''SET'', k, v])) s = Block"
    and "0 < chan_room ch \<Longrightarrow> \<exists>s' ch'. handle_request NewRegistry env c (arr (map bulk [''SET'', k, v])) s = Ret s' \<and>
      conn_mode_of s' c = ModeNormal \<and> getCurrentDb s' c = 0 \<and> valid_index (srv_store s') 0 \<and>
      aofChan (srv_store s') = Some ch' \<and> \<not> ch_closed ch' \<and> Suc (chan_room ch') = chan_room ch"
proof -
  have "SetCommand \<in> set all_commands" "ToUpper ''SET'' = cmd_Name SetCommand"
    "cmd_Validate SetCommand [k, v] = None"
    by (simp_all add: SetCommand_def all_commands_def)
  note ex = executeCommand_command [OF this, of env c s]
  note simps = handle_request_def answer_def SetCommand_def command_helpers Store_Set_def set_write_def
    no_options_def chan_send_def appendAOF_def chan_room_def
  show "chan_room ch = 0 \<Longrightarrow> handle_request NewRegistry env c (arr (map bulk [''SET'', k, v])) s = Block"
    using ex assms by (simp add: simps)
  show "0 < chan_room ch \<Longrightarrow> \<exists>s' ch'. handle_request NewRegistry env c (arr (map bulk [''SET'', k, v])) s = Ret s' \<and>
      conn_mode_of s' c = ModeNormal \<and> getCurrentDb s' c = 0 \<and> valid_index (srv_store s') 0 \<and>
      aofChan (srv_store s') = Some ch' \<and> \<not> ch_closed ch' \<and> Suc (chan_room ch') = chan_room ch"
    using ex assms
    by (simp add: simps setKey_def db_at_def put_db_def value_of_raw_def conn_mode_of_def getCurrentDb_def
        write_value_def write_bytes_def valid_index_def)
qed

lemma set_requests_block:
  assumes "conn_mode_of s c = ModeNormal" and "getCurrentDb s c = 0" and "valid_index (srv_store s) 0"
    and "aofChan (srv_store s) = Some ch" and "\<not> ch_closed ch" and "chan_room ch < length ks"
  shows "run_steps (\<lambda>k. handle_request NewRegistry env c (arr (map bulk [''SET'', k, v]))) ks s = Block"
  using assms
proof (induction ks arbitrary: s ch)
  case (Cons k ks)
  note step = set_request [OF Cons.prems(1-5), of env k v]
  show ?case
  proof (cases "chan_room ch = 0")
    case True
    with step(1) show ?thesis by simp
  next
    case False
    with step(2) obtain s' ch' where
      s': "handle_request NewRegistry env c (arr (map bulk [''SET'', k, v])) s = Ret s'"
      "conn_mode_of s' c = ModeNormal" "getCurrentDb s' c = 0" "valid_index (srv_store s') 0"
      "aofChan (srv_store s') = Some ch'" "\<not> ch_closed ch'" "Suc (chan_room ch') = chan_room ch" by blast
    with Cons.prems(6) Cons.IH [OF s'(2-6)] show ?thesis by simp
  qed
qed simp

section \<open>Operations in parts\<close>

lemma short_px_options:
  assumes "0 < ms" and "ms < 1000"
  shows "parseSetOptions [''PX'', Itoa ms] = Inr (no_options\<lparr>opt_PX := ms\<rparr>)"
  using assms Atoi_Itoa [of ms] by (simp add: parseSetOptions_def int_bounds)

lemma setnx_store_room:
  assumes "valid_index s i" and "aof_room s (Suc n)"
  shows "setnx_store s now i k v = Ret (1, with_sent
    (put_db s i (fmupd k (NewStringValue v) (data s ! nat i))) [''SET'', Itoa i, k, v])"
  using assms
  by (simp add: setnx_store_def Store_Set_def set_write_def parseSetOptions_def no_options_def appendAOF_room
      setKey_def db_at_def put_db_sent Let_def value_of_raw_def dbIndexArg_def)

text \<open>
  A key whose time has passed is not dead: \<open>EXPIRE\<close> finds it, gives it a new expiry and answers true,
  although \<open>GET\<close> no longer saw it.
\<close>

lemma expire_revives_expired_key:
  assumes "ready i s" and "fmlookup (data s ! nat i) k = Some v" and "IsExpired now v" and "0 < d"
  shows "Store_Get s now i k = Ret None \<and>
    (\<exists>s'. Store_Expire s now i k d = Ret (True, s') \<and>
      Store_Get s' now i k = Ret (Some (v\<lparr>ExpiresAt := Some (now + d)\<rparr>)))"
proof -
  have "valid_index s i" using assms(1) by (simp add: ready_def good_def)
  with assms ready_value [OF assms(1,2)] show ?thesis
    by (auto simp: Store_Get_def Store_Expire_def ready_simps Time_Add_def lookup_def db_at_def
        IsExpired_def Time_After_def)
qed

end
