(* ===== verification/Sessions.thy ===== *)
theory Sessions
  imports ServerFacts
begin

text \<open>
  A whole connection: the loop of \<open>handleConn\<close> on a stream of encoded requests is the sequence of
  their executions (\<open>serve\<close>), and what \<open>SET\<close> and \<open>GET\<close> do in it.
\<close>

text \<open>What a connection promises: its requests are handled one after the other.\<close>

fun serve :: "Registry \<Rightarrow> (nat \<Rightarrow> Env) \<Rightarrow> nat \<Rightarrow> conn \<Rightarrow> RESPValue list \<Rightarrow> Server \<Rightarrow> Server outcome" where
  "serve reg env n c [] s = Ret s"
| "serve reg env n c (v # vs) s = andThen (handle_request reg (env n) c v s) (serve reg env (Suc n) c vs)"

lemma handle_turn_encoded:
  assumes "wire_ok v"
  shows "handle_turn reg env c (fst (Encode v) @ rest) s =
    andThen (handle_request reg env c (wire_canon v) s) (\<lambda>s. Ret (Some rest, s))"
  using resp2.parse_encode [OF assms, of rest] by (simp add: handle_turn_def)

lemma handle_loop_stream:
  assumes "list_all wire_ok vs"
  shows "handle_loop reg env n c (encode_all Encode vs @ rest) s =
    andThen (serve reg env n c (map wire_canon vs) s) (handle_loop reg env (n + length vs) c rest)"
  using assms
proof (induction vs arbitrary: n s)
  case (Cons v vs)
  then have v: "wire_ok v" and vs: "list_all wire_ok vs" by simp_all
  have "handle_loop reg env n c (encode_all Encode (v # vs) @ rest) s =
      andThen (handle_request reg (env n) c (wire_canon v) s) (handle_loop reg env (Suc n) c (encode_all Encode vs @ rest))"
    by (subst handle_loop.simps) (simp add: handle_turn_encoded [OF v] andThen_assoc)
  moreover have "handle_loop reg env (Suc n) c (encode_all Encode vs @ rest) =
      (\<lambda>s. andThen (serve reg env (Suc n) c (map wire_canon vs) s) (handle_loop reg env (Suc n + length vs) c rest))"
    using Cons.IH [OF vs] by (intro ext)
  ultimately show ?case by (simp add: andThen_assoc)
qed simp

lemma handle_loop_Nil: "handle_loop reg env n c [] = end_conn c"
proof
  fix s
  have "Parse [] = Ret (Inl io_EOF, [])" by code_simp
  then show "handle_loop reg env n c [] s = end_conn c s"
    by (subst handle_loop.simps) (cases "end_conn c s"; simp add: handle_turn_def io_EOF_def)
qed

section \<open>Setting and getting\<close>

text \<open>What a reply leaves as it is, and what it adds to the bytes sent.\<close>

lemma serve_conn: "conn_mode_of (write_value d v (s\<lparr>srv_store := st\<rparr>)) c = conn_mode_of s c"
  "getCurrentDb (write_value d v (s\<lparr>srv_store := st\<rparr>)) c = getCurrentDb s c"
  "srv_store (write_value d v s) = srv_store s"
  "connections (write_value d v s) = connections s"
  by (simp_all add: write_value_def write_bytes_def conn_mode_of_def getCurrentDb_def)

lemma write_value_closed: "closedConns (write_value d v s) = closedConns s"
  by (simp add: write_value_def write_bytes_def)

lemma output_written: "output_of (write_value d v s) c =
    output_of s c @ (if c = d \<and> c |\<notin>| closedConns s then fst (Encode v) else [])"
  by (auto simp: write_value_def write_bytes_def output_of_def)

lemma output_store [simp]: "output_of (s\<lparr>srv_store := st\<rparr>) c = output_of s c"
  by (simp add: output_of_def)

lemma serve_set:
  assumes "conn_mode_of s c = ModeNormal" and "valid_index (srv_store s) (getCurrentDb s c)"
    and "aof_room (srv_store s) 1"
  shows "handle_request NewRegistry env c (arr (map bulk [''SET'', k, v])) s =
    Ret (write_value c OK (s\<lparr>srv_store := with_sent (put_db (srv_store s) (getCurrentDb s c)
      (fmupd k (NewStringValue v) (data (srv_store s) ! nat (getCurrentDb s c)))) [''SET'', Itoa (getCurrentDb s c), k, v]\<rparr>))"
proof -
  have "SetCommand \<in> set all_commands" "ToUpper ''SET'' = cmd_Name SetCommand"
    "cmd_Validate SetCommand [k, v] = None"
    by (simp_all add: SetCommand_def all_commands_def)
  note ex = executeCommand_command [OF this, of env c s]
  from assms(3) have "aof_room (srv_store s) (Suc 0)" by simp
  note app = appendAOF_room [OF this]
  show ?thesis
    using ex assms
    by (simp add: handle_request_def answer_def SetCommand_def command_helpers Store_Set_def set_write_def
        no_options_def app setKey_def db_at_def value_of_raw_def put_db_sent conn_context_def dbIndexArg_def)
qed

lemma serve_get:
  assumes "conn_mode_of s c = ModeNormal" and "valid_index (srv_store s) (getCurrentDb s c)"
    and "fmlookup (data (srv_store s) ! nat (getCurrentDb s c)) k = Some (NewStringValue v)"
  shows "handle_request NewRegistry env c (arr (map bulk [''GET'', k])) s = Ret (write_value c (bulk v) s)"
proof -
  have "GetCommand \<in> set all_commands" "ToUpper ''GET'' = cmd_Name GetCommand"
    "cmd_Validate GetCommand [k] = None"
    by (simp_all add: GetCommand_def all_commands_def)
  note ex = executeCommand_command [OF this, of env c s]
  show ?thesis
    using ex assms
    by (simp add: handle_request_def answer_def GetCommand_def command_helpers Store_Get_def lookup_def db_at_def
        NewStringValue_def IsExpired_def ToString_def AsString_def conn_context_def)
qed

text \<open>A \<open>SET\<close> as one step of the server.\<close>

lemma serve_set_step:
  assumes "fmlookup (w_inputs w) c = Some input" and "fmlookup (w_phases w) c = None"
    and "Parse input = Ret (Inr (arr (map bulk [''SET'', k, v])), rest)"
    and "conn_mode_of (w_server w) c = ModeNormal" and "i = getCurrentDb (w_server w) c"
    and "valid_index (srv_store (w_server w)) i" and "aof_room (srv_store (w_server w)) 1"
  shows "server_step NewRegistry enc w (w\<lparr>
    w_server := write_value c OK ((w_server w)\<lparr>srv_store := with_sent (put_db (srv_store (w_server w)) i
      (fmupd k (NewStringValue v) (data (srv_store (w_server w)) ! nat i))) [''SET'', Itoa i, k, v]\<rparr>),
    w_inputs := fmupd c rest (w_inputs w)\<rparr>)"
proof -
  have "\<And>v r. Parse input = Ret (Inr v, r) \<Longrightarrow> orders_match env (w_server w) v" for env
    using assms(3) by (auto simp: orders_match_def simp del: list.map)
  then show ?thesis
    using serve_set [OF assms(4), of _ k v] assms(3,5-7)
    by (intro request [OF assms(1,2)]) (simp_all add: handle_turn_def)
qed

end
