(* ===== verification/EntryPoint.thy ===== *)
theory EntryPoint
  imports ServerState Logging
begin

text \<open>
  What \<open>main\<close> (\<open>cmd/goodiesdb-server/main.go\<close>) computes before it hands over to the server: the
  configuration, from the defaults, the version and the environment, and the level of logging.
  \<open>getenv\<close> is the environment after \<open>godotenv.Load\<close>; what \<open>main\<close> then does with the server is the
  subject of \<open>Lifecycle\<close>.
\<close>

definition version :: string where
  "version = ''v0.0.1''"

definition main_config :: "(string \<Rightarrow> string) \<Rightarrow> Config" where
  "main_config getenv = (let config = NewConfig; config = config\<lparr>cfg_Version := version\<rparr>
     in LoadFromEnv getenv config)"

text \<open>An invalid level is replaced by \<open>info\<close>; the level before is the initial value of the package.\<close>

definition main_level :: "(string \<Rightarrow> string) \<Rightarrow> (string \<Rightarrow> string) \<Rightarrow> Level" where
  "main_level quote getenv = (case SetLevel quote (cfg_LogLevel (main_config getenv)) LevelInfo of
     (Some _, level) \<Rightarrow> snd (SetLevel quote ''info'' level)
   | (None, level) \<Rightarrow> level)"

lemma main_config_defaults:
  assumes "\<And>name. getenv name = []"
  shows "main_config getenv = NewConfig\<lparr>cfg_Version := version\<rparr>"
  using assms by (simp add: main_config_def LoadFromEnv_def Let_def)

lemma main_config_version: "cfg_Version (main_config getenv) = version"
  by (simp add: main_config_def LoadFromEnv_def Let_def)

lemma main_level_parses: "main_level quote getenv = fst (parseLevel quote (cfg_LogLevel (main_config getenv)))"
proof -
  have "parseLevel quote ''info'' = (LevelInfo, None)"
    by (simp add: parseLevel_def TrimSpace_ascii is_space_def lower_char_def)
  then show ?thesis
    by (auto simp: main_level_def SetLevel_def parseLevel_def Let_def split: if_splits)
qed

end
