(* ===== verification/StoreAliasing.thy ===== *)
theory StoreAliasing
  imports StoreLists
begin

text \<open>
  Lists as Go has them: slices of shared arrays. The other theories treat a list as a value; here the
  statements of \<open>RPop\<close>, \<open>LPop\<close>, \<open>LRange\<close> and \<open>RPush\<close> in \<open>internal/core/store/store.go\<close> that cut
  and extend a slice run on an explicit memory of arrays. It shows that the list under the key is always the one
  of the value model, and that a slice returned by \<open>RPop\<close> is not a copy.
\<close>

section \<open>Slices\<close>

text \<open>
  A slice header: the array, where the slice starts in it, its length, and how far it may grow. What
  \<open>append\<close> allocates when there is no room is up to the runtime: \<open>grow\<close> gives a capacity that is at
  least the length needed.
\<close>

record go_slice_header =
  sl_array :: nat
  sl_start :: nat
  sl_len :: nat
  sl_cap :: nat

type_synonym arrays = "(nat, goval list) fmap"

definition array_of :: "arrays \<Rightarrow> nat \<Rightarrow> goval list" where
  "array_of h a = (case fmlookup h a of None \<Rightarrow> [] | Some xs \<Rightarrow> xs)"

definition contents :: "arrays \<Rightarrow> go_slice_header \<Rightarrow> goval list" where
  "contents h s = take (sl_len s) (drop (sl_start s) (array_of h (sl_array s)))"

definition wf_slice :: "arrays \<Rightarrow> go_slice_header \<Rightarrow> bool" where
  "wf_slice h s \<longleftrightarrow> sl_array s |\<in>| fmdom h \<and> sl_len s \<le> sl_cap s \<and>
     sl_start s + sl_cap s \<le> length (array_of h (sl_array s))"

text \<open>\<open>s[a:b]\<close> for bounds in range\<close>

definition reslice :: "go_slice_header \<Rightarrow> nat \<Rightarrow> nat \<Rightarrow> go_slice_header" where
  "reslice s a b = s\<lparr>sl_start := sl_start s + a, sl_len := b - a, sl_cap := sl_cap s - a\<rparr>"

definition write_at :: "goval list \<Rightarrow> nat \<Rightarrow> goval list \<Rightarrow> goval list" where
  "write_at xs n vs = take n xs @ vs @ drop (n + length vs) xs"

definition fresh_array :: "arrays \<Rightarrow> nat" where
  "fresh_array h = Suc (fold max (sorted_list_of_fset (fmdom h)) 0)"

definition append_slice :: "(nat \<Rightarrow> nat \<Rightarrow> nat) \<Rightarrow> arrays \<Rightarrow> go_slice_header \<Rightarrow> goval list \<Rightarrow>
    arrays \<times> go_slice_header" where
  "append_slice grow h s vs = (let n = sl_len s + length vs in
     if n \<le> sl_cap s
     then (fmupd (sl_array s) (write_at (array_of h (sl_array s)) (sl_start s + sl_len s) vs) h, s\<lparr>sl_len := n\<rparr>)
     else let a = fresh_array h; cap = max n (grow (sl_cap s) n) in
       (fmupd a (contents h s @ vs @ replicate (cap - n) GNil) h,
        \<lparr>sl_array = a, sl_start = 0, sl_len = n, sl_cap = cap\<rparr>))"

section \<open>The list operations\<close>

text \<open>The popped part and what stays under the key, as \<open>RPop\<close> and \<open>LPop\<close> cut them.\<close>

definition slice_rpop :: "go_slice_header \<Rightarrow> nat \<Rightarrow> go_slice_header \<times> go_slice_header" where
  "slice_rpop list count = (let len = sl_len list; count = (if len < count then len else count)
     in (reslice list (len - count) len, reslice list 0 (len - count)))"

definition slice_lpop :: "go_slice_header \<Rightarrow> nat \<Rightarrow> go_slice_header \<times> go_slice_header" where
  "slice_lpop list count = (let len = sl_len list; count = (if len < count then len else count)
     in (reslice list 0 count, reslice list count len))"

definition slice_rpush :: "(nat \<Rightarrow> nat \<Rightarrow> nat) \<Rightarrow> arrays \<Rightarrow> go_slice_header \<Rightarrow> goval list \<Rightarrow>
    arrays \<times> go_slice_header" where
  "slice_rpush grow h list values = append_slice grow h list values"

lemmas slice_defs = reslice_def slice_rpop_def slice_lpop_def slice_rpush_def Let_def

section \<open>The list under the key\<close>

lemma contents_reslice:
  "a \<le> b \<Longrightarrow> b \<le> sl_len s \<Longrightarrow> contents h (reslice s a b) = take (b - a) (drop a (contents h s))"
  by (simp add: contents_def reslice_def drop_take min_def add.commute)

lemma contents_length: "wf_slice h s \<Longrightarrow> length (contents h s) = sl_len s"
  by (auto simp: contents_def wf_slice_def min_def)

lemma wf_reslice: "wf_slice h s \<Longrightarrow> a \<le> b \<Longrightarrow> b \<le> sl_len s \<Longrightarrow> wf_slice h (reslice s a b)"
  by (auto simp: wf_slice_def reslice_def)

text \<open>Which elements of a slice a write to its array reaches.\<close>

lemma take_write_at:
  assumes "n + length vs \<le> length xs"
  shows "length (write_at xs n vs) = length xs"
    and "take n (write_at xs n vs) = take n xs"
    and "drop (n + length vs) (write_at xs n vs) = drop (n + length vs) xs"
    and "take (length vs) (drop n (write_at xs n vs)) = vs"
  using assms by (simp_all add: write_at_def min_absorb1 min_absorb2)

lemma append_in_place:
  assumes "wf_slice h s" and "sl_len s + length vs \<le> sl_cap s"
  shows "append_slice grow h s vs =
    (fmupd (sl_array s) (write_at (array_of h (sl_array s)) (sl_start s + sl_len s) vs) h,
     s\<lparr>sl_len := sl_len s + length vs\<rparr>)"
  using assms(2) by (simp add: append_slice_def Let_def)

lemma fold_max_start: "(m :: nat) \<le> fold max xs m"
proof (induction xs arbitrary: m)
  case (Cons x xs)
  from order_trans [OF max.cobounded2 Cons.IH [of "max x m"]] show ?case by simp
qed simp

lemma fold_max_member: "(x :: nat) \<in> set xs \<Longrightarrow> x \<le> fold max xs m"
proof (induction xs arbitrary: m)
  case (Cons y ys)
  then show ?case using order_trans [OF max.cobounded1 fold_max_start [of "max y m" ys]] by auto
qed simp

lemma fresh_not_in: "fresh_array h |\<notin>| fmdom h"
proof
  assume "fresh_array h |\<in>| fmdom h"
  then have "fresh_array h \<in> set (sorted_list_of_fset (fmdom h))" by simp
  from fold_max_member [OF this, of 0] show False by (simp add: fresh_array_def)
qed

lemma contents_append:
  assumes "wf_slice h s" and "append_slice grow h s vs = (h', s')"
  shows "contents h' s' = contents h s @ vs" and "wf_slice h' s'"
proof -
  let ?xs = "array_of h (sl_array s)" and ?n = "sl_start s + sl_len s"
  have len: "sl_start s + sl_cap s \<le> length ?xs" using assms(1) by (simp add: wf_slice_def)
  have "contents h' s' = contents h s @ vs \<and> wf_slice h' s'"
  proof (cases "sl_len s + length vs \<le> sl_cap s")
    case True
    have w: "?n + length vs \<le> length ?xs" using True len by simp
    have "take (sl_len s + length vs) (drop (sl_start s) (write_at ?xs ?n vs)) =
        take (sl_len s) (drop (sl_start s) ?xs) @ vs"
      using w by (simp add: write_at_def take_drop add.commute)
    with append_in_place [OF assms(1) True, of grow] assms True len take_write_at(1) [OF w] show ?thesis
      by (auto simp: contents_def array_of_def wf_slice_def)
  next
    case False
    with assms contents_length [OF assms(1)] show ?thesis
      by (auto simp: append_slice_def Let_def contents_def array_of_def wf_slice_def)
  qed
  then show "contents h' s' = contents h s @ vs" and "wf_slice h' s'" by simp_all
qed

text \<open>A slice that ends where the writes of \<open>append\<close> begin, or before, keeps its elements.\<close>

lemma append_keeps:
  assumes "wf_slice h s" and "append_slice grow h s vs = (h', s')" and "wf_slice h t"
    and "sl_array t \<noteq> sl_array s \<or> sl_start t + sl_len t \<le> sl_start s + sl_len s"
  shows "contents h' t = contents h t"
proof (cases "sl_len s + length vs \<le> sl_cap s")
  case True
  let ?xs = "array_of h (sl_array s)" and ?n = "sl_start s + sl_len s"
  have w: "?n + length vs \<le> length ?xs" using assms(1) True by (simp add: wf_slice_def)
  have "take (sl_len t) (drop (sl_start t) (write_at ?xs ?n vs)) = take (sl_len t) (drop (sl_start t) ?xs)"
    if "sl_start t + sl_len t \<le> ?n"
    using that w by (simp add: write_at_def drop_take min_absorb1)
  with append_in_place [OF assms(1) True, of grow] assms(2,4) show ?thesis
    by (auto simp: contents_def array_of_def)
next
  case False
  have "sl_array t \<noteq> fresh_array h" using assms(3) fresh_not_in [of h] by (auto simp: wf_slice_def)
  with False assms(2) show ?thesis
    by (auto simp: append_slice_def Let_def contents_def array_of_def)
qed

text \<open>What \<open>LPop\<close> returned survives later pushes.\<close>

lemma lpop_reply_kept:
  assumes "wf_slice h s" and "slice_lpop s count = (popped, rest)" and "slice_rpush grow h rest vs = (h', rest')"
  shows "contents h' popped = contents h popped"
proof -
  have "wf_slice h popped" "wf_slice h rest" "sl_array popped = sl_array rest"
    "sl_start popped + sl_len popped \<le> sl_start rest + sl_len rest"
    using assms(2) wf_reslice [OF assms(1)] by (auto simp: slice_lpop_def Let_def) (auto simp: reslice_def)
  with append_keeps [of h rest grow vs h' rest' popped] assms(3) show ?thesis by (simp add: slice_rpush_def)
qed

text \<open>What \<open>RPop\<close> returned is overwritten by a push of no more elements.\<close>

lemma rpop_rpush:
  assumes "wf_slice h s" and "count \<le> sl_len s" and "length vs \<le> count"
    and "slice_rpop s count = (popped, rest)" and "slice_rpush grow h rest vs = (h', rest')"
  shows "contents h popped = drop (sl_len s - count) (contents h s)"
    and "contents h' rest' = take (sl_len s - count) (contents h s) @ vs"
    and "contents h' popped = vs @ drop (length vs) (contents h popped)"
proof -
  let ?k = "sl_len s - count"
  have cut: "popped = reslice s ?k (sl_len s)" "rest = reslice s 0 ?k"
    using assms(2,4) by (auto simp: slice_rpop_def Let_def)
  show p: "contents h popped = drop ?k (contents h s)"
    using assms(2) contents_length [OF assms(1)] by (simp add: cut contents_reslice)
  have r: "wf_slice h rest" using wf_reslice [OF assms(1)] by (simp add: cut)
  show "contents h' rest' = take ?k (contents h s) @ vs"
    using contents_append(1) [OF r] assms(5) by (simp add: slice_rpush_def cut contents_reslice)
  have "sl_len s \<le> sl_cap s" "sl_start s + sl_cap s \<le> length (array_of h (sl_array s))"
    using assms(1) by (simp_all add: wf_slice_def)
  moreover from this have "sl_len rest + length vs \<le> sl_cap rest"
    using assms(2,3) by (simp add: cut reslice_def)
  ultimately show "contents h' popped = vs @ drop (length vs) (contents h popped)"
    using append_in_place [OF r, of vs grow] assms(2,3,5)
    by (auto simp: slice_rpush_def cut reslice_def contents_def array_of_def write_at_def drop_take add.commute)
qed

end
