(* ===== verification/CommandCalls.thy ===== *)
theory CommandCalls
  imports ServerFacts
begin

text \<open>
  What a command does to the store: \<open>command_op\<close> reads off the name and the arguments which operation of
  the store a command calls, and \<open>calls\<close> says that the store afterwards is the store before or the result
  of that one operation. Every registered command is of this kind, so that a client can change the data by the
  operations of \<open>store_op\<close> only.
\<close>

section \<open>The operation of a command\<close>

text \<open>
  An integer argument, and the operation of each command that writes. \<open>GET\<close> deletes the key
  when its value expires between two readings of the clock.
\<close>

definition int_arg :: "string \<Rightarrow> int" where
  "int_arg a = fst (Atoi a)"

definition command_op :: "string \<Rightarrow> string list \<Rightarrow> store_op option" where
  "command_op name args =
     (if name = ''FLUSHDB'' then Some OpFlushDb
      else if name = ''FLUSHALL'' then Some OpFlushAll
      else (case args of
        [] \<Rightarrow> None
      | [k] \<Rightarrow>
          if name = ''GET'' then Some (OpDelete k)
          else if name = ''DEL'' then Some (OpDel k)
          else if name = ''INCR'' then Some (OpIncr k)
          else if name = ''DECR'' then Some (OpDecr k)
          else if name = ''LPOP'' then Some (OpLPop k None)
          else if name = ''RPOP'' then Some (OpRPop k None)
          else None
      | k # a # rest \<Rightarrow>
          if name = ''SET'' then Some (OpSet k a rest)
          else if name = ''SETNX'' then Some (OpSet k a [])
          else if name = ''EXPIRE'' then Some (OpExpire k (Duration_mul (int_arg a) Second))
          else if name = ''RENAME'' then Some (OpRename k a)
          else if name = ''LPUSH'' then Some (OpLPush k (a # rest))
          else if name = ''RPUSH'' then Some (OpRPush k (a # rest))
          else if name = ''LPOP'' then Some (OpLPop k (Some (int_arg a)))
          else if name = ''RPOP'' then Some (OpRPop k (Some (int_arg a)))
          else if name = ''HDEL'' then Some (OpHDel k (a # rest))
          else if name = ''LTRIM'' then (case rest of [] \<Rightarrow> None
            | b # _ \<Rightarrow> Some (OpLTrim k (int_arg a) (int_arg b)))
          else if name = ''HSET'' then (case hashFieldValueArgs (a # rest) of
              Ret m \<Rightarrow> Some (OpHSet k m) | _ \<Rightarrow> None)
          else None))"

text \<open>The effect on a store: nothing, or the operation at some reading of the clock.\<close>

definition calls :: "int \<Rightarrow> string \<Rightarrow> string list \<Rightarrow> Store \<Rightarrow> Store \<Rightarrow> bool" where
  "calls i name args st st' \<longleftrightarrow> st' = st \<or>
     (\<exists>now op. command_op name args = Some op \<and> run_op now i op st = Ret st' \<and>
       (\<forall>k. op = OpDelete k \<longrightarrow> (\<exists>v. fmlookup (data st ! nat i) k = Some v \<and> IsExpired now v)))"

lemma calls_refl [simp]: "calls i name args st st"
  by (simp add: calls_def)

lemma callsI: "command_op name args = Some op \<Longrightarrow> \<forall>k. op \<noteq> OpDelete k \<Longrightarrow> run_op now i op st = Ret st' \<Longrightarrow>
    calls i name args st st'"
  by (auto simp: calls_def)

definition command_calls :: "Command \<Rightarrow> bool" where
  "command_calls cmd \<longleftrightarrow> (\<forall>env c i args s. cmd_Validate cmd args = None \<longrightarrow>
     if_returns (cmd_Execute cmd (conn_context env c i) args s)
       (\<lambda>(r, s'). calls i (cmd_Name cmd) args (srv_store s) (srv_store s')))"

lemma keeps_calls: "keeps_store cmd \<Longrightarrow> command_calls cmd"
  by (auto simp: keeps_store_def command_calls_def if_returns_def split: outcome.splits)

section \<open>Commands that call no operation\<close>

definition store_kept :: "Server \<Rightarrow> execution \<Rightarrow> bool" where
  "store_kept s m \<longleftrightarrow> if_returns m (\<lambda>(r, s'). srv_store s' = srv_store s)"

lemma store_kept_simps [simp]: "store_kept s (replies v s') \<longleftrightarrow> srv_store s' = srv_store s"
  "store_kept s (fails e s') \<longleftrightarrow> srv_store s' = srv_store s"
  by (simp_all add: store_kept_def replies_def fails_def)

lemma store_kept_andThen: "(\<And>x. store_kept s (f x)) \<Longrightarrow> store_kept s (andThen m f)"
  unfolding store_kept_def by (rule if_returns_any)

lemma reading_commands_keep_store: "list_all keeps_store [GetRangeCommand, StrLenCommand, ExistsCommand, TTLCommand,
  TypeCommand, KeysCommand, ScanCommand, LRangeCommand, HGetCommand, HGetAllCommand, HExistsCommand, HLenCommand,
  HMGetCommand, HKeysCommand, HValsCommand]"
  unfolding keeps_store_def store_kept_def [symmetric]
  by (simp add: data_commands hash_commands)
     ((rule conjI | rule allI | rule store_kept_andThen
       | clarsimp split: sum.splits option.splits)+)

lemma srv_store_Auth: "srv_store (snd (Authenticate c p s)) = srv_store s" "srv_store (snd (SelectDb c i s)) = srv_store s"
  by (simp_all add: Authenticate_def SelectDb_def)

lemma connection_commands_keep_store: "list_all keeps_store [AuthCommand, SelectCommand, EchoCommand,
  InfoCommand, ConfigCommand, HelloCommand, PublishCommand]"
  unfolding keeps_store_def store_kept_def [symmetric]
  by (simp add: conn_commands OK_def)
     ((rule conjI | rule allI | rule impI | rule store_kept_andThen
       | clarsimp simp: split_def srv_store_Auth [unfolded prod.sel] split: sum.splits option.splits bool.splits if_splits)+)

lemma Client_keeps_store: "keeps_store ClientCommand"
  unfolding keeps_store_def store_kept_def [symmetric] ClientCommand_def client_execute_def client_info_def
  by (auto simp: OK_def split: option.splits intro!: store_kept_andThen)

section \<open>Commands that call one\<close>

lemma calls_on_store:
  assumes "\<And>r st. f (srv_store s) = Ret (r, st) \<Longrightarrow> calls i name args (srv_store s) st"
    and "\<And>r s'. store_kept s' (k (r, s'))"
  shows "if_returns (andThen (on_store f s) k) (\<lambda>(r, s'). calls i name args (srv_store s) (srv_store s'))"
proof (cases "f (srv_store s)")
  case (Ret x)
  obtain r st where x: "x = (r, st)" by (cases x)
  have "store_kept (s\<lparr>srv_store := st\<rparr>) (k (r, s\<lparr>srv_store := st\<rparr>))" by (rule assms(2))
  with assms(1) Ret x show ?thesis
    by (cases "k (r, s\<lparr>srv_store := st\<rparr>)") (auto simp: on_store_def store_kept_def)
qed (simp_all add: on_store_def)


lemmas two_args = length_Suc_conv numeral_2_eq_2

lemma store_kept_Ret [simp]: "store_kept s (Ret (r, s')) \<longleftrightarrow> srv_store s' = srv_store s"
  by (simp add: store_kept_def)

lemma one_key_calls: "list_all command_calls [IncrCommand, DecrCommand, DelCommand, FlushDBCommand, FlushAllCommand]"
  by (auto simp: command_calls_def data_commands length_Suc_conv arg_def no_result_def
      command_op_def drop_result_def andThen_eq_Ret split: if_splits sum.splits
      intro!: calls_on_store callsI)

lemma setnx_store_op: "setnx_store s now i k v = Ret (n, s') \<Longrightarrow> run_op now i (OpSet k v []) s = Ret s'"
  by (cases "Store_Set s now i k (GStr v) []")
     (auto simp: setnx_store_def drop_result_def split: sum.splits bool.splits)

lemma SetNX_op:
  assumes "Store_SetNX s now now' i k v = Ret (r, s')"
  shows "s' = s \<or> run_op now' i (OpSet k v []) s = Ret s'"
proof -
  from assms obtain taken where "(if taken then Ret (0, s) else setnx_store s now' i k v) = Ret (r, s')"
    by (auto simp: Store_SetNX_def)
  then show ?thesis using setnx_store_op by (auto split: if_splits)
qed

lemma op_calls:
  "Store_Set st now i k (GStr v) opts = Ret (r, st') \<Longrightarrow> calls i ''SET'' (k # v # opts) st st'"
  "Store_Rename st now i k k' = Ret (e, st') \<Longrightarrow> calls i ''RENAME'' [k, k'] st st'"
  "Store_LPush st i k (GStr x # map GStr xs) = Ret (n, st') \<Longrightarrow> calls i ''LPUSH'' (k # x # xs) st st'"
  "Store_RPush st i k (GStr x # map GStr xs) = Ret (n, st') \<Longrightarrow> calls i ''RPUSH'' (k # x # xs) st st'"
  "Store_Expire st now i k (Duration_mul (int_arg a) Second) = Ret (b, st') \<Longrightarrow> calls i ''EXPIRE'' [k, a] st st'"
  "Store_LPop st now i k None = Ret (p, st') \<Longrightarrow> calls i ''LPOP'' [k] st st'"
  "Store_RPop st now i k None = Ret (p, st') \<Longrightarrow> calls i ''RPOP'' [k] st st'"
  "Store_LPop st now i k (Some (int_arg a)) = Ret (p, st') \<Longrightarrow> calls i ''LPOP'' [k, a] st st'"
  "Store_RPop st now i k (Some (int_arg a)) = Ret (p, st') \<Longrightarrow> calls i ''RPOP'' [k, a] st st'"
  "Store_LTrim st now i k (int_arg a) (int_arg a') = Ret (e, st') \<Longrightarrow> calls i ''LTRIM'' [k, a, a'] st st'"
  "Store_HDel st now i k (x # xs) = Ret (n, st') \<Longrightarrow> calls i ''HDEL'' (k # x # xs) st st'"
  "hashFieldValueArgs (x # xs) = Ret m \<Longrightarrow> Store_HSet st now i k m = Ret (n, st') \<Longrightarrow> calls i ''HSET'' (k # x # xs) st st'"
  by (rule callsI [where now = now], simp add: command_op_def, simp, simp add: drop_result_def)+

lemma op_calls_SetNX: "Store_SetNX st now now' i k v = Ret (r, st') \<Longrightarrow> calls i ''SETNX'' [k, v] st st'"
  using SetNX_op [of st now now' i k v r st'] by (auto simp: calls_def command_op_def)

lemma calls_replies [simp]: "if_returns (replies v s') (\<lambda>(r, s''). P (srv_store s'')) \<longleftrightarrow> P (srv_store s')"
  "if_returns (fails e s') (\<lambda>(r, s''). P (srv_store s'')) \<longleftrightarrow> P (srv_store s')"
  by (simp_all add: replies_def fails_def)

lemma parseIntArg_int: "parseIntArg a e = Inr n \<Longrightarrow> n = int_arg a"
  by (auto simp: parseIntArg_def int_arg_def split: prod.splits option.splits)

lemma key_calls: "list_all command_calls [SetNXCommand, RenameCommand, LPushCommand, RPushCommand, SetCommand, HDelCommand]"
  by (auto simp: command_calls_def data_commands hash_commands two_args arg_def args_from_def Suc_le_length_iff
     requireKeyWithFields_def requireMinArgs_def not_less
     split: if_splits option.splits sum.splits bool.splits intro!: calls_on_store op_calls op_calls_SetNX)

lemma number_calls: "list_all command_calls [ExpireCommand, LTrimCommand]"
  by (auto simp: command_calls_def data_commands two_args numeral_3_eq_3 arg_def requireExactArgs_def
     split: if_splits option.splits sum.splits dest!: parseIntArg_int intro!: calls_on_store op_calls)

lemma pop_calls: "list_all command_calls [LPopCommand, RPopCommand]"
  by (auto simp: command_calls_def data_commands two_args arg_def map_sum_def
     split: if_splits option.splits sum.splits prod.splits bool.splits
     dest!: parseIntArg_int intro!: calls_on_store op_calls)

lemma HSet_calls: "command_calls HSetCommand"
  by (auto simp: command_calls_def HSetCommand_def requireFieldValuePairs_def arg_def args_from_def
     Suc_le_length_iff not_less numeral_3_eq_3
     split: if_splits sum.splits intro!: if_returns_bind [of "hashFieldValueArgs xs" for xs] calls_on_store op_calls)

lemma op_calls_Get: "Store_Get st now i k = Ret (Some v) \<Longrightarrow> IsExpired now' v \<Longrightarrow> Store_Delete st i k = Ret st' \<Longrightarrow>
    calls i ''GET'' [k] st st'"
  by (auto simp: calls_def command_op_def Store_Get_def lookup_def db_at_def split: option.splits if_splits
      intro!: exI [of _ now'])

lemma Get_calls: "command_calls GetCommand"
  by (auto simp: command_calls_def GetCommand_def length_Suc_conv arg_def no_result_def
     split: if_splits option.splits sum.splits
     intro!: if_returns_bind [of "Store_Get st now i k" for st now i k] calls_on_store op_calls_Get)

lemma all_commands_call: "cmd \<in> set all_commands \<Longrightarrow> command_calls cmd"
  using one_key_calls key_calls number_calls pop_calls HSet_calls Get_calls keeps_calls
    reading_commands_keep_store connection_commands_keep_store Client_keeps_store subscriber_commands_keep_store
  unfolding all_commands_def subscriber_commands_def by (auto simp: list_all_iff)

end
