(* ===== verification/ServerHistory.thy ===== *)
theory ServerHistory
  imports CommandCalls
begin

text \<open>
  A run of the whole server as a history of the store: every step of \<open>server_step\<close> is silent for the store, one
  operation of a command, or the writer taking a command to the file (\<open>store_step\<close>). So the server refines the
  event machine of \<open>AofReplay\<close>, for which the log is complete.
\<close>

section \<open>Requests\<close>

text \<open>What a request in any form does to the store, in the database its connection selects.\<close>

definition request_calls :: "int \<Rightarrow> RESPValue \<Rightarrow> Store \<Rightarrow> Store \<Rightarrow> bool" where
  "request_calls i v st st' \<longleftrightarrow> (case request_parts v of [] \<Rightarrow> st' = st
     | name # args \<Rightarrow> calls i (ToUpper name) args st st')"

lemma request_calls_refl [simp]: "request_calls i v st st"
  by (simp add: request_calls_def split: list.splits)

lemma executeCommand_calls:
  assumes "server_ok s"
  shows "if_returns (executeCommand NewRegistry env c v s)
    (\<lambda>(r, s'). request_calls (getCurrentDb s c) v (srv_store s) (srv_store s'))"
  using assms
proof (cases rule: executeCommand_cases [where env = env and c = c and v = v])
  case (command name args cmd)
  with all_commands_call [OF command(2)] show ?thesis
    by (auto simp: command_calls_def request_calls_def)
qed simp

lemma handle_request_calls:
  assumes "server_ok s"
  shows "if_returns (handle_request NewRegistry env c v s)
    (\<lambda>s'. request_calls (getCurrentDb s c) v (srv_store s) (srv_store s'))"
  unfolding handle_request_def answer_def
  by (auto split: sum.splits option.splits intro!: if_returns_andThen [OF executeCommand_calls [OF assms]])

section \<open>Runs\<close>

lemma end_conn_store: "end_conn c s = Ret s' \<Longrightarrow> srv_store s' = srv_store s"
  by (auto simp: end_conn_def close_conn_def Let_def)

lemma writer_step_store [simp]: "srv_store (writer_step c s) = srv_store s"
  by (simp add: writer_step_def split: option.splits)

lemma drain_step_store [simp]: "srv_store (drain_step s) = srv_store s"
  by (simp add: drain_step_def split: list.splits prod.splits)

lemma open_conn_store [simp]: "srv_store (open_conn c s) = srv_store s"
  by (simp add: open_conn_def Let_def)

abbreviation w_store :: "World \<Rightarrow> Store" where "w_store w \<equiv> srv_store (w_server w)"

text \<open>
  What a step of the server is for the store and its log; a handler that goes on in the middle of a command calls the
  operation of its phase.
\<close>

fun phase_op :: "phase \<Rightarrow> store_op" where
  "phase_op (Storing i k v) = OpSet k v []"
| "phase_op (Deleting i k) = OpDelete k"

inductive store_step :: "World \<Rightarrow> World \<Rightarrow> bool" where
  silent: "w_store w' = w_store w \<Longrightarrow> w_aof w' = w_aof w \<Longrightarrow> store_step w w'"
| called: "fmlookup (w_inputs w) c = Some input \<Longrightarrow> Parse input = Ret (Inr v, rest) \<Longrightarrow>
    request_calls (getCurrentDb (w_server w) c) v (w_store w) (w_store w') \<Longrightarrow> w_aof w' = w_aof w \<Longrightarrow> store_step w w'"
| resumed: "fmlookup (w_phases w) c = Some p \<Longrightarrow> run_op now (phase_db p) (phase_op p) (w_store w) = Ret (w_store w') \<Longrightarrow>
    w_aof w' = w_aof w \<Longrightarrow> store_step w w'"
| logged: "take_pending (w_store w) = (cmds, w_store w') \<Longrightarrow> w_aof w' = w_aof w @ log_text cmds \<Longrightarrow> store_step w w'"

lemma phase_command: "\<exists>name args. command_op name args = Some (phase_op p)"
proof (cases p)
  case (Storing i k v)
  then have "command_op ''SETNX'' [k, v] = Some (phase_op p)" by (simp add: command_op_def)
  then show ?thesis by blast
next
  case (Deleting i k)
  then have "command_op ''GET'' [k] = Some (phase_op p)" by (simp add: command_op_def)
  then show ?thesis by blast
qed

lemma server_step_store:
  assumes "server_step NewRegistry enc w w'" and "world_ok w"
  shows "store_step w w'"
  using assms
proof (induction rule: server_step.induct)
  case (request w c input env rest s')
  have "server_ok (w_server w)" using request.prems by (simp add: world_ok_def)
  note calls = handle_request_calls [OF this, of env c]
  from request.hyps(4) show ?case
  proof (cases rule: handle_turn_Some)
    case (bad e)
    then show ?thesis by (auto intro: silent)
  next
    case (good v)
    with calls [of v] request.hyps(1) show ?thesis by (auto intro!: called)
  qed
next
  case (leave w c input env s')
  from end_conn_store [OF handle_turn_None [OF leave.hyps(3)]] show ?case by (intro silent) simp_all
next
  case (store_setnx w c i k val now n st)
  then show ?case
    using setnx_store_op [of "w_store w" now i k val n st]
    by (intro resumed [of _ c "Storing i k val" now]) simp_all
next
  case (delete_expired w c i k st)
  then show ?case by (intro resumed [of _ c "Deleting i k"]) simp_all
next
  case (written w cmds st bytes)
  then show ?case by (intro logged [of _ cmds]) (simp_all add: AOFWriter_text)
qed (auto intro: silent)

text \<open>
  The events of a step: a call of the operation some command stands for, or the writer. Every event carries the
  reading of the clock at which its commands will be replayed.
\<close>

definition event_of :: "time \<Rightarrow> event \<Rightarrow> bool" where
  "event_of later e \<longleftrightarrow> e = Written \<or> (\<exists>now i op name args. e = Call now later i op \<and> 0 \<le> i \<and> i < 16 \<and>
     command_op name args = Some op)"

lemma world_good: "world_ok w \<Longrightarrow> 0 \<le> i \<Longrightarrow> i < 16 \<Longrightarrow> good i (w_store w)"
  by (simp add: world_ok_def server_good)

lemma store_step_events:
  assumes "store_step w w'" and "world_ok w"
  shows "\<exists>es. list_all (event_of later) es \<and> run_steps event_step es (w_store w) = Ret (w_store w') \<and>
    faithful_history event_step event_ready es (w_store w) \<and>
    w_aof w' = w_aof w @ log_text (emitted event_step event_written es (w_store w))"
  using assms(1)
proof cases
  case silent
  then show ?thesis by (intro exI [of _ "[]"]) simp
next
  case (called c input v rest)
  let ?i = "getCurrentDb (w_server w) c"
  have i: "0 \<le> ?i \<and> ?i < 16" using getCurrentDb_ok assms(2) by (simp add: world_ok_def)
  with world_good [OF assms(2)] have g: "good ?i (w_store w)" by simp
  consider "w_store w' = w_store w" | now op name args where "run_op now ?i op (w_store w) = Ret (w_store w')"
      "command_op name args = Some op"
    using called(3) by (auto simp: request_calls_def calls_def split: list.splits)
  then show ?thesis
  proof cases
    case 1
    with called(4) show ?thesis by (intro exI [of _ "[]"]) simp
  next
    case (2 now op name args)
    with called(4) g i show ?thesis by (intro exI [of _ "[Call now later ?i op]"]) (auto simp: event_of_def)
  qed
next
  case (resumed c p now)
  have "\<exists>name args. command_op name args = Some (phase_op p)" by (rule phase_command)
  moreover have "good (phase_db p) (w_store w)"
    using world_phase [OF assms(2) resumed(1)] world_good [OF assms(2)] by simp
  ultimately show ?thesis
    using resumed world_phase [OF assms(2) resumed(1)]
    by (intro exI [of _ "[Call now later (phase_db p) (phase_op p)]"]) (simp add: event_of_def)
next
  case (logged cmds)
  then show ?thesis by (intro exI [of _ "[Written]"]) (simp add: event_of_def)
qed

lemma reachable_events:
  assumes "reachable NewRegistry enc w w'" and "world_ok w"
  shows "\<exists>es. list_all (event_of later) es \<and> run_steps event_step es (w_store w) = Ret (w_store w') \<and>
    faithful_history event_step event_ready es (w_store w) \<and>
    w_aof w' = w_aof w @ log_text (emitted event_step event_written es (w_store w))"
  using assms unfolding reachable_def
proof (induction rule: rtranclp_induct)
  case base
  show ?case by (intro exI [of _ "[]"]) simp
next
  case (step u v)
  then obtain es where es: "list_all (event_of later) es" "run_steps event_step es (w_store w) = Ret (w_store u)"
    "faithful_history event_step event_ready es (w_store w)"
    "w_aof u = w_aof w @ log_text (emitted event_step event_written es (w_store w))" by blast
  have "world_ok u" using step.hyps(1) step.prems reachable_ok [of enc w u] by (simp add: reachable_def)
  from store_step_events [OF server_step_store [OF step.hyps(2) this] this, of later] obtain es' where
    "list_all (event_of later) es'" "run_steps event_step es' (w_store u) = Ret (w_store v)"
    "faithful_history event_step event_ready es' (w_store u)"
    "w_aof v = w_aof u @ log_text (emitted event_step event_written es' (w_store u))" by blast
  with es show ?case
    by (intro exI [of _ "es @ es'"])
      (simp add: run_steps_append emitted_append [OF es(2)] faithful_append [OF es(2)] log_text_append)
qed

end
