(* ===== verification/CrashRecovery.thy ===== *)
theory CrashRecovery
  imports ServerHistory
begin

text \<open>
  The log as a prefix of the history: in a run without expiries, replaying what the file holds at any moment rebuilds the
  data of that or an earlier moment.
\<close>

section \<open>Requests without expiry\<close>

text \<open>
  A request that gives no key an expiry; a database without expiries and without empty hashes; and lists whose length is
  an \<open>int\<close>, as \<open>len\<close> returns it.
\<close>

definition expiry_free :: "RESPValue \<Rightarrow> bool" where
  "expiry_free v \<longleftrightarrow> (case request_parts v of [] \<Rightarrow> True
     | name # args \<Rightarrow> ToUpper name \<noteq> ''EXPIRE'' \<and> (ToUpper name = ''SET'' \<longrightarrow> length args \<le> 2))"

definition solid :: "database \<Rightarrow> bool" where
  "solid db \<longleftrightarrow> untimed db \<and> fmpred (\<lambda>_ v. Data v \<noteq> GMap fmempty) db"

definition lists_fit :: "Store \<Rightarrow> bool" where
  "lists_fit s \<longleftrightarrow> (\<forall>db \<in> set (data s). \<forall>k v xs. fmlookup db k = Some v \<longrightarrow> AsList v = Inr xs \<longrightarrow> in_int (int (length xs)))"

lemma field_value_loop_grows: "field_value_loop xs m = Ret m' \<Longrightarrow> m \<noteq> fmempty \<or> xs \<noteq> [] \<Longrightarrow> m' \<noteq> fmempty"
  by (induction xs m rule: field_value_loop.induct) auto

lemma int_arg_in_int [simp]: "in_int (int_arg a)"
  using Atoi_in_int [of a] by (simp add: int_arg_def)

text \<open>The operations such requests call on such a database.\<close>

definition plain_op :: "database \<Rightarrow> store_op \<Rightarrow> bool" where
  "plain_op db op \<longleftrightarrow> (case op of
     OpSet k v opts \<Rightarrow> opts = [] | OpExpire k d \<Rightarrow> False | OpDelete k \<Rightarrow> False
   | OpLPush k vs \<Rightarrow> vs \<noteq> [] | OpRPush k vs \<Rightarrow> vs \<noteq> []
   | OpLPop k (Some n) \<Rightarrow> in_int n | OpRPop k (Some n) \<Rightarrow> in_int n
   | OpLTrim k a b \<Rightarrow> (\<forall>xs. list_under db k = Some xs \<longrightarrow> in_int (int (length xs)))
   | OpHSet k m \<Rightarrow> m \<noteq> fmempty
   | _ \<Rightarrow> True)"

lemma solid_not_expired: "solid db \<Longrightarrow> fmlookup db k = Some v \<Longrightarrow> \<not> IsExpired now v"
  using untimed_expired [of db k v now] by (simp add: solid_def)

lemma list_under_fits:
  assumes "\<And>v xs. fmlookup db k = Some v \<Longrightarrow> AsList v = Inr xs \<Longrightarrow> in_int (int (length xs))"
  shows "list_under db k = Some xs \<Longrightarrow> in_int (int (length xs))"
  using assms by (auto simp: list_under_def int_bounds split: option.splits sum.splits)

lemma command_op_plain:
  assumes "command_op name args = Some op" and "name \<noteq> ''EXPIRE''" and "name = ''SET'' \<longrightarrow> length args \<le> 2"
    and "\<forall>k. op = OpDelete k \<longrightarrow> (\<exists>v. fmlookup db k = Some v \<and> IsExpired now v)"
    and "solid db" and "\<And>k v xs. fmlookup db k = Some v \<Longrightarrow> AsList v = Inr xs \<Longrightarrow> in_int (int (length xs))"
  shows "plain_op db op"
  using assms(1-5) list_under_fits [OF assms(6)] field_value_loop_grows
  by (auto simp: command_op_def plain_op_def hashFieldValueArgs_def solid_not_expired 
      split: if_splits list.splits outcome.splits)

lemma plain_op_faithful:
  assumes "plain_op db op" and "solid db"
  shows "time_free op \<and> replayable now i op db"
proof -
  have "fmlookup db k = Some v \<Longrightarrow> Data v \<noteq> GMap fmempty \<and> \<not> IsExpired now v" for k v
    using assms(2) by (auto simp: solid_def untimed_expired)
  with assms(1) show ?thesis
    by (cases op) (auto simp: plain_op_def time_free_def replayable_def parseSetOptions_def no_options_def
        split: option.splits)
qed

lemma solid_upd: "solid db \<Longrightarrow> ExpiresAt v = None \<Longrightarrow> Data v \<noteq> GMap fmempty \<Longrightarrow> solid (fmupd k v db)"
  by (auto simp: solid_def untimed_upd)

lemma solid_drop: "solid db \<Longrightarrow> solid (fmdrop k db)"
  by (auto simp: solid_def untimed_drop)

lemma solid_lookup: "solid db \<Longrightarrow> fmlookup db k = Some v \<Longrightarrow> ExpiresAt v = None \<and> Data v \<noteq> GMap fmempty"
  by (auto simp: solid_def untimed_lookup)

lemma solid_empty [simp]: "solid fmempty"
  by (simp add: solid_def)

lemma db_spec_solid:
  assumes "plain_op db op" and "solid db"
  shows "solid (fst (db_spec now i op db))"
proof (cases op)
  case (OpHSet k m)
  have put: "h ++\<^sub>f fmmap f m \<noteq> fmempty" if m: "m \<noteq> fmempty" for h :: "(string, goval) fmap" and f
  proof -
    from m obtain k where "k |\<in>| fmdom m" by (metis equalsffemptyI fmrestrict_fset_dom fmrestrict_fset_null)
    then have "k |\<in>| fmdom (h ++\<^sub>f fmmap f m)" by simp
    then show ?thesis by (metis fmdom_empty fempty_iff)
  qed
  have "m \<noteq> fmempty \<Longrightarrow> fmmap f m \<noteq> fmempty" for f :: "goval \<Rightarrow> goval" using put [where h = fmempty] by simp
  with put OpHSet assms show ?thesis
    by (auto simp: plain_op_def hset_spec_def Let_def New_defs split: option.splits sum.splits
        intro!: solid_upd dest: solid_lookup)
qed (use assms in \<open>auto simp: plain_op_def set_spec_def set_value_spec_def New_defs add_spec_def push_spec_def
        put_list_def pop_spec_def trim_spec_def rename_spec_def hdel_spec_def Let_def parseSetOptions_def no_options_def
        split: sum.splits option.splits prod.splits if_splits
        intro!: solid_upd solid_drop dest: solid_lookup\<close>)

lemma plain_log_length:
  assumes "time_free op"
  shows "length (snd (db_spec now i op db)) \<le> 1"
  using assms
  by (cases op) (auto simp: time_free_def set_spec_def set_log_spec_def no_options_def add_spec_def push_spec_def
    pop_spec_def trim_spec_def rename_spec_def hset_spec_def hdel_spec_def Let_def
    split: sum.splits option.splits prod.splits if_splits)


section \<open>Replaying\<close>

text \<open>
  Replaying \<open>cmds\<close>, at any readings of the clock, into any store with the data \<open>d\<close> and room for what is logged again,
  gives the data \<open>d'\<close>.
\<close>

definition replays :: "AOFCommand list \<Rightarrow> database list \<Rightarrow> database list \<Rightarrow> bool" where
  "replays cmds d d' \<longleftrightarrow> (\<forall>clk j t n. wf_store t \<and> data t = d \<and> aof_room t (length cmds + Suc n) \<longrightarrow>
     (\<exists>t'. replay (stamped clk j cmds) t = Ret t' \<and> wf_store t' \<and> data t' = d' \<and> aof_room t' (Suc n)))"

lemma replays_Nil: "replays [] d d"
  by (simp add: replays_def)

lemma replays_append:
  assumes "replays xs d d'" and "replays ys d' d''"
  shows "replays (xs @ ys) d d''"
  unfolding replays_def
proof (intro allI impI)
  fix clk j t n
  assume t: "wf_store t \<and> data t = d \<and> aof_room t (length (xs @ ys) + Suc n)"
  then have "aof_room t (length xs + Suc (length ys + n))" by (simp add: add.assoc)
  with t assms(1) obtain t1 where t1: "replay (stamped clk j xs) t = Ret t1" "wf_store t1" "data t1 = d'"
      "aof_room t1 (Suc (length ys + n))" unfolding replays_def by blast
  then have "aof_room t1 (length ys + Suc n)" by simp
  with t1 assms(2) obtain t2 where "replay (stamped clk (j + length xs) ys) t1 = Ret t2" "wf_store t2" "data t2 = d''"
      "aof_room t2 (Suc n)" unfolding replays_def by blast
  with t1(1) show "\<exists>t'. replay (stamped clk j (xs @ ys)) t = Ret t' \<and> wf_store t' \<and> data t' = d'' \<and> aof_room t' (Suc n)"
    by (simp add: stamped_append replay_append)
qed

lemma run_op_replays:
  assumes "ready i t" and "op \<noteq> OpFlushAll" and "time_free op" and "aof_room t (Suc (Suc n))"
  shows "\<exists>t'. run_op now i op t = Ret t' \<and> wf_store t' \<and>
    data t' = (data t)[nat i := fst (db_spec now i op (data t ! nat i))] \<and> aof_room t' (Suc n)"
proof -
  let ?u = "t\<lparr>data := (data t)[nat i := fst (db_spec now i op (data t ! nat i))]\<rparr>"
  let ?cs = "snd (db_spec now i op (data t ! nat i))"
  have r: "run_op now i op t = Ret (sent ?u ?cs)"
    using run_op_refines [OF assms(1), of now op] assms(2) by (simp add: op_spec_def split_def Let_def)
  moreover have "wf_store (sent ?u ?cs)"
    using safely_run_op [of i t now op] assms(1) r by (simp add: ready_def good_def)
  moreover have "aof_room (sent ?u ?cs) (Suc n)"
  proof (rule aof_room_sent_list)
    have "aof_room ?u (Suc (Suc n))" using assms(4) by (simp add: aof_room_def)
    then show "aof_room ?u (length ?cs + Suc n)"
      by (rule aof_room_mono) (use plain_log_length [OF assms(3), of now i "data t ! nat i"] in simp)
  qed
  ultimately show ?thesis by simp
qed

lemma op_replays:
  assumes "good i s" and "plain_op (data s ! nat i) op" and "solid (data s ! nat i)"
  shows "replays (snd (op_spec now i op (data s))) (data s) (fst (op_spec now i op (data s)))"
proof (cases "op = OpFlushAll")
  case True
  show ?thesis unfolding replays_def
  proof (intro allI impI)
    fix clk :: "nat \<Rightarrow> time" and j t n
    assume t: "wf_store t \<and> data t = data s \<and> aof_room t (length (snd (op_spec now i op (data s))) + Suc n)"
    then have "aof_room t 2" using True aof_room_mono [of t "Suc (Suc n)" 2] by (simp add: op_spec_def)
    with t have "ready 0 t"
      by (auto simp: ready_def good_def aof_open_def aof_room_def wf_store_valid split: option.splits)
    from Flush_spec(2) [OF this, of "clk j"] t True
    show "\<exists>t'. replay (stamped clk j (snd (op_spec now i op (data s)))) t = Ret t' \<and> wf_store t' \<and>
        data t' = fst (op_spec now i op (data s)) \<and> aof_room t' (Suc n)"
      using aof_room_sent [of "t\<lparr>data := d\<rparr>" "Suc n" for d]
      by (auto simp: op_spec_def dispatch_ops [of 0] int_bounds wf_store_def list_all_iff)
         (simp add: aof_room_def)
  qed
next
  case False
  let ?db = "data s ! nat i"
  note faithful = plain_op_faithful [OF assms(2,3), of now i]
  have i: "in_int i" using assms(1) by (auto simp: good_def wf_store_valid int_bounds)
  have len: "length (snd (db_spec now i op ?db)) \<le> 1"
    using faithful by (intro plain_log_length) simp
  have disp: "map (dispatchAOF later) (snd (db_spec now i op ?db)) = map (run_op later i) (redo_ops now i op ?db)" for later
    using dispatch_redo [OF i _ False, of now ?db later] faithful by simp
  have eff: "apply_ops later i (redo_ops now i op ?db) ?db = fst (db_spec now i op ?db)" for later
    using apply_redo_ops [OF _ False, of now i ?db] faithful redo_ops_time_free [of op now i ?db]
      apply_ops_time_free [of "redo_ops now i op ?db" ?db later i now] assms(3) by (simp add: solid_def)
  show ?thesis
  proof (cases "snd (db_spec now i op ?db)")
    case Nil
    with disp have "redo_ops now i op ?db = []" by simp
    with eff have "fst (db_spec now i op ?db) = ?db" by simp
    with Nil False show ?thesis by (simp add: op_spec_def split_def Let_def replays_Nil)
  next
    case (Cons c cs)
    with len have c: "snd (db_spec now i op ?db) = [c]" by simp
    with disp obtain op' where op': "redo_ops now i op ?db = [op']" by fastforce
    have d: "dispatchAOF later c = run_op later i op'" for later using disp [of later] c op' by simp
    have ok: "time_free op'" "op' \<noteq> OpFlushAll"
      using redo_ops_time_free [of op now i ?db] faithful redo_ops_no_FlushAll [OF False, of now i ?db] op' by auto
    show ?thesis unfolding replays_def
    proof (intro allI impI)
      fix clk :: "nat \<Rightarrow> time" and j t n
      assume t: "wf_store t \<and> data t = data s \<and> aof_room t (length (snd (op_spec now i op (data s))) + Suc n)"
      then have room: "aof_room t (Suc (Suc n))" using False c by (simp add: op_spec_def split_def Let_def)
      then have "aof_room t 2" by (rule aof_room_mono) simp
      with t assms(1) have "ready i t"
        by (auto simp: ready_def good_def aof_open_def aof_room_def wf_store_valid split: option.splits)
      from run_op_replays [OF this ok(2,1) room, of "clk j"] t False c d eff [of "clk j"] op'
      show "\<exists>t'. replay (stamped clk j (snd (op_spec now i op (data s)))) t = Ret t' \<and> wf_store t' \<and>
          data t' = fst (op_spec now i op (data s)) \<and> aof_room t' (Suc n)"
        by (auto simp: op_spec_def split_def Let_def)
    qed
  qed
qed

section \<open>Runs without expiry\<close>

text \<open>
  A step of the server while no client asks for an expiry, no list is longer than an \<open>int\<close>, and the pending
  commands are small enough to be read back.
\<close>

definition plain_step :: "gob_encoder \<Rightarrow> World \<Rightarrow> World \<Rightarrow> bool" where
  "plain_step enc w w' \<longleftrightarrow> server_step NewRegistry enc w w' \<and> lists_fit (w_store w) \<and>
     (\<forall>c input v rest. fmlookup (w_inputs w) c = Some input \<longrightarrow> Parse input = Ret (Inr v, rest) \<longrightarrow> expiry_free v) \<and>
     list_all loggable (pending (w_store w'))"

abbreviation plain_run :: "gob_encoder \<Rightarrow> World \<Rightarrow> World \<Rightarrow> bool" where
  "plain_run enc \<equiv> (plain_step enc)\<^sup>*\<^sup>*"

definition solid_store :: "Store \<Rightarrow> bool" where
  "solid_store s \<longleftrightarrow> list_all solid (data s) \<and> aofChan s \<noteq> None"

text \<open>
  The commands \<open>p\<close> lead from the data of the first world to the data at some moment of the run; and the invariant of a
  run: the file and what is pending lead to the present data, and every part of them to an earlier moment.
\<close>

definition consistent :: "gob_encoder \<Rightarrow> World \<Rightarrow> World \<Rightarrow> AOFCommand list \<Rightarrow> bool" where
  "consistent enc w0 w p \<longleftrightarrow> (\<exists>w1. plain_run enc w0 w1 \<and> plain_run enc w1 w \<and>
     replays p (data (w_store w0)) (data (w_store w1)))"

definition no_deletion :: "World \<Rightarrow> bool" where
  "no_deletion w \<longleftrightarrow> (\<forall>c i k. fmlookup (w_phases w) c \<noteq> Some (Deleting i k))"

definition recoverable :: "gob_encoder \<Rightarrow> World \<Rightarrow> World \<Rightarrow> AOFCommand list \<Rightarrow> bool" where
  "recoverable enc w0 w written \<longleftrightarrow> world_ok w \<and> solid_store (w_store w) \<and> no_deletion w \<and> w_aof w = log_text written \<and>
     list_all loggable (written @ pending (w_store w)) \<and>
     replays (written @ pending (w_store w)) (data (w_store w0)) (data (w_store w)) \<and>
     (\<forall>p. prefix p (written @ pending (w_store w)) \<longrightarrow> consistent enc w0 w p)"

text \<open>A step of the store in a run without expiry: some commands are logged, and replaying them repeats it.\<close>

lemma plain_operation:
  assumes "run_op now i op s = Ret s'" and "good i s" and "solid_store s" and "plain_op (data s ! nat i) op"
  shows "\<exists>cs. length cs \<le> 1 \<and> pending s' = pending s @ cs \<and> replays cs (data s) (data s') \<and> solid_store s'"
proof -
  let ?db = "data s ! nat i"
  let ?cs = "snd (op_spec now i op (data s))"
  note s' = run_op_Ret [OF assms(2,1)]
  have sol: "solid ?db"
    using assms(2,3) by (auto simp: solid_store_def list_all_iff good_def valid_index_def)
  have "list_all solid (data s')"
    using assms(3) db_spec_solid [OF assms(4) sol, of now i] s'
    by (auto simp: op_spec_def solid_store_def list_all_iff split_def Let_def
        dest: set_update_subset_insert [THEN subsetD])
  moreover have "aofChan s' \<noteq> None" "pending s' = pending s @ ?cs"
    using assms(3) s' by (auto simp: solid_store_def aofChan_sent pending_sent_list) (auto simp: pending_def)
  moreover have "length ?cs \<le> 1"
    using plain_log_length [of op now i ?db] plain_op_faithful [OF assms(4) sol, of now i]
    by (simp add: op_spec_def split_def Let_def)
  ultimately show ?thesis
    using op_replays [OF assms(2,4) sol, of now] s' by (intro exI [of _ ?cs]) (simp add: solid_store_def)
qed

lemma plain_called:
  assumes "request_calls i v s s'" and "expiry_free v" and "good i s" and "solid_store s" and "lists_fit s"
  shows "\<exists>cs. length cs \<le> 1 \<and> pending s' = pending s @ cs \<and> replays cs (data s) (data s') \<and> solid_store s'"
proof (cases "s' = s")
  case True
  with assms(4) show ?thesis by (intro exI [of _ "[]"]) (simp add: replays_Nil)
next
  case False
  let ?db = "data s ! nat i"
  obtain name args now op where parts: "request_parts v = name # args" "command_op (ToUpper name) args = Some op"
    and run: "run_op now i op s = Ret s'"
    and del: "\<forall>k. op = OpDelete k \<longrightarrow> (\<exists>v. fmlookup ?db k = Some v \<and> IsExpired now v)"
    using assms(1) False by (auto simp: request_calls_def calls_def split: list.splits)
  have mem: "?db \<in> set (data s)" using assms(3) by (auto simp: good_def valid_index_def)
  with assms(4) have sol: "solid ?db" by (simp add: solid_store_def list_all_iff)
  have "plain_op ?db op"
    by (rule command_op_plain [OF parts(2) _ _ del sol])
      (use assms(2,5) parts(1) mem in \<open>auto simp: expiry_free_def lists_fit_def\<close>)
  from plain_operation [OF run assms(3,4) this] show ?thesis .
qed

text \<open>Without expiries no \<open>GET\<close> comes to delete what it has read.\<close>

lemma solid_store_get:
  assumes "Store_Get s now i k = Ret (Some v)" and "solid_store s"
  shows "\<not> IsExpired now' v"
proof -
  from assms(1) have "valid_index s i" "fmlookup (data s ! nat i) k = Some v"
    by (auto simp: Store_Get_def lookup_def db_at_def split: option.splits if_splits)
  moreover from this assms(2) have "solid (data s ! nat i)"
    by (auto simp: solid_store_def list_all_iff valid_index_def)
  ultimately show ?thesis by (simp add: solid_not_expired)
qed

lemma server_step_no_deletion:
  assumes "server_step reg enc w w'" and "no_deletion w" and "solid_store (w_store w)"
  shows "no_deletion w'"
  using assms by cases (auto simp: no_deletion_def dest: solid_store_get)

lemma plain_store_step:
  assumes "store_step w w'" and "world_ok w" and "plain_step enc w w'" and "solid_store (w_store w)"
    and "w_aof w = log_text written" and "no_deletion w"
  shows "\<exists>written' cs. w_aof w' = log_text written' \<and> length cs \<le> 1 \<and>
    written' @ pending (w_store w') = written @ pending (w_store w) @ cs \<and>
    replays cs (data (w_store w)) (data (w_store w')) \<and> solid_store (w_store w') \<and>
    set cs \<subseteq> set (pending (w_store w'))"
  using assms(1)
proof cases
  case silent
  with assms(4,5) show ?thesis by (intro exI [of _ written] exI [of _ "[]"]) (simp add: replays_Nil)
next
  case (called c input v rest)
  have "expiry_free v" using assms(3) called by (auto simp: plain_step_def)
  moreover have "good (getCurrentDb (w_server w) c) (w_store w)"
    using world_good [OF assms(2)] getCurrentDb_ok assms(2) by (simp add: world_ok_def)
  ultimately obtain cs where "length cs \<le> 1 \<and> pending (w_store w') = pending (w_store w) @ cs \<and>
      replays cs (data (w_store w)) (data (w_store w')) \<and> solid_store (w_store w')"
    using plain_called [OF called(3)] assms(3,4) by (auto simp: plain_step_def)
  with called(4) assms(5) show ?thesis by (intro exI [of _ written] exI [of _ cs]) simp
next
  case (resumed c p now)
  have "good (phase_db p) (w_store w)"
    using world_phase [OF assms(2) resumed(1)] world_good [OF assms(2)] by simp
  moreover have "plain_op (data (w_store w) ! nat (phase_db p)) (phase_op p)"
    using resumed(1) assms(6) by (cases p) (auto simp: plain_op_def no_deletion_def)
  ultimately obtain cs where "length cs \<le> 1 \<and> pending (w_store w') = pending (w_store w) @ cs \<and>
      replays cs (data (w_store w)) (data (w_store w')) \<and> solid_store (w_store w')"
    using plain_operation [OF resumed(2) _ assms(4)] by blast
  with resumed(3) assms(5) show ?thesis by (intro exI [of _ written] exI [of _ cs]) simp
next
  case (logged cmds)
  with take_pending_split [of "w_store w"] take_pending_data [of "w_store w"] assms(4)
  have "cmds @ pending (w_store w') = pending (w_store w)" "aofChan (w_store w') \<noteq> None" "data (w_store w') = data (w_store w)"
    by (auto simp: solid_store_def)
  with logged(2) assms(4,5) show ?thesis
    by (intro exI [of _ "written @ cmds"] exI [of _ "[]"]) (simp add: log_text_append replays_Nil solid_store_def)
qed

lemma plain_step_recoverable:
  assumes "plain_step enc w w'" and "recoverable enc w0 w written" and "plain_run enc w0 w"
  shows "\<exists>written'. recoverable enc w0 w' written'"
proof -
  have ok: "world_ok w" and step: "server_step NewRegistry enc w w'"
    using assms(1,2) by (simp_all add: recoverable_def plain_step_def)
  let ?cmds = "written @ pending (w_store w)"
  have r: "solid_store (w_store w)" "w_aof w = log_text written" "no_deletion w" "list_all loggable ?cmds"
    "replays ?cmds (data (w_store w0)) (data (w_store w))" "\<And>p. prefix p ?cmds \<Longrightarrow> consistent enc w0 w p"
    using assms(2) by (simp_all add: recoverable_def)
  from plain_store_step [OF server_step_store [OF step ok] ok assms(1) r(1-3)] obtain written' cs where
    w': "w_aof w' = log_text written'" "length cs \<le> 1" "written' @ pending (w_store w') = ?cmds @ cs"
      "replays cs (data (w_store w)) (data (w_store w'))" "solid_store (w_store w')"
      "set cs \<subseteq> set (pending (w_store w'))" by auto
  note all = replays_append [OF r(5) w'(4)]
  have "consistent enc w0 w' p" if "prefix p (?cmds @ cs)" for p
  proof (cases "prefix p ?cmds")
    case True
    from r(6) [OF this] assms(1) show ?thesis
      unfolding consistent_def by (meson rtranclp.rtrancl_into_rtrancl)
  next
    case False
    with that w'(2) have "p = ?cmds @ cs"
      by (cases cs) (auto simp: prefix_append prefix_Cons)
    with all assms(1,3) show ?thesis
      unfolding consistent_def by (metis rtranclp.rtrancl_into_rtrancl rtranclp.rtrancl_refl)
  qed
  moreover have "list_all loggable (written' @ pending (w_store w'))"
    unfolding w'(3) using r(4) w'(6) assms(1) by (auto simp: plain_step_def list_all_iff)
  ultimately have "recoverable enc w0 w' written'"
    using w' all server_step_ok [OF step ok] server_step_no_deletion [OF step r(3,1)] by (simp add: recoverable_def)
  then show ?thesis ..
qed


lemma plain_run_recoverable:
  assumes "plain_run enc w0 w" and "world_ok w0" and "solid_store (w_store w0)" and "w_aof w0 = []"
    and "pending (w_store w0) = []" and "no_deletion w0"
  shows "\<exists>written. recoverable enc w0 w written"
  using assms(1)
proof (induction rule: rtranclp_induct)
  case base
  have "recoverable enc w0 w0 []"
    using assms(2-6) by (auto simp: recoverable_def consistent_def replays_Nil)
  then show ?case ..
next
  case (step u v)
  then show ?case using plain_step_recoverable by blast
qed

lemma plain_run_reachable: "plain_run enc w w' \<Longrightarrow> reachable NewRegistry enc w w'"
  unfolding reachable_def by (erule rtranclp_mono [THEN predicate2D, rotated]) (auto simp: plain_step_def)

end
