(* ===== verification/Lifecycle.thy ===== *)
theory Lifecycle
  imports EntryPoint Restarts ServerHistory
begin

text \<open>
  The life of a process: \<open>main\<close> (\<open>cmd/goodiesdb-server/main.go\<close>) from the two files it starts on, through any run of
  the server, to the signal that ends it and the files it leaves. A signal during the recovery is not modelled.
\<close>

section \<open>The configuration of a run\<close>

lemma frames_config [simp]:
  "srv_config (write_bytes c bs s) = srv_config s" "srv_config (write_value c v s) = srv_config s"
  "srv_config (set_broker c b s) = srv_config s" "srv_config (open_conn c s) = srv_config s"
  "srv_config (drain_step s) = srv_config s" "srv_config (writer_step c s) = srv_config s"
  by (simp_all add: write_bytes_def write_value_def set_broker_def open_conn_def drain_step_def writer_step_def Let_def
      split: list.splits prod.splits option.splits)

lemma server_step_config: "server_step NewRegistry enc w w' \<Longrightarrow> srv_config (w_server w') = srv_config (w_server w)"
proof (induction rule: server_step.induct)
  case (request w c input env rest s')
  from request.hyps(4) show ?case
  proof (cases rule: handle_turn_Some)
    case (good v)
    with handle_request_apart [of env c v "w_server w"] show ?thesis by (simp add: apart_def)
  qed simp
next
  case (leave w c input env s')
  from handle_turn_None [OF leave.hyps(3)] show ?case by (auto simp: end_conn_def close_conn_def Let_def)
qed simp_all

lemma reachable_config: "reachable NewRegistry enc w w' \<Longrightarrow> srv_config (w_server w') = srv_config (w_server w)"
  unfolding reachable_def by (induction rule: rtranclp_induct) (simp_all add: server_step_config)

section \<open>The process\<close>

record Files =
  f_rdb :: file_system_result
  f_aof :: file_system_result

text \<open>
  The first half of \<open>main\<close>: configuration, \<open>NewServer\<close> and \<open>Start\<close>. \<open>listen\<close> is the result of \<open>net.Listen\<close>;
  when it fails, \<open>Start\<close> returns after the recovery, and the server never listens.
\<close>

definition main_start :: "gob_decoder \<Rightarrow> (nat \<Rightarrow> time) \<Rightarrow> goerror option \<Rightarrow> (string \<Rightarrow> string) \<Rightarrow> Files \<Rightarrow> World outcome" where
  "main_start dec clk listen getenv files =
     (let srv = NewServer (main_config getenv) in
      andThen (Start dec clk (f_rdb files) (f_aof files) srv) (\<lambda>s.
        Ret (started (case listen of None \<Rightarrow> s | Some _ \<Rightarrow> s\<lparr>listening := False\<rparr>) (f_rdb files) (f_aof files))))"

text \<open>
  The second half, after a signal or a failed start: \<open>Shutdown\<close>, and the end of the process. The goroutine
  of the log writer still takes what it finds in the closed channel, but nothing waits for it: \<open>drained\<close> is what it has
  written when the process ends.
\<close>

definition main_stop :: "gob_encoder \<Rightarrow> goerror option \<Rightarrow> AOFCommand list \<Rightarrow> Files \<Rightarrow> World \<Rightarrow> Files outcome" where
  "main_stop enc create drained files w =
     andThen (Shutdown enc create (w_rdb w) (w_server w)) (\<lambda>(rdbFile, s).
       Ret \<lparr>f_rdb = rdbFile, f_aof = (if cfg_UseAOF (srv_config s)
         then Inr (fst (AOFWriter drained (w_aof w))) else f_aof files)\<rparr>)"

text \<open>
  A whole process: it starts on \<open>files\<close>, is stopped in the world \<open>w\<close> and leaves \<open>files'\<close>.
\<close>

inductive session :: "gob_encoder \<Rightarrow> gob_decoder \<Rightarrow> goerror option \<Rightarrow> (string \<Rightarrow> string) \<Rightarrow> Files \<Rightarrow> World \<Rightarrow> Files \<Rightarrow> bool"
  for enc dec create getenv files where
  "main_start dec clk listen getenv files = Ret w0 \<Longrightarrow> reachable NewRegistry enc w0 w \<Longrightarrow>
   prefix drained (pending (srv_store (w_server w))) \<Longrightarrow>
   main_stop enc create drained files w = Ret files' \<Longrightarrow> session enc dec create getenv files w files'"

lemma main_config_persistence:
  "cfg_UseRDB (main_config getenv) \<longleftrightarrow> getenv ''USE_RDB'' \<in> {[], ''true''}"
  "cfg_UseAOF (main_config getenv) \<longleftrightarrow> getenv ''USE_AOF'' \<in> {[], ''true''}"
  by (auto simp: main_config_def LoadFromEnv_def NewConfig_def Let_def)

lemma main_start_ok:
  assumes "main_start dec clk listen getenv files = Ret w" and "snapshots_ok dec"
  shows "world_ok w \<and> srv_config (w_server w) = main_config getenv"
proof -
  from assms(1) obtain s where s: "Start dec clk (f_rdb files) (f_aof files) (NewServer (main_config getenv)) = Ret s"
    and w: "w = started (case listen of None \<Rightarrow> s | Some _ \<Rightarrow> s\<lparr>listening := False\<rparr>) (f_rdb files) (f_aof files)"
    by (auto simp: main_start_def Let_def)
  from recovered_server [OF s assms(2)] obtain st where "good 0 st" "s = (NewServer (main_config getenv))\<lparr>srv_store := st, listening := True\<rparr>"
    by blast
  with start_ok [of "main_config getenv"] w show ?thesis
    by (auto simp: world_ok_def server_ok_def NewServer_def started_def split: option.splits)
qed

lemma session_world:
  assumes "main_start dec clk listen getenv files = Ret w0" and "reachable NewRegistry enc w0 w" and "snapshots_ok dec"
  shows "world_ok w \<and> srv_config (w_server w) = main_config getenv"
  using main_start_ok [OF assms(1,3)] reachable_ok [OF assms(2)] reachable_config [OF assms(2)] by simp

text \<open>A well-formed server shuts down without a panic, and saves the data it has.\<close>

lemma Shutdown_saves:
  assumes "server_ok s"
  shows "\<exists>s'. Shutdown enc create old s = Ret ((if cfg_UseRDB (srv_config s)
      then snd (SaveSnapshot enc create (srv_store s) old) else old), s') \<and> srv_config s' = srv_config s"
proof -
  have "aof_open (srv_store s)" using assms by (simp add: server_ok_def good_def)
  then show ?thesis
    by (auto simp: Shutdown_def stopAcceptLoop_def Let_def aof_open_def chan_close_def SaveSnapshot_def GetSnapshot_def
        split: option.splits)
qed

lemma Start_loads:
  assumes "gob_inverse enc dec" and "enc d = (bs, None)" and "cfg_UseRDB config"
  shows "Start dec clk (Inr bs) aofFile (NewServer config) =
    Ret ((NewServer config)\<lparr>srv_store := (srv_store (NewServer config))\<lparr>data := d\<rparr>, listening := True\<rparr>)"
  using assms by (simp add: Start_def recoverStore_def LoadSnapshot_def RestoreFromSnapshot_def gob_inverse_def NewServer_def Let_def)

lemma main_stop_files:
  assumes "world_ok w"
  shows "main_stop enc create drained files w = Ret
    \<lparr>f_rdb = (if cfg_UseRDB (srv_config (w_server w)) then snd (SaveSnapshot enc create (srv_store (w_server w)) (w_rdb w)) else w_rdb w),
     f_aof = (if cfg_UseAOF (srv_config (w_server w)) then Inr (w_aof w @ log_text drained) else f_aof files)\<rparr>"
  using Shutdown_saves [of "w_server w" enc create "w_rdb w"] assms
  by (auto simp: main_stop_def world_ok_def AOFWriter_text)

end
