(* ===== verification/Samples.thy ===== *)
theory Samples
  imports Restarts Sessions EntryPoint StoreAliasing CrashRecovery Lifecycle
begin

text \<open>
  Concrete servers, brokers and snapshots at which the properties of the root theory are applied: a
  server with one connection, that connection after it subscribed, a server with data, a broker
  with one connection under two patterns, and a list in memory.
\<close>

section \<open>Servers\<close>

definition sample_env :: Env where
  "sample_env = \<lparr>env_now = 0, env_now2 = 0, env_order = [], env_regexp = (\<lambda>_. Inr (\<lambda>_. True)),
     env_glob = (\<lambda>_ _. Inr True), env_conns = [], env_patterns = [], env_addr = ''127.0.0.1:9''\<rparr>"

text \<open>A server with one connection, number 7.\<close>

definition sample_server :: Server where
  "sample_server = open_conn 7 ((NewServer NewConfig)\<lparr>listening := True\<rparr>)"

lemma sample_server_ok: "server_ok sample_server" "7 |\<in>| fmdom (connections sample_server)"
proof -
  have "server_ok ((NewServer NewConfig)\<lparr>listening := True\<rparr>)"
    using start_ok [of NewConfig] by (simp add: server_ok_def)
  then show "server_ok sample_server"
    unfolding sample_server_def by (rule open_conn_ok) (simp add: NewServer_def)
  show "7 |\<in>| fmdom (connections sample_server)"
    by (simp add: sample_server_def open_conn_def Let_def)
qed

lemma sample_conn: "fmlookup (connections sample_server) 7 = Some (newConn\<lparr>conn_id := 1\<rparr>)"
  "conn_mode_of sample_server 7 = ModeNormal" "getCurrentDb sample_server 7 = 0"
  by (simp_all add: sample_server_def open_conn_def conn_mode_of_def getCurrentDb_def newConn_def NewServer_def wrap64_def Let_def)

lemma sample_upper: "ToUpper ''set'' = ''SET''" "ToUpper ''Ping'' = ''PING''" "ToUpper ''nosuch'' = ''NOSUCH''"
   "ToUpper ''QUIT'' = ''QUIT''" "ToUpper ''FLUSHALL'' = ''FLUSHALL''"
  by code_simp+

lemma sample_store: "srv_store sample_server = NewStore (Some (make_chan 100))"
  by (simp add: sample_server_def open_conn_def NewServer_def Let_def)

lemma sample_config: "srv_config sample_server = NewConfig"
  by (simp add: sample_server_def open_conn_def NewServer_def Let_def)

lemma sample_set: "\<exists>s'. handle_request NewRegistry sample_env 7 (arr (map bulk [''set'', ''k'', ''v''])) sample_server = Ret s' \<and>
    executeCommand NewRegistry sample_env 7 (arr (map bulk [''set'', ''k'', ''v''])) sample_server =
      Ret (Inr (Some OK), sample_server\<lparr>srv_store := srv_store s'\<rparr>)"
proof -
  have "cmd_Validate SetCommand [''k'', ''v''] = None" "SetCommand \<in> set all_commands"
    "ToUpper ''set'' = cmd_Name SetCommand"
    by (simp_all add: SetCommand_def all_commands_def)
  from executeCommand_command [OF this(2,3,1), of sample_env 7 sample_server] show ?thesis
    by (simp add: handle_request_def answer_def sample_conn)
      (simp add: SetCommand_def sample_env_def sample_store command_helpers evaluate_state op_defs evaluate_values)
qed

text \<open>The same server after the connection subscribed to a channel.\<close>

definition sample_subscribed :: Server where
  "sample_subscribed = SetMode 7 1 (set_broker 7 (snd (Subscribe (srv_broker sample_server) 7 ''news'')) sample_server)"

lemma sample_subscribed_mode: "conn_mode_of sample_subscribed 7 = ModeSubscriber"
  by (simp add: sample_subscribed_def sample_server_def open_conn_def NewServer_def newConn_def Let_def
      Subscribe_def newPubSubBroker_def getOrCreateChan_def set_broker_def SetMode_def GetConnChan_def
      update_conn_def conn_mode_of_def add_sub_def)

text \<open>A server with data, and an encoding of snapshots that knows one list of databases.\<close>

definition sample_full :: Server where
  "sample_full = sample_server\<lparr>srv_store := (NewStore (Some (make_chan 100)))
     \<lparr>data := (data (NewStore None))[3 := fmupd ''k'' (NewStringValue ''v'') fmempty]\<rparr>\<rparr>"

lemma sample_full_config: "srv_config sample_full = NewConfig"
  by (simp add: sample_full_def sample_server_def open_conn_def NewServer_def Let_def)

lemma sample_full_ok: "server_ok sample_full"
proof -
  have "good 3 (srv_store sample_full)"
    by (simp add: sample_full_def evaluate_good evaluate_state evaluate_values)
  from kept_store [OF kept_refl [OF sample_server_ok(1)] this] show ?thesis
    by (simp add: kept_def sample_full_def)
qed

definition sample_enc :: "database list \<Rightarrow> gob_encoder" where
  "sample_enc d = (\<lambda>d'. if d' = d then (''gob'', None) else ([], Some ''unsupported''))"

definition sample_dec :: "database list \<Rightarrow> gob_decoder" where
  "sample_dec d = (\<lambda>bytes. if bytes = ''gob'' then Inr d else Inl ''EOF'')"

lemma sample_gob: "gob_inverse (sample_enc d) (sample_dec d)"
  by (simp add: gob_inverse_def sample_enc_def sample_dec_def)

text \<open>Two clients with a request each that has not been read, on a given store.\<close>

definition client_request :: "string list \<Rightarrow> string" where
  "client_request ws = fst (Encode (arr (map bulk ws)))"

definition two_clients :: "string list \<Rightarrow> string list \<Rightarrow> Store \<Rightarrow> World" where
  "two_clients ws ws' st = \<lparr>w_server = (open_conn 8 sample_server)\<lparr>srv_store := st\<rparr>,
     w_inputs = fmupd 7 (client_request ws) (fmupd 8 (client_request ws') fmempty), w_aof = [], w_rdb = Inl ''absent'',
     w_phases = fmempty\<rparr>"

lemma client_request_parses: "list_all (wire_ok \<circ> bulk) ws \<Longrightarrow>
    wire_ok (arr (map bulk ws)) \<Longrightarrow> Parse (client_request ws) = Ret (Inr (arr (map bulk ws)), [])"
  using resp2.parse_encode [of "arr (map bulk ws)" "[]"] by (simp add: client_request_def del: wire_ok.simps)

lemma two_clients_facts: 
  "fmlookup (w_inputs (two_clients ws ws' st)) 7 = Some (client_request ws)"
  "fmlookup (w_inputs (two_clients ws ws' st)) 8 = Some (client_request ws')"
  "fmlookup (w_phases (two_clients ws ws' st)) c = None"
  "conn_mode_of (w_server (two_clients ws ws' st)) 7 = ModeNormal"
  "conn_mode_of (w_server (two_clients ws ws' st)) 8 = ModeNormal"
  "getCurrentDb (w_server (two_clients ws ws' st)) c = 0"
  "srv_store (w_server (two_clients ws ws' st)) = st"
  "closedConns (w_server (two_clients ws ws' st)) = fempty"
  by (simp_all add: two_clients_def sample_server_def conn_mode_of_def getCurrentDb_def NewServer_def
     newConn_def open_conn_def Let_def wrap64_def split: option.splits)

lemma two_clients_output: "output_of (w_server (two_clients ws ws' st)) c = []"
  by (simp add: two_clients_def sample_server_def open_conn_def NewServer_def output_of_def Let_def)

text \<open>A store with a value that expires at 13.\<close>

definition expiring_store :: Store where
  "expiring_store = (NewStore (Some (make_chan 100)))\<lparr>data := (data (NewStore None))
     [0 := fmupd ''k'' (SetExpiration 3 10 (NewStringValue ''v'')) fmempty]\<rparr>"

lemma expiring_store_facts: "Store_Get expiring_store 5 0 ''k'' = Ret (Some (SetExpiration 3 10 (NewStringValue ''v'')))"
    "IsExpired 20 (SetExpiration 3 10 (NewStringValue ''v''))" "valid_index expiring_store 0" "aof_room expiring_store 1"
    "aofChan expiring_store \<noteq> None" "pending expiring_store = []"
  by (simp_all add: expiring_store_def Store_Get_def lookup_def db_at_def valid_index_def NewStore_def aof_room_def chan_room_def make_chan_def pending_def
     IsExpired_def SetExpiration_def Time_After_def Time_Add_def)

section \<open>Broker\<close>

definition sample_broker :: PubSubBroker where
  "sample_broker = snd (PSubscribe (snd (PSubscribe newPubSubBroker 1 ''n*'')) 1 ''*s'')"

lemma sample_broker_ok: "broker_ok sample_broker"
proof -
  have "broker_ok (snd (PSubscribe b c n))" if "broker_ok b" for b c n
    using PSubscribe_ok [OF that] by (cases "PSubscribe b c n") auto
  then show ?thesis by (simp add: sample_broker_def broker_ok_new)
qed

lemma sample_broker_fields: "channels sample_broker = fmempty"
  "patterns sample_broker = fmupd ''*s'' {|1|} (fmupd ''n*'' {|1|} fmempty)"
  "connChans sample_broker = fmupd 1 (make_chan 64) fmempty"
  by (simp_all add: sample_broker_def PSubscribe_def newPubSubBroker_def getOrCreateChan_def add_sub_def
      subscribers_def Let_def pubsubDeliveryBufSize_def)

lemma sample_broker_orders:
  "publish_orders sample_broker ''news'' [] [(''n*'', [1]), (''*s'', [1])]"
  by (auto simp: publish_orders_def sample_broker_fields subscribers_def enumerates_def)

section \<open>Slices\<close>

definition sample_arrays :: arrays where
  "sample_arrays = fmupd 0 [GStr ''a'', GStr ''b'', GStr ''c'', GNil] fmempty"

definition sample_slice :: go_slice_header where
  "sample_slice = \<lparr>sl_array = 0, sl_start = 0, sl_len = 3, sl_cap = 4\<rparr>"

definition sample_list_store :: Store where
  "sample_list_store = (NewStore (Some (make_chan 100)))\<lparr>data := (data (NewStore None))
     [3 := fmupd ''l'' (NewListValue [GStr ''a'', GStr ''b'', GStr ''c'']) fmempty]\<rparr>"

lemma sample_list: "wf_slice sample_arrays sample_slice"
  "contents sample_arrays sample_slice = [GStr ''a'', GStr ''b'', GStr ''c'']"
  "valid_index sample_list_store 3" "aof_room sample_list_store 2"
  "fmlookup (data sample_list_store ! nat 3) ''l'' = Some (NewListValue [GStr ''a'', GStr ''b'', GStr ''c''])"
  by (simp_all add: sample_arrays_def sample_slice_def sample_list_store_def wf_slice_def contents_def array_of_def
      evaluate_state evaluate_good)

section \<open>A run\<close>

text \<open>
  Three steps of a new server, started with the environment \<open>g\<close>: a client connects, its \<open>SET\<close> is answered, and
  the writer takes the command to the file.
\<close>

definition no_files :: Files where
  "no_files = \<lparr>f_rdb = Inl ''absent'', f_aof = Inl ''absent''\<rparr>"

definition first_world :: "(string \<Rightarrow> string) \<Rightarrow> World" where
  "first_world g = started ((NewServer (main_config g))\<lparr>listening := True\<rparr>) (Inl ''absent'') (Inl ''absent'')"

definition first_server :: "(string \<Rightarrow> string) \<Rightarrow> Server" where
  "first_server g = open_conn 7 (w_server (first_world g))"

definition first_request :: string where
  "first_request = fst (Encode (arr (map bulk [''SET'', ''k'', ''v''])))"

definition accepted_world :: "(string \<Rightarrow> string) \<Rightarrow> World" where
  "accepted_world g = (first_world g)\<lparr>w_server := first_server g, w_inputs := fmupd 7 first_request fmempty\<rparr>"

definition set_store :: Store where
  "set_store = with_sent (put_db (NewStore (Some (make_chan 100))) 0 (fmupd ''k'' (NewStringValue ''v'') fmempty))
     [''SET'', ''0'', ''k'', ''v'']"

definition set_world :: "(string \<Rightarrow> string) \<Rightarrow> World" where
  "set_world g = (accepted_world g)\<lparr>w_server := write_value 7 OK ((first_server g)\<lparr>srv_store := set_store\<rparr>),
     w_inputs := fmupd 7 [] fmempty\<rparr>"

definition logged_world :: "(string \<Rightarrow> string) \<Rightarrow> World" where
  "logged_world g = (set_world g)\<lparr>w_server := (w_server (set_world g))\<lparr>srv_store := set_store\<lparr>aofChan := Some (make_chan 100)\<rparr>\<rparr>,
     w_aof := log_text [[''SET'', ''0'', ''k'', ''v'']]\<rparr>"

lemma first_conn: "conn_mode_of (first_server g) 7 = ModeNormal" "getCurrentDb (first_server g) 7 = 0"
  "srv_store (first_server g) = NewStore (Some (make_chan 100))" "srv_config (first_server g) = main_config g"
  by (simp_all add: first_server_def first_world_def started_def conn_mode_of_def getCurrentDb_def newConn_def
      NewServer_def) (simp_all add: open_conn_def newConn_def Let_def)

lemma first_start: "main_start dec clk None g no_files = Ret (first_world g)"
  by (simp add: main_start_def Start_def recoverStore_def LoadSnapshot_def RebuildStoreFromAOF_def first_world_def no_files_def
      NewServer_def Let_def)

lemma first_world_facts: "world_ok (first_world g)" "solid_store (w_store (first_world g))" "w_aof (first_world g) = []"
  "pending (w_store (first_world g)) = []" "data (w_store (first_world g)) = data (NewStore None)"
  "no_deletion (first_world g)"
proof -
  from start_ok [of "main_config g"] show "world_ok (first_world g)"
    by (simp add: world_ok_def first_world_def started_def NewServer_def server_ok_def)
qed (simp_all add: first_world_def started_def NewServer_def NewStore_def solid_store_def pending_def make_chan_def list_all_iff
    no_deletion_def)

lemma accepted: "plain_step enc (first_world g) (accepted_world g)"
proof -
  have "server_step NewRegistry enc (first_world g) ((first_world g)
      \<lparr>w_server := open_conn 7 (w_server (first_world g)), w_inputs := fmupd 7 first_request (w_inputs (first_world g))\<rparr>)"
    by (rule accept) (simp_all add: first_world_def started_def NewServer_def)
  then have "server_step NewRegistry enc (first_world g) (accepted_world g)"
    by (simp add: accepted_world_def first_server_def) (simp add: first_world_def started_def)
  moreover have "lists_fit (w_store (first_world g))" "pending (w_store (accepted_world g)) = []" "w_inputs (first_world g) = fmempty"
    using first_world_facts(5) [of g]
    by (simp_all add: lists_fit_def NewStore_def accepted_world_def first_conn pending_def make_chan_def first_world_def started_def)
  ultimately show ?thesis by (simp add: plain_step_def)
qed

lemma first_request_parses: "Parse (first_request @ rest) = Ret (Inr (arr (map bulk [''SET'', ''k'', ''v''])), rest)"
  using resp2.parse_encode [of "arr (map bulk [''SET'', ''k'', ''v''])" rest] by (simp add: first_request_def)

lemma set_by_request: "plain_step enc (accepted_world g) (set_world g)"
proof -
  have "server_step NewRegistry enc (accepted_world g) ((accepted_world g)\<lparr>w_server :=
      write_value 7 OK ((first_server g)\<lparr>srv_store := set_store\<rparr>), w_inputs := fmupd 7 [] (w_inputs (accepted_world g))\<rparr>)"
    using serve_set_step [of "accepted_world g" 7 first_request "''k''" "''v''" "[]" 0 enc] first_request_parses [of "[]"]
    by (simp add: accepted_world_def first_conn set_store_def NewStore_def Itoa_texts valid_index_def
        aof_room_def make_chan_def chan_room_def) (simp add: first_world_def started_def)
  then show ?thesis
    using first_request_parses [of "[]"]
    by (auto simp: plain_step_def set_world_def accepted_world_def lists_fit_def first_conn NewStore_def
        expiry_free_def request_parts_def convertArrayToStrings_def part_text_def
        set_store_def pending_def with_sent_def make_chan_def loggable_def put_db_def)
qed

lemma set_world_facts: "w_store (set_world g) = set_store" "w_aof (set_world g) = []"
  "srv_config (w_server (set_world g)) = main_config g"
  by (simp_all add: set_world_def accepted_world_def first_conn) (simp add: first_world_def started_def)

lemma set_store_value: "fmlookup (data set_store ! 0) ''k'' = Some (NewStringValue ''v'')"
  by (simp add: set_store_def put_db_def NewStore_def)

lemma lists_fit_set_store: "lists_fit set_store"
  unfolding lists_fit_def
proof (intro ballI allI impI)
  fix db k v xs
  assume "db \<in> set (data set_store)" and v: "fmlookup db k = Some v" "AsList v = Inr xs"
  then have "db = fmempty \<or> db = fmupd ''k'' (NewStringValue ''v'') fmempty"
    using set_update_subset_insert [of "replicate 16 fmempty" 0 "fmupd ''k'' (NewStringValue ''v'') fmempty"]
    by (auto simp: set_store_def put_db_def NewStore_def)
  with v show "in_int (int (length xs))" by (auto simp: AsList_def New_defs split: if_splits)
qed

lemma written_to_log:
  assumes "cfg_UseAOF (main_config g)"
  shows "plain_step enc (set_world g) (logged_world g)"
proof -
  have "take_pending set_store = ([[''SET'', ''0'', ''k'', ''v'']], set_store\<lparr>aofChan := Some (make_chan 100)\<rparr>)"
    by (simp add: take_pending_def set_store_def with_sent_def NewStore_def chan_recv_def make_chan_def put_db_def)
  then have "server_step NewRegistry enc (set_world g) (logged_world g)"
    unfolding logged_world_def
    by (intro written) (simp_all only: set_world_facts assms AOFWriter_text append_Nil)
  moreover have "Parse [] = Ret (Inl io_EOF, [])" by code_simp
  then have "fmlookup (w_inputs (set_world g)) c = Some input \<Longrightarrow> Parse input = Ret (Inr v, rest) \<Longrightarrow> expiry_free v" for c input v rest
    by (auto simp: set_world_def split: if_splits)
  moreover have "pending (w_store (logged_world g)) = []"
    by (simp add: logged_world_def pending_def make_chan_def)
  ultimately show ?thesis using lists_fit_set_store by (simp add: plain_step_def set_world_facts)
qed

lemma set_run: "plain_run enc (first_world g) (set_world g)"
  using accepted set_by_request by (meson rtranclp.rtrancl_into_rtrancl rtranclp.rtrancl_refl)

lemma logged_run: "cfg_UseAOF (main_config g) \<Longrightarrow> plain_run enc (first_world g) (logged_world g)"
  using set_run written_to_log by (meson rtranclp.rtrancl_into_rtrancl)

lemma logged_world_facts: "w_aof (logged_world g) = log_text [[''SET'', ''0'', ''k'', ''v'']]"
  "pending (w_store (logged_world g)) = []" "data (w_store (logged_world g)) = data set_store"
  by (simp_all add: logged_world_def pending_def make_chan_def)

text \<open>The environment of a server that persists by the log only.\<close>

definition aof_only :: "string \<Rightarrow> string" where
  "aof_only name = (if name = ''USE_RDB'' then ''false'' else [])"

lemma sample_snapshots_ok: "snapshots_ok (sample_dec (data set_store))"
proof -
  have "world_ok (set_world (\<lambda>_. []))"
    using reachable_ok [OF plain_run_reachable [OF set_run] first_world_facts(1)] .
  from world_good [OF this, of 0] show ?thesis
    by (simp add: snapshots_ok_def sample_dec_def good_def wf_store_def set_world_facts)
qed

end
