(* ===== verification/Spec2Isabelle.thy ===== *)
theory Spec2Isabelle
  imports Samples
begin

text \<open>
  GoodiesDB is an in-memory key-value server that speaks the RESP protocol. This development models the
  server of the Go sources under \<open>src/\<close>, from the bytes a client sends to the bytes of the
  reply and of the persistence files, and proves what it promises and where it falls short.

  The parts of the program and the theories that model them.

    \<^item> The Go language and its library, as far as the sources use them: \<open>Prelude\<close> (outcomes of a call: a
      value, a panic, or waiting for ever), \<open>GoRuntime\<close> (64-bit integers, \<open>strconv\<close>, \<open>strings\<close>, and
      \<open>slice.Equal\<close> and \<open>slice.Reverse\<close> of \<open>internal/utils\<close>), \<open>GoTime\<close> (durations), \<open>GoScan\<close> (\<open>fmt.Fscanf\<close>), \<open>GoChannel\<close>
      (buffered channels, an interpretation of a queue contract).
    \<^item> \<open>Protocol\<close>, \<open>Resp2\<close>, \<open>Resp2Codec\<close>: \<open>internal/protocol\<close>. The interface \<open>Protocol\<close> is the locale
      \<open>wire_protocol\<close>, and RESP2 its interpretation \<open>resp2\<close>.
    \<^item> \<open>Values\<close>, \<open>StoreCore\<close>, \<open>StoreStrings\<close>, \<open>StoreLists\<close>, \<open>StoreHash\<close>, \<open>StoreScan\<close>: \<open>internal/core/store\<close>.
      \<open>StoreAliasing\<close> runs the list operations on an explicit memory of arrays.
      \<open>StoreOps\<close> collects the writing operations as one datatype with its safety, \<open>StoreSpec\<close> gives each
      an abstract specification on one database and proves that the code meets it, and \<open>StoreChannel\<close> shows that the
      room in the log channel decides only whether an operation waits.
    \<^item> \<open>AofDispatch\<close>, \<open>AofReplay\<close>, \<open>AofFile\<close>: \<open>internal/persistence/aof\<close>, the writer and the recovery. The
      contract of a log that can be replayed is the locale \<open>logged_machine\<close>. \<open>Rdb\<close> is
      \<open>internal/persistence/rdb\<close>.
    \<^item> \<open>Broker\<close>, \<open>BrokerSpec\<close>, \<open>BrokerPublish\<close>: \<open>internal/core/server/pubsub.go\<close>. Abstractly, the broker is a
      set of topics for every connection; exact channels and patterns are two interpretations
      of one contract.
    \<^item> \<open>ServerState\<close>: configuration, connections and the methods of the server
      (\<open>config.go\<close>, \<open>connection.go\<close>, \<open>commands.go\<close>, \<open>server_utils.go\<close> of \<open>internal/core/server\<close>).
    \<^item> \<open>CommandBase\<close>, \<open>CommandsData\<close>, \<open>CommandsHash\<close>, \<open>CommandsConn\<close>, \<open>Registry\<close>: the 46 commands of
      \<open>internal/core/command\<close> as records of their methods, and the table that finds them.
    \<^item> \<open>Server\<close>: \<open>internal/core/server/server.go\<close>, the loop of a connection (\<open>handle_turn\<close> is one
      iteration, \<open>handleConn\<close> the whole), start and shutdown, and the step relation \<open>server_step\<close> in which all
      goroutines interleave. \<open>ServerSpec\<close> holds the invariant of the server and its preservation by
      every command, \<open>ServerFrame\<close> what a command leaves alone, \<open>ServerFacts\<close>, \<open>Sessions\<close> and \<open>Restarts\<close> facts on
      requests, whole connections and restarts.
    \<^item> \<open>CommandCalls\<close>, \<open>ServerHistory\<close>, \<open>CrashRecovery\<close>: the server as a history of its store. Every command calls at
      most the one operation that its name and arguments say (\<open>command_op\<close>), so a run of the server is a history of
      the event machine of \<open>AofReplay\<close>, and the file is at every moment the log of a part of the run.
    \<^item> \<open>Logging\<close>: \<open>internal/logging\<close>. \<open>EntryPoint\<close> and \<open>Lifecycle\<close>: \<open>cmd/goodiesdb-server/main.go\<close>, the
      configuration that \<open>main\<close> computes, and a whole process from the files it finds to those it leaves.
    \<^item> \<open>Evaluate\<close> and \<open>Samples\<close> hold rewrite rules and concrete states for the examples below.

  How state is modelled. A \<open>*Store\<close>, the server and the broker are records that every operation takes and
  returns; a method that holds a mutex is one atomic step, and one that takes it twice is two. In \<open>server_step\<close> the
  handling of a request is one step, with two exceptions, the requests on the data whose effect depends on what happens
  between two critical sections: a handler of \<open>SETNX\<close> or \<open>GET\<close> can stop in the middle, in a \<open>phase\<close>, while others run.
  A Go map is a finite map. The order in which it is ranged over, the clock, regular
  expressions, \<open>path.Match\<close>, \<open>encoding/gob\<close> and the environment are arguments; that an order is one of
  the map, and that the decoder of \<open>gob\<close> inverts its encoder, are hypotheses where they are
  needed. Machine integers are \<open>int\<close> with \<open>wrap64\<close> written out at every operation that can overflow. An
  error is a value of a sum or option type, a panic and a wait without end are outcomes.

  Bounds. The parser recurses on nested arrays and takes fuel; \<open>Parse\<close> gives it twice the length of the
  input and one, which is proved to decide every input. The loop of a connection ends because each turn
  consumes input. Capacities are those of the code: 100 commands in the log channel, 64
  messages in a delivery queue.

  The sections below. Recovery: what the two files restore, after a crash, a torn write or a shutdown. The server: the invariant of all
  reachable states, safety, isolation and order of requests. Publish and subscribe: the
  broker against its abstraction. The wire protocol: encoding and parsing. The store:
  operations against their specification, and their corner cases. The last section
  collects behaviour of the composed server that a user would not expect.

  Not modelled. Opening, writing and flushing files succeeds, except for opening a file that is to be
  read and creating a snapshot; writing to a connection that the server has not closed succeeds. A signal
  while the server is still recovering, the reading of the \<open>.env\<close> file and the logo are left out, and so is what the Go
  memory model says of data races: \<open>GetSnapshot\<close> copies pointers, and a value that is updated in place while a snapshot is
  encoded is a race. A \<open>SUBSCRIBE\<close> of several channels, a critical section of the broker for each, is one step of
  \<open>server_step\<close>. Lists are values in the store; the sharing of memory between a list and the slices
  that were cut from it is the subject of \<open>StoreAliasing\<close> only, which shows that the list under a key is not
  affected, and that a reply that is still to be encoded can be.
\<close>

section \<open>Recovery\<close>










text \<open>
  C3: Recovery survives a torn write. When the file ends inside a command, because the process
  stopped in the middle of a write, recovery replays exactly the complete commands in front of it
  and reports nothing or an unexpected end of file.
\<close>

theorem recovery_of_torn_log:
  assumes "list_all loggable cmds" and "loggable c"
    and "strict_prefix q (fst (Encode (toRESPArray c)))"
    and "replay (stamped clk 0 cmds) t = Ret t'"
  shows "\<exists>e. RebuildStoreFromAOF clk t (Inr (fst (AOFWriter cmds []) @ q)) = Ret (e, t') \<and>
    (e = None \<or> e = Some io_ErrUnexpectedEOF)"
  using rebuild_cut [OF assms] by (simp add: AOFWriter_text)

theorem recovery_of_torn_log_witness:
  "\<exists>e t'. RebuildStoreFromAOF (\<lambda>_. 9) (NewStore None)
      (Inr (fst (AOFWriter [[''RPUSH'', ''3'', ''l'', ''a'', ''b'']] []) @ ''*3'')) = Ret (e, t') \<and>
    (e = None \<or> e = Some io_ErrUnexpectedEOF) \<and>
    fmlookup (data t' ! 3) ''l'' = Some (NewListValue [GStr ''a'', GStr ''b''])"
proof -
  have q: "strict_prefix ''*3'' (fst (Encode (toRESPArray [''DEL'', ''0'', ''k''])))"
    by (simp add: toRESPArray_def array_header_def Itoa_texts split_def Let_def)
  have l: "loggable [''DEL'', ''0'', ''k'']" "list_all loggable [[''RPUSH'', ''3'', ''l'', ''a'', ''b'']]"
    by (simp_all add: loggable_def)
  obtain t' where "replay (stamped (\<lambda>_. 9) 0 [[''RPUSH'', ''3'', ''l'', ''a'', ''b'']]) (NewStore None) = Ret t'"
    and "fmlookup (data t' ! 3) ''l'' = Some (NewListValue [GStr ''a'', GStr ''b''])"
    by (simp add: evaluate_state op_defs evaluate_values dispatch_defs handler_defs)
  with recovery_of_torn_log [OF l(2,1) q] show ?thesis by blast
qed



text \<open>
  A clean restart keeps the data. On a well-formed server with snapshots enabled, \<open>Shutdown\<close> does not
  panic, and when the data can be encoded, \<open>Start\<close> of a new server restores exactly the data from the
  file it wrote, whatever the log file holds, and listens.
\<close>

theorem restart_restores_the_snapshot:
  assumes "gob_inverse enc dec" and "snd (enc (data (srv_store s))) = None"
    and "server_ok s" and "cfg_UseRDB (srv_config s)" and "cfg_UseRDB config"
  shows "\<exists>rdbFile s' t. Shutdown enc None old s = Ret (rdbFile, s') \<and>
    Start dec clk rdbFile aofFile (NewServer config) = Ret t \<and>
    data (srv_store t) = data (srv_store s) \<and> listening t"
proof -
  obtain bs where bs: "enc (data (srv_store s)) = (bs, None)"
    using assms(2) by (cases "enc (data (srv_store s))") simp
  then have save: "SaveSnapshot enc None st old = (None, Inr bs)" if "data st = data (srv_store s)" for st
    using that by (simp add: SaveSnapshot_def GetSnapshot_data)
  have "aof_open (srv_store s)" using assms(3) by (simp add: server_ok_def good_def)
  then have "\<exists>s'. Shutdown enc None old s = Ret (Inr bs, s')"
    using assms(4) save
    by (auto simp: Shutdown_def stopAcceptLoop_def Let_def aof_open_def chan_close_def split: option.splits)
  moreover have "\<exists>t. Start dec clk (Inr bs) aofFile (NewServer config) = Ret t \<and>
      data (srv_store t) = data (srv_store s) \<and> listening t"
    using load_saved [OF assms(1) save [OF refl], of "srv_store (NewServer config)"] assms(5)
    by (simp add: Start_def recoverStore_def NewServer_def Let_def)
  ultimately show ?thesis by blast
qed

theorem restart_restores_the_snapshot_witness:
  "\<exists>rdbFile s' t. Shutdown (sample_enc (data (srv_store sample_full))) None (Inl ''absent'') sample_full = Ret (rdbFile, s') \<and>
     Start (sample_dec (data (srv_store sample_full))) (\<lambda>_. 0) rdbFile (Inl ''absent'') (NewServer NewConfig) = Ret t \<and>
     data (srv_store t) = data (srv_store sample_full) \<and> listening t"
  by (rule restart_restores_the_snapshot [OF sample_gob _ sample_full_ok])
    (simp_all add: sample_enc_def sample_full_config NewConfig_def)

section \<open>The server\<close>

text \<open>
  C5: The server refines the history of its store. Whatever clients send and however the goroutines interleave, what
  happens to the data between two states of a server is a sequence of store operations, each the operation
  of some command with its arguments on one of the sixteen databases, and of commands taken by the log writer; the file grows
  by exactly the commands taken, and what was taken and what is still pending is, in order, what was pending before and
  everything the operations logged.
\<close>

theorem server_refines_store_history:
  assumes "world_ok w" and "reachable NewRegistry enc w w'" and "aofChan (srv_store (w_server w)) \<noteq> None"
  shows "\<exists>es. list_all (event_of later) es \<and>
    run_steps event_step es (srv_store (w_server w)) = Ret (srv_store (w_server w')) \<and>
    w_aof w' = w_aof w @ log_text (emitted event_step event_written es (srv_store (w_server w))) \<and>
    emitted event_step event_written es (srv_store (w_server w)) @ pending (srv_store (w_server w')) =
      pending (srv_store (w_server w)) @ map snd (emitted event_step event_log es (srv_store (w_server w)))"
  using reachable_events [OF assms(2,1), of later] log_conserved assms(3) by blast

theorem server_refines_store_history_witness:
  "\<exists>es. list_all (event_of 9) es \<and>
    run_steps event_step es (srv_store (w_server (first_world aof_only))) = Ret set_store \<and>
    map snd (emitted event_step event_log es (srv_store (w_server (first_world aof_only)))) = [[''SET'', ''0'', ''k'', ''v'']]"
proof -
  have "aofChan (srv_store (w_server (first_world aof_only))) \<noteq> None"
    by (simp add: first_world_def started_def NewServer_def NewStore_def)
  from server_refines_store_history [OF first_world_facts(1) plain_run_reachable [OF set_run] this, where later = 9]
  obtain es where es: "list_all (event_of 9) es"
    "run_steps event_step es (srv_store (w_server (first_world aof_only))) = Ret set_store"
    "[] = w_aof (first_world aof_only) @ log_text (emitted event_step event_written es (srv_store (w_server (first_world aof_only))))"
    "emitted event_step event_written es (srv_store (w_server (first_world aof_only))) @ pending set_store =
      pending (srv_store (w_server (first_world aof_only))) @
      map snd (emitted event_step event_log es (srv_store (w_server (first_world aof_only))))"
    unfolding set_world_facts by blast
  from es(3) have "emitted event_step event_written es (srv_store (w_server (first_world aof_only))) = []"
    by (simp add: log_text_empty first_world_facts(3))
  with es first_world_facts(4) [of aof_only] show ?thesis
    by (intro exI [of _ es]) (simp add: set_store_def pending_def with_sent_def NewStore_def make_chan_def put_db_def)
qed



text \<open>
  C7: No request crashes a well-formed server. Whatever a connected client sends, any command with any
  arguments in either mode, as long as a \<open>SCAN\<close> does not overflow its cursor, \<open>handleRequest\<close> does
  not panic; the server stays well formed and keeps the same connections.
\<close>

theorem requests_are_safe:
  assumes "server_ok s" and "c |\<in>| fmdom (connections s)"
    and "orders_match env s v" and "scan_request_fits v"
  shows "safely (handle_request NewRegistry env c v s)
    (\<lambda>s'. server_ok s' \<and> fmdom (connections s') = fmdom (connections s))"
  using handle_request_ok [OF assms] unfolding kept_def .

theorem requests_are_safe_witness:
  "\<exists>s'. handle_request NewRegistry sample_env 7 (arr (map bulk [''set'', ''k'', ''v''])) sample_server = Ret s' \<and>
     server_ok s'"
proof -
  have "safely (handle_request NewRegistry sample_env 7 (arr (map bulk [''set'', ''k'', ''v''])) sample_server)
    (\<lambda>s'. server_ok s' \<and> fmdom (connections s') = fmdom (connections sample_server))"
    by (rule requests_are_safe [OF sample_server_ok])
      (simp_all add: orders_match_def scan_request_fits_def request_parts_def convertArrayToStrings_def part_text_def upper_char_def)
  with sample_set show ?thesis by auto
qed

text \<open>
  C8: A connection serves its requests in order. On the encodings of any number of requests, sent at
  once, \<open>handleConn\<close> registers the connection, handles each request exactly as if it had come alone,
  in order, and cleans up at the end of the input.
\<close>

theorem pipelined_requests_are_served_in_order:
  assumes "list_all wire_ok vs"
  shows "handleConn NewRegistry env c (encode_all Encode vs) s =
    andThen (serve NewRegistry env 0 c (map wire_canon vs) (open_conn c s)) (end_conn c)"
  using handle_loop_stream [OF assms, of NewRegistry env 0 c "[]"]
  by (simp add: handleConn_def handle_loop_Nil)

theorem pipelined_requests_are_served_in_order_witness:
  "handleConn NewRegistry (\<lambda>_. sample_env) 8 (encode_all Encode [arr [bulk ''PING''], arr [bulk ''QUIT'']]) sample_server =
     andThen (serve NewRegistry (\<lambda>_. sample_env) 0 8 [arr [bulk ''PING''], arr [bulk ''QUIT'']] (open_conn 8 sample_server))
       (end_conn 8)"
  using pipelined_requests_are_served_in_order [of "[arr [bulk ''PING''], arr [bulk ''QUIT'']]" "\<lambda>_. sample_env" 8 sample_server]
  by simp

text \<open>
  C9: \<open>SET\<close> then \<open>GET\<close>, from bytes to bytes: a client in any selected database that sends both requests
  gets OK and then the value it set, and the loop goes on with what follows.
\<close>

theorem set_then_get_over_the_wire:
  assumes "server_ok s" and "c |\<notin>| closedConns s" and "conn_mode_of s c = ModeNormal" and "aof_room (srv_store s) 1"
    and "wire_ok (arr (map bulk [''SET'', k, v]))"
  shows "\<exists>s'. handle_loop NewRegistry env n c
      (encode_all Encode [arr (map bulk [''SET'', k, v]), arr (map bulk [''GET'', k])] @ rest) s =
        handle_loop NewRegistry env (n + 2) c rest s' \<and>
    output_of s' c = output_of s c @ fst (Encode OK) @ fst (Encode (bulk v))"
proof -
  have idx: "valid_index (srv_store s) (getCurrentDb s c)"
    using server_good [OF assms(1)] getCurrentDb_ok [OF assms(1), of c] by (simp add: good_def)
  let ?s = "write_value c OK (s\<lparr>srv_store := with_sent (put_db (srv_store s) (getCurrentDb s c)
      (fmupd k (NewStringValue v) (data (srv_store s) ! nat (getCurrentDb s c)))) [''SET'', Itoa (getCurrentDb s c), k, v]\<rparr>)"
  have "conn_mode_of ?s c = ModeNormal" "getCurrentDb ?s c = getCurrentDb s c" 
    "srv_store ?s = with_sent (put_db (srv_store s) (getCurrentDb s c)
      (fmupd k (NewStringValue v) (data (srv_store s) ! nat (getCurrentDb s c)))) [''SET'', Itoa (getCurrentDb s c), k, v]"
    using assms(3) by (simp_all add: write_value_def write_bytes_def conn_mode_of_def getCurrentDb_def)
  moreover have "nat (getCurrentDb s c) < length (data (srv_store s))"
    using idx by (simp add: valid_index_def nat_less_iff)
  ultimately have get: "handle_request NewRegistry env' c (arr (map bulk [''GET'', k])) ?s = Ret (write_value c (bulk v) ?s)" for env'
    using idx by (intro serve_get) (simp_all add: put_db_def valid_index_def)
  have "list_all wire_ok [arr (map bulk [''SET'', k, v]), arr (map bulk [''GET'', k])]"
    using assms(5) by simp
  from handle_loop_stream [OF this, of NewRegistry env n c rest s] get serve_set [OF assms(3) idx assms(4)]
  have "handle_loop NewRegistry env n c
      (encode_all Encode [arr (map bulk [''SET'', k, v]), arr (map bulk [''GET'', k])] @ rest) s =
        handle_loop NewRegistry env (n + 2) c rest (write_value c (bulk v) ?s)"
    by simp
  moreover have "output_of (write_value c (bulk v) ?s) c = output_of s c @ fst (Encode OK) @ fst (Encode (bulk v))"
    using assms(2) by (simp add: write_value_def write_bytes_def output_of_def)
  ultimately show ?thesis by blast
qed

theorem set_then_get_over_the_wire_witness:
  "\<exists>s'. handle_loop NewRegistry (\<lambda>_. sample_env) 0 7
      (encode_all Encode [arr (map bulk [''SET'', ''k'', ''v'']), arr (map bulk [''GET'', ''k''])] @ ''*0'') sample_server =
        handle_loop NewRegistry (\<lambda>_. sample_env) 2 7 ''*0'' s' \<and>
    output_of s' 7 = fst (Encode OK) @ fst (Encode (bulk ''v''))"
proof -
  have "7 |\<notin>| closedConns sample_server" "output_of sample_server 7 = []"
    by (simp_all add: sample_server_def open_conn_def NewServer_def output_of_def Let_def)
  moreover have "aof_room (srv_store sample_server) 1"
    by (simp add: sample_store aofChan_NewStore aof_room_def make_chan_def chan_room_def)
  ultimately show ?thesis
    using set_then_get_over_the_wire [OF sample_server_ok(1), of 7 "''k''" "''v''" "\<lambda>_. sample_env" 0 "''*0''"]
    by (simp add: sample_conn numeral_2_eq_2 del: Encode.simps encode_all.simps)
qed

text \<open>
  C10: A request touches only its own connection: the record of any other connection, its selected
  database, name, mode and authentication, and the bytes sent to it stay as they were.
\<close>

theorem requests_are_isolated:
  assumes "handle_request NewRegistry env c v s = Ret s'" and "d \<noteq> c"
  shows "fmlookup (connections s') d = fmlookup (connections s) d \<and> output_of s' d = output_of s d"
  using handle_request_apart [of env c v s] assms by (simp add: apart_def)

theorem requests_are_isolated_witness:
  "\<exists>s'. handle_request NewRegistry sample_env 7 (arr (map bulk [''set'', ''k'', ''v''])) sample_server = Ret s' \<and>
     output_of s' 8 = output_of sample_server 8"
  using sample_set requests_are_isolated [where d = 8 and c = 7] by fastforce

text \<open>
  C11: Every reply of every command can be encoded: the error of \<open>Encode\<close> that the loop of \<open>handleConn\<close>
  ignores never arises, so a request that returns a reply is answered with the whole of it.
\<close>

theorem replies_are_encodable:
  assumes "executeCommand NewRegistry env c v s = Ret (Inr (Some reply), s')"
  shows "snd (Encode reply) = None"
  using executeCommand_polite [of c s env v] assms by (simp add: polite_def encodable_def)

theorem replies_are_encodable_witness:
  "snd (Encode OK) = None"
  using sample_set replies_are_encodable by blast

text \<open>
  C12: A connection in subscriber mode cannot read or change the data: whatever it sends, the store is as
  before.
\<close>

theorem subscribers_change_no_data:
  assumes "conn_mode_of s c = ModeSubscriber" and "handle_request NewRegistry env c v s = Ret s'"
  shows "srv_store s' = srv_store s"
  using handle_request_sub_mode [OF assms(1), of env v] assms(2) by simp

theorem subscribers_change_no_data_witness:
  "\<exists>s'. handle_request NewRegistry sample_env 7 (arr [bulk ''FLUSHALL'']) sample_subscribed = Ret s' \<and>
     srv_store s' = srv_store sample_subscribed"
proof -
  have "\<exists>s'. handle_request NewRegistry sample_env 7 (arr [bulk ''FLUSHALL'']) sample_subscribed = Ret s'"
    by (simp add: handle_request_def sample_subscribed_mode request_name_def allowedInSubMode_def)
  with subscribers_change_no_data [OF sample_subscribed_mode] show ?thesis by blast
qed

text \<open>
  A request for an unknown command, or one whose arguments do not validate, is answered by an error
  and changes nothing else of the server.
\<close>

theorem rejected_requests_change_nothing:
  assumes "Registry_Get NewRegistry name = None \<or>
      (\<exists>cmd e. Registry_Get NewRegistry name = Some cmd \<and> cmd_Validate cmd args = Some e)"
    and "conn_mode_of s c = ModeNormal"
  shows "\<exists>e. handle_request NewRegistry env c (arr (map bulk (name # args))) s =
    Ret (write_value c (ErrorString (''ERR '' @ e)) s)"
  using assms by (auto simp: handle_request_def answer_def executeCommand_def invokeCommand_def replies_def Registry_Get_def)

theorem rejected_requests_change_nothing_witness:
  "\<exists>e. handle_request NewRegistry sample_env 7 (arr (map bulk [''nosuch'', ''k''])) sample_server =
     Ret (write_value 7 (ErrorString (''ERR '' @ e)) sample_server)"
proof (rule rejected_requests_change_nothing)
  have "''NOSUCH'' \<notin> set (map cmd_Name all_commands)" by (simp add: command_names)
  then have "map_of (map (\<lambda>cmd. (cmd_Name cmd, cmd)) all_commands) ''NOSUCH'' = None"
    by (simp add: map_of_eq_None_iff image_comp comp_def)
  then show "Registry_Get NewRegistry ''nosuch'' = None \<or>
      (\<exists>cmd e. Registry_Get NewRegistry ''nosuch'' = Some cmd \<and> cmd_Validate cmd [''k''] = Some e)"
    by (simp add: Registry_Get_NewRegistry sample_upper)
qed (rule sample_conn)



section \<open>Publish and subscribe\<close>

text \<open>
  C14: The broker implements a map from connections to sets of topics. \<open>Subscribe\<close>, \<open>PSubscribe\<close>,
  \<open>Unsubscribe\<close>, \<open>PUnsubscribe\<close> and \<open>UnsubscribeAll\<close> update the set of their connection only, return
  its size, and keep the invariant of the representation.
\<close>

theorem broker_refines_topic_sets:
  assumes "broker_ok b"
  shows "(\<exists>b'. Subscribe b c n = (int (card (topics b' c)), b') \<and> broker_ok b' \<and>
      topics b' = (topics b)(c := insert (Exact n) (topics b c))) \<and>
    (\<exists>b'. PSubscribe b c n = (int (card (topics b' c)), b') \<and> broker_ok b' \<and>
      topics b' = (topics b)(c := insert (Glob n) (topics b c))) \<and>
    (\<exists>b'. Unsubscribe b c n = Ret (int (card (topics b' c)), b') \<and> broker_ok b' \<and>
      topics b' = (topics b)(c := topics b c - {Exact n})) \<and>
    (\<exists>b'. PUnsubscribe b c n = Ret (int (card (topics b' c)), b') \<and> broker_ok b' \<and>
      topics b' = (topics b)(c := topics b c - {Glob n})) \<and>
    (\<exists>b'. UnsubscribeAll b c = Ret b' \<and> broker_ok b' \<and> topics b' = (topics b)(c := {}))"
proof (intro conjI)
  obtain k b' where "Subscribe b c n = (k, b')" by (cases "Subscribe b c n")
  with exact.subscribe_ok [OF assms this] show "\<exists>b'. Subscribe b c n = (int (card (topics b' c)), b') \<and>
      broker_ok b' \<and> topics b' = (topics b)(c := insert (Exact n) (topics b c))" by auto
  obtain k b' where "PSubscribe b c n = (k, b')" by (cases "PSubscribe b c n")
  with glob.subscribe_ok [OF assms this] show "\<exists>b'. PSubscribe b c n = (int (card (topics b' c)), b') \<and>
      broker_ok b' \<and> topics b' = (topics b)(c := insert (Glob n) (topics b c))" by auto
qed (use exact.unsubscribe_ok [OF assms, of c n] glob.unsubscribe_ok [OF assms, of c n]
  UnsubscribeAll_ok [OF assms, of c] in blast)+

theorem broker_refines_topic_sets_witness:
  "\<exists>b'. Subscribe newPubSubBroker 1 ''news'' = (1, b') \<and> topics b' 1 = {Exact ''news''}"
proof -
  have "topics newPubSubBroker 1 = {}" by (simp add: topics_def newPubSubBroker_def subscribers_def)
  with broker_refines_topic_sets [OF broker_ok_new, of 1 "''news''"] show ?thesis by auto
qed



text \<open>
  C16: The hand-written encoders of published messages agree with the RESP2 encoder.
\<close>

theorem published_messages_are_resp2:
  assumes "int (length ch) \<le> max_int" and "int (length msg) \<le> max_int" and "int (length p) \<le> max_int"
  shows "encodeMessage ch msg = fst (Encode (arr [bulk ''message'', bulk ch, bulk msg])) \<and>
    encodePMessage p ch msg = fst (Encode (arr [bulk ''pmessage'', bulk p, bulk ch, bulk msg]))"
  using assms encodeArray_Encode [of "[''message'', ch, msg]"] encodeArray_Encode [of "[''pmessage'', p, ch, msg]"]
  unfolding encodeMessage_def encodePMessage_def by (simp add: message_ok_def max_int_def del: Encode.simps)

theorem published_messages_are_resp2_witness:
  "encodeMessage ''c'' ''m'' = fst (Encode (arr [bulk ''message'', bulk ''c'', bulk ''m'']))"
  using published_messages_are_resp2 [of "''c''" "''m''" "[]"] by (simp add: max_int_def del: Encode.simps)

section \<open>The wire protocol\<close>

text \<open>
  C17: What RESP2 encodes, it parses back. A value whose texts carry no newline and whose sizes fit is
  encoded without an error, and the parser, given the bytes and anything behind them, returns the
  value (a nil array as an empty one, \<open>Null\<close> as a null bulk string) and stops exactly behind it.
\<close>

theorem resp2_round_trip:
  assumes "wire_ok v"
  shows "snd (Encode v) = None \<and> Parse (fst (Encode v) @ rest) = Ret (Inr (wire_canon v), rest)"
  using resp2.encode_ok [OF assms] resp2.parse_encode [OF assms] by simp

theorem resp2_round_trip_witness:
  "Parse (fst (Encode (arr [bulk ''GET'', Integer (-7), BulkString None, arr [SimpleString ''a b'']])) @ ''+x'') =
     Ret (Inr (arr [bulk ''GET'', Integer (-7), BulkString None, arr [SimpleString ''a b'']]), ''+x'')"
  using resp2_round_trip [of "arr [bulk ''GET'', Integer (-7), BulkString None, arr [SimpleString ''a b'']]" "''+x''"]
  by (simp add: int_bounds)

text \<open>
  C18: The parser always comes to an end: fuel of twice the length of the input and one decides it, it never waits
  for anything but input, and on an input that is not empty it consumes at least one byte.
\<close>

theorem parser_terminates:
  assumes "2 * length s + 1 \<le> n"
  shows "parse_fuel n s = Some (Parse s) \<and> Parse s \<noteq> Block \<and>
    (\<forall>x r. Parse s = Ret (x, r) \<and> s \<noteq> [] \<longrightarrow> length r < length s)"
  using Parse_fuel [OF assms] Parse_not_Block [of s] Parse_consumes [of s] by blast

theorem parser_terminates_witness: "parse_fuel 9 ''*1 x'' = Some (Parse ''*1 x'')"
  using parser_terminates [of "''*1 x''" 9] by simp

text \<open>
  C19: Three malformed requests crash the process. A simple string or an error that is a lone newline makes the parser
  slice with a negative bound; the lengths -2 and below of bulk strings and arrays make it slice or
  allocate with a negative length. No goroutine recovers from a panic.
\<close>

theorem malformed_input_panics:
  "Parse (''+'' @ [CHR 0x0A] @ rest) = Panic \<and> Parse (''-'' @ [CHR 0x0A] @ rest) = Panic \<and>
   Parse (''$-2'' @ CRLF @ rest) = Panic \<and> Parse (''*-2'' @ CRLF @ rest) = Panic"
proof -
  have f: "Fscanf_d (''-2'' @ CRLF @ rest) = (Inr (-2), rest)"
    using Fscanf_d_Itoa [of "-2" rest] by (simp add: Itoa_texts int_bounds)
  then have "Parse (''$-2'' @ CRLF @ rest) = Panic"
    by (simp add: parseBulkString_def wrap64_def make_panics_def ReadFull_def go_slice_def)
  moreover from f Parse_array [of "''-2'' @ CRLF @ rest"] have "Parse (''*-2'' @ CRLF @ rest) = Panic"
    by (simp add: make_panics_def)
  ultimately show ?thesis by (simp add: parse_line_def go_slice_def)
qed

section \<open>The store\<close>

text \<open>
  C20: Every writing operation of the store implements its specification. On a well-formed store whose log channel has
  room for two commands, an operation returns, the contents are exactly those the specification gives,
  and exactly the specified commands are sent, in order.
\<close>

theorem operations_refine_specification:
  assumes "ready i s"
  shows "run_op now i op s = Ret (sent (s\<lparr>data := fst (op_spec now i op (data s))\<rparr>)
    (snd (op_spec now i op (data s))))"
  using assms by (rule run_op_refines)

theorem operations_refine_specification_witness:
  "run_op 5 3 (OpLPush ''l'' [''a'', ''b'']) (NewStore (Some (make_chan 100))) =
     Ret (sent ((NewStore (Some (make_chan 100)))\<lparr>data := [fmempty, fmempty, fmempty,
         fmupd ''l'' (NewListValue [GStr ''b'', GStr ''a'']) fmempty, fmempty, fmempty, fmempty, fmempty,
         fmempty, fmempty, fmempty, fmempty, fmempty, fmempty, fmempty, fmempty]\<rparr>)
       [[''LPUSH'', ''3'', ''l'', ''a'', ''b'']])"
  using operations_refine_specification [OF ready_NewStore [of 3], of 5 "OpLPush ''l'' [''a'', ''b'']"]
  by (simp add: evaluate_spec evaluate_values data_NewStore database_update_3)

text \<open>
  C21: No writing operation panics on a database that exists while the log is open, whatever its arguments, and all keep
  the store well formed: every value carries the payload its type tag promises.
\<close>

theorem operations_are_safe:
  assumes "good i s"
  shows "safely (run_op now i op s) (good i)"
  using assms by (rule safely_run_op)

theorem operations_are_safe_witness:
  "safely (run_op 5 2 (OpIncr ''k'') (NewStore (Some (make_chan 100)))) (good 2)"
  using operations_are_safe [OF good_NewStore [of 2 ], of 5 "OpIncr ''k''"] by (simp del: run_op.simps)

text \<open>
  C22: Databases are isolated. An operation other than \<open>FLUSHALL\<close> on one database leaves every other database as it was.
\<close>

theorem databases_are_isolated:
  assumes "ready i s" and "run_op now i op s = Ret s'" and "op \<noteq> OpFlushAll"
    and "valid_index s j" and "j \<noteq> i"
  shows "data s' ! nat j = data s ! nat j"
proof -
  have "0 \<le> i" using assms(1) by (simp add: ready_def good_def valid_index_def)
  with assms have "nat i \<noteq> nat j" by (auto simp: valid_index_def)
  with assms run_op_refines [OF assms(1), of now op] show ?thesis
    by (auto simp: op_spec_def split_def Let_def)
qed

theorem databases_are_isolated_witness:
  "\<exists>s'. run_op 5 3 OpFlushDb (NewStore (Some (make_chan 100))) = Ret s' \<and>
     data s' ! 4 = data (NewStore (Some (make_chan 100))) ! 4"
proof -
  let ?s = "NewStore (Some (make_chan 100))"
  have r: "ready 3 ?s" by (simp add: ready_NewStore)
  obtain s' where s': "run_op 5 3 OpFlushDb ?s = Ret s'" using run_op_refines [OF r, of 5 OpFlushDb] by blast
  have "valid_index ?s 4" by (simp add: valid_index_def NewStore_def)
  with databases_are_isolated [OF r s', of 4] s' show ?thesis by auto
qed

text \<open>
  No logged command is lost or reordered. Over any history of operations on existing databases that return, however full
  the channel is, the commands the writer took, followed by those still pending, are the ones pending at the start followed by those that the operations logged.
\<close>

theorem log_is_conserved:
  assumes "run_steps event_step es s = Ret s'" and "faithful_history event_step event_ready es s"
    and "aofChan s \<noteq> None"
  shows "emitted event_step event_written es s @ pending s' =
    pending s @ map snd (emitted event_step event_log es s)"
  using assms by (rule log_conserved)

theorem log_is_conserved_witness:
  "\<exists>s'. run_steps event_step [Call 5 9 3 OpFlushDb, Written, Call 6 9 3 (OpDel ''k'')] (NewStore (Some (make_chan 100))) = Ret s' \<and>
     [''FLUSHDB'', ''3''] # pending s' = [[''FLUSHDB'', ''3''], [''DEL'', ''3'', ''k'']]"
proof -
  let ?es = "[Call 5 9 3 OpFlushDb, Written, Call 6 9 3 (OpDel ''k'')]" and ?s = "NewStore (Some (make_chan 100))"
  obtain s' where s': "run_steps event_step ?es ?s = Ret s'"
    by (simp add: evaluate_state op_defs evaluate_values)
  moreover have "faithful_history event_step event_ready ?es ?s"
    by (simp add: evaluate_state op_defs evaluate_values evaluate_good)
  moreover have "emitted event_step event_written ?es ?s = [[''FLUSHDB'', ''3'']]"
    by (simp add: evaluate_state op_defs evaluate_values)
  moreover have "map snd (emitted event_step event_log ?es ?s) = [[''FLUSHDB'', ''3''], [''DEL'', ''3'', ''k'']]"
    by (simp add: evaluate_state op_defs evaluate_values evaluate_spec)
  moreover have "aofChan ?s \<noteq> None" "pending ?s = []"
    by (simp_all add: NewStore_def pending_def make_chan_def)
  ultimately show ?thesis using log_is_conserved [of ?es ?s s'] by simp
qed



text \<open>
  C24: \<open>LRANGE\<close> returns the elements at the positions between start and stop, negative positions counting from the end,
  for every pair of 64-bit or larger integers; it never slices out of range.
\<close>

theorem lrange_returns_the_range:
  assumes "good i s" and "fmlookup (data s ! nat i) k = Some v" and "\<not> IsExpired now v"
    and "AsList v = Inr xs"
  shows "Store_LRange s now i k start stop = Ret (Inr (map ((!) xs)
    (filter (\<lambda>p. from_end (length xs) start \<le> int p \<and> int p \<le> from_end (length xs) stop) [0..<length xs])))"
  using LRange_spec [OF assms] by (simp add: range_spec_def)

definition list_store :: Store where
  "list_store = (NewStore None)\<lparr>data := (data (NewStore None))[3 := fmupd ''l'' (NewListValue [GStr ''a'', GStr ''b'', GStr ''c'']) fmempty]\<rparr>"

lemma good_list_store: "good 3 list_store"
  by (simp add: list_store_def evaluate_state evaluate_good evaluate_values)

theorem lrange_returns_the_range_witness:
  "Store_LRange list_store 5 3 ''l'' (-2) 10 = Ret (Inr [GStr ''b'', GStr ''c''])"
  using lrange_returns_the_range [OF good_list_store, of "''l''" "NewListValue [GStr ''a'', GStr ''b'', GStr ''c'']" 5 _ "-2" 10]
  by (simp add: list_store_def data_NewStore database_update_3 evaluate_values from_end_def upt_conv_Cons)



text \<open>
  C26: \<open>SCAN\<close> can crash the process: with a cursor inside the key space and a count that makes their sum overflow, the end of the
  window is negative and the slice expression panics.
\<close>

theorem scan_overflow_panics:
  assumes "valid_index s i" and "0 < cursor" and "cursor < int (length (live_keys now (data s ! nat i) order))"
    and "cursor \<le> max_int" and "count = max_int"
  shows "Store_Scan re s now i cursor pattern count order = Panic"
proof -
  have "wrap64 (cursor + max_int) = cursor - 9223372036854775809"
  proof -
    have "(cursor - 1 + 18446744073709551616) mod 18446744073709551616 = cursor - 1"
      using assms(2,4) by (simp only: mod_add_self2) (simp add: max_int_def)
    then show ?thesis by (simp add: wrap64_def max_int_def algebra_simps)
  qed
  with assms show ?thesis
    by (simp add: Store_Scan_def db_at_def Let_def go_slice_def max_int_def)
qed

text \<open>
  C27: \<open>INCR\<close> and \<open>DECR\<close> do not detect overflow. At the largest 64-bit integer \<open>INCR\<close> stores and returns the smallest one,
  where Redis reports an error.
\<close>

theorem incr_wraps_around:
  assumes "ready i s" and "fmlookup (data s ! nat i) k = Some v" and "Type v = TypeString"
    and "Data v = GStr (Itoa max_int)"
  shows "\<exists>s'. Store_Incr s i k = Ret (Inr min_int, s') \<and>
    fmlookup (data s' ! nat i) k = Some (v\<lparr>Data := GStr (Itoa min_int)\<rparr>)"
proof -
  have "Atoi (Itoa max_int) = (max_int, None)" by (rule Atoi_Itoa) (simp add: int_bounds)
  moreover have "wrap64 (max_int + 1) = min_int" by (simp add: wrap64_def int_bounds)
  moreover have "wf_value (v\<lparr>Data := GStr x\<rparr>)" for x using assms(3) by (simp add: wf_value_def)
  ultimately show ?thesis using assms
    by (auto simp: Store_Incr_def add_step_def ready_simps Let_def ready_def good_def)
qed

text \<open>
  Renaming a key to itself deletes it, and logs that.
\<close>

theorem rename_to_itself_deletes:
  assumes "ready i s" and "fmlookup (data s ! nat i) k = Some v" and "\<not> IsExpired now v"
  shows "run_op now i (OpRename k k) s = Ret (with_sent (put_db s i (fmdrop k (data s ! nat i))) [''RENAME'', Itoa i, k, k])"
proof -
  have "fmdrop k (fmupd k v (data s ! nat i)) = fmdrop k (data s ! nat i)" by (rule fmap_ext) simp
  with Rename_spec [OF assms(1), of now k k] assms(2,3) show ?thesis
    by (simp add: rename_spec_def result_of_def)
qed

text \<open>
  C28: \<open>HSET\<close> does not depend on the order in which the map of fields is ranged over: for every order, the hash is the old one
  overwritten with the fields, and the count is the number of fields that are new.
\<close>

theorem hset_is_order_independent:
  assumes "enumerates order flds"
  shows "hset_loop flds order 0 h = (int (length (filter (\<lambda>f. fmlookup h f = None) order)),
    h ++\<^sub>f fmmap (\<lambda>x. GStr (Sprintf_v x)) flds)"
proof (rule prod_eqI)
  have "\<forall>f \<in> set order. fmlookup flds f \<noteq> None"
    using enumerates_set [OF assms] by auto
  with assms show "fst (hset_loop flds order 0 h) = fst (int (length (filter (\<lambda>f. fmlookup h f = None) order)),
      h ++\<^sub>f fmmap (\<lambda>x. GStr (Sprintf_v x)) flds)"
    by (simp add: hset_loop_count enumerates_def)
  show "snd (hset_loop flds order 0 h) = snd (int (length (filter (\<lambda>f. fmlookup h f = None) order)),
      h ++\<^sub>f fmmap (\<lambda>x. GStr (Sprintf_v x)) flds)"
    using assms by (simp add: hset_loop_hash enumerates_def)
qed

theorem scan_overflow_panics_witness:
  "Store_Scan (\<lambda>_. Inl []) ((NewStore None)\<lparr>data := [fmupd ''a'' (NewStringValue []) (fmupd ''b'' (NewStringValue []) fmempty)]\<rparr>)
     5 0 1 ''*'' max_int [''a'', ''b''] = Panic"
  by (rule scan_overflow_panics) (simp_all add: valid_index_def live_keys_def evaluate_values max_int_def)

definition counter_store :: Store where
  "counter_store = (NewStore (Some (make_chan 100)))\<lparr>data := (data (NewStore None))
     [3 := fmupd ''n'' \<lparr>Type = TypeString, Data = GStr (Itoa max_int), ExpiresAt = Some 4\<rparr> fmempty]\<rparr>"

lemma ready_counter_store: "ready 3 counter_store"
  by (simp add: counter_store_def evaluate_state evaluate_good evaluate_values)

lemma counter_value: "fmlookup (data counter_store ! nat 3) ''n'' =
    Some \<lparr>Type = TypeString, Data = GStr (Itoa max_int), ExpiresAt = Some 4\<rparr>"
  by (simp add: counter_store_def data_NewStore database_update_3)

theorem incr_wraps_around_witness: "\<exists>s'. Store_Incr counter_store 3 ''n'' = Ret (Inr min_int, s')"
  using incr_wraps_around [OF ready_counter_store counter_value] by auto

theorem rename_to_itself_deletes_witness:
  "run_op 3 3 (OpRename ''n'' ''n'') counter_store =
     Ret (with_sent (put_db counter_store 3 (fmdrop ''n'' (data counter_store ! nat 3))) [''RENAME'', ''3'', ''n'', ''n''])"
  using rename_to_itself_deletes [OF ready_counter_store counter_value, of 3]
  by (simp add: IsExpired_def Time_After_def Itoa_texts)

theorem hset_is_order_independent_witness:
  "hset_loop (fmupd ''f'' (GStr ''1'') (fmupd ''g'' (GStr ''2'') fmempty)) [''g'', ''f''] 0 fmempty =
     (2, fmempty ++\<^sub>f fmmap (\<lambda>x. GStr (Sprintf_v x)) (fmupd ''f'' (GStr ''1'') (fmupd ''g'' (GStr ''2'') fmempty)))"
  using hset_is_order_independent [of "[''g'', ''f'']" "fmupd ''f'' (GStr ''1'') (fmupd ''g'' (GStr ''2'') fmempty)" fmempty]
  by (simp add: enumerates_def insert_commute del: hset_loop.simps) (simp add: finsert_commute)

section \<open>Behaviour that surprises\<close>

text \<open>
  C29: Authentication is never required. A registered command with valid arguments is executed for any
  connection, whether it has authenticated or not.
\<close>

theorem authentication_is_never_required:
  assumes "Registry_Get NewRegistry name = Some cmd" and "cmd_Validate cmd args = None"
  shows "executeCommand NewRegistry env c (arr (map bulk (name # args))) s =
    cmd_Execute cmd (conn_context env c (getCurrentDb s c)) args s"
  using assms(2) Registry_Get_member [OF assms(1)]
  by (intro executeCommand_command) simp_all

theorem authentication_is_never_required_witness:
  "\<not> isAuthenticates sample_server 7 \<and>
   executeCommand NewRegistry sample_env 7 (arr (map bulk [''FLUSHALL''])) sample_server =
     cmd_Execute FlushAllCommand (conn_context sample_env 7 0) [] sample_server"
proof
  show "\<not> isAuthenticates sample_server 7"
    by (simp add: isAuthenticates_def sample_conn newConn_def)
  have "FlushAllCommand \<in> set all_commands" by (simp add: all_commands_def)
  moreover have "ToUpper ''FLUSHALL'' = cmd_Name FlushAllCommand" by (simp add: FlushAllCommand_def sample_upper)
  ultimately have "Registry_Get NewRegistry ''FLUSHALL'' = Some FlushAllCommand"
    by (rule Registry_Get_command)
  from authentication_is_never_required [OF this, of "[]" sample_env 7 sample_server]
  show "executeCommand NewRegistry sample_env 7 (arr (map bulk [''FLUSHALL''])) sample_server =
      cmd_Execute FlushAllCommand (conn_context sample_env 7 0) [] sample_server"
    by (simp add: FlushAllCommand_def sample_conn)
qed

text \<open>
  C30: After a crash, the writes since the last snapshot are lost although the log holds them: with both
  mechanisms enabled and a readable snapshot, \<open>Start\<close> restores the snapshot and never reads the log.
\<close>

theorem crash_loses_logged_writes:
  assumes "gob_inverse enc dec" and "SaveSnapshot enc None st old = (None, rdbFile)"
    and "cfg_UseRDB config" and "cfg_UseAOF config"
  shows "\<exists>t. Start dec clk rdbFile (Inr (fst (AOFWriter cmds file))) (NewServer config) = Ret t \<and>
    data (srv_store t) = data st"
  using load_saved [OF assms(1,2), of "srv_store (NewServer config)"] assms(3,4)
  by (simp add: Start_def recoverStore_def NewServer_def)

theorem crash_loses_logged_writes_witness:
  "\<exists>t. Start (sample_dec (data (NewStore None))) (\<lambda>_. 0) (Inr ''gob'')
      (Inr (fst (AOFWriter [[''SET'', ''0'', ''k'', ''v'']] []))) (NewServer NewConfig) = Ret t \<and>
     data (srv_store t) = data (NewStore None)"
  by (rule crash_loses_logged_writes [OF sample_gob, where old = "Inl ''absent''"])
    (simp_all add: SaveSnapshot_def GetSnapshot_data sample_enc_def NewConfig_def)

text \<open>
  C31: An orderly shutdown can lose acknowledged writes. When the server persists by the log only, \<open>Shutdown\<close> closes the
  log channel and \<open>main\<close> ends the process without waiting for the writer: from any state in which the file is still
  empty, whatever the clients have set, the process may leave files on which the next one starts empty.
\<close>

theorem shutdown_loses_pending_writes:
  assumes "main_start dec clk listen getenv files = Ret w0" and "snapshots_ok dec" and "reachable NewRegistry enc w0 w"
    and "getenv ''USE_RDB'' \<notin> {[], ''true''}" and "getenv ''USE_AOF'' \<in> {[], ''true''}" and "w_aof w = []"
  shows "\<exists>files'. session enc dec create getenv files w files' \<and>
    (\<forall>clk'. \<exists>w'. main_start dec clk' None getenv files' = Ret w' \<and>
      data (srv_store (w_server w')) = replicate 16 fmempty)"
proof -
  note ok = session_world [OF assms(1,3,2)]
  have use: "\<not> cfg_UseRDB (main_config getenv)" "cfg_UseAOF (main_config getenv)"
    using assms(4,5) by (simp_all add: main_config_persistence)
  let ?f = "\<lparr>f_rdb = w_rdb w, f_aof = Inr []\<rparr>"
  have "session enc dec create getenv files w ?f"
    by (rule session.intros [OF assms(1,3), of "[]"])
      (simp_all add: main_stop_files [OF ok [THEN conjunct1]] ok use assms(6))
  moreover have "\<exists>w'. main_start dec clk' None getenv ?f = Ret w' \<and> data (srv_store (w_server w')) = replicate 16 fmempty" for clk'
    using use by (simp add: main_start_def Start_def recoverStore_def RebuildStoreFromAOF_def NewServer_def NewStore_def started_def Let_def)
  ultimately show ?thesis by blast
qed

theorem shutdown_loses_pending_writes_witness:
  "\<exists>files' w'. session (\<lambda>_. ([], None)) (\<lambda>_. Inl ''EOF'') None aof_only no_files (set_world aof_only) files' \<and>
     fmlookup (data (srv_store (w_server (set_world aof_only))) ! 0) ''k'' = Some (NewStringValue ''v'') \<and>
     main_start (\<lambda>_. Inl ''EOF'') (\<lambda>_. 0) None aof_only files' = Ret w' \<and>
     data (srv_store (w_server w')) = replicate 16 fmempty"
proof -
  have "snapshots_ok (\<lambda>_. Inl ''EOF'')" by (simp add: snapshots_ok_def)
  from shutdown_loses_pending_writes [OF first_start this plain_run_reachable [OF set_run], where create = None and getenv = aof_only]
  show ?thesis using set_store_value by (simp add: set_world_facts aof_only_def) metis
qed



text \<open>
  C33: A server without a log writer stops answering. \<open>NewServer\<close> always makes the log channel, of
  capacity 100, but only \<open>UseAOF\<close> starts the goroutine that takes from it: without the steps of that
  goroutine, more than 100 \<open>SET\<close> requests wait for ever.
\<close>

theorem writes_block_without_log_writer:
  assumes "100 < length ks"
  shows "run_steps (\<lambda>k. handle_request NewRegistry env c (arr (map bulk [''SET'', k, v]))) ks
    (open_conn c (NewServer config)) = Block"
  by (rule set_requests_block [where ch = "make_chan 100"])
    (use assms in \<open>simp_all add: open_conn_def NewServer_def newConn_def conn_mode_of_def getCurrentDb_def Let_def
      valid_index_def NewStore_def make_chan_def chan_room_def\<close>)

theorem writes_block_without_log_writer_witness:
  "run_steps (\<lambda>k. handle_request NewRegistry sample_env 7 (arr (map bulk [''SET'', k, ''v'']))) (replicate 101 ''k'')
     (open_conn 7 (NewServer (NewConfig\<lparr>cfg_UseAOF := False\<rparr>))) = Block"
  by (rule writes_block_without_log_writer) simp

text \<open>
  C34: A key set with \<open>PX\<close> below one second is logged with an expiry of 0 seconds. It lives for its
  milliseconds in the server, and after recovery it expires at the moment it is replayed.
\<close>

theorem short_px_expires_on_recovery:
  assumes "ready i s" and "aofChan s \<noteq> None" and "in_int i" and "0 < ms" and "ms < 1000"
    and "scratch_store t"
  shows "(\<exists>s'. Store_Set s now i k (GStr v) [''PX'', Itoa ms] = Ret (Inr True, s') \<and>
      pending s' = pending s @ [[''SET'', Itoa i, k, v], [''EXPIRE'', Itoa i, k, ''0'']] \<and>
      map_option ExpiresAt (fmlookup (data s' ! nat i) k) = Some (Some (now + ms * 1000000))) \<and>
    (\<exists>t'. replay [(later, [''SET'', Itoa i, k, v]), (later, [''EXPIRE'', Itoa i, k, ''0''])] t = Ret t' \<and>
      map_option ExpiresAt (fmlookup (data t' ! nat i) k) = Some (Some later))"
proof -
  have i: "0 \<le> i" "nat i < 16" "nat i < length (data s)"
    using assms(1) by (auto simp: ready_def good_def wf_store_def valid_index_def)
  have "\<exists>s'. Store_Set s now i k (GStr v) [''PX'', Itoa ms] = Ret (Inr True, s') \<and>
      pending s' = pending s @ [[''SET'', Itoa i, k, v], [''EXPIRE'', Itoa i, k, ''0'']] \<and>
      map_option ExpiresAt (fmlookup (data s' ! nat i) k) = Some (Some (now + ms * 1000000))"
    using assms(2,4,5) i
    by (simp add: Store_Set_def short_px_options set_write_spec [OF assms(1)] set_log_spec_def Itoa_zero
        pending_def with_sent_def put_db_def wrap64_def set_value_spec_def split: option.splits)
  moreover have "\<exists>t'. replay [(later, [''SET'', Itoa i, k, v]), (later, [''EXPIRE'', Itoa i, k, ''0''])] t = Ret t' \<and>
      map_option ExpiresAt (fmlookup (data t' ! nat i) k) = Some (Some later)"
  proof -
    let ?t = "put_db t i (fmupd k (set_value_spec later v no_options) (data t ! nat i))"
    have t: "good i t" "aofChan t = None" "nat i < length (data t)"
      using assms(6) i by (auto simp: scratch_store_def good_def aof_open_def wf_store_def valid_index_def)
    have set: "dispatchAOF later [''SET'', Itoa i, k, v] t = Ret ?t"
      using dispatch_put [OF t(1,2), of "OpSet k v []" later]
      by (simp add: dispatch_ops(1) [OF assms(3)] set_spec_def)
    have "safely (dispatchAOF later [''SET'', Itoa i, k, v] t) (good i)"
      unfolding dispatch_ops(1) [OF assms(3)] by (rule safely_run_op [OF t(1)])
    with set t(2) have u: "good i ?t" "aofChan ?t = None" by (simp_all add: put_db_def)
    have "dispatchAOF later [''EXPIRE'', Itoa i, k, ''0''] ?t =
        Ret (put_db ?t i (fst (db_spec later i (OpExpire k (Duration_mul 0 Second)) (data ?t ! nat i))))"
      using dispatch_put [OF u, of "OpExpire k (Duration_mul 0 Second)" later] dispatch_ops(3) [OF assms(3), of 0 later k ?t]
      by (simp add: Itoa_zero int_bounds)
    with set t(3) show ?thesis by (simp add: put_db_def Duration_mul_def wrap64_def)
  qed
  ultimately show ?thesis ..
qed

theorem short_px_expires_on_recovery_witness:
  "\<exists>t'. replay [(5, [''SET'', Itoa 3, ''k'', ''v'']), (5, [''EXPIRE'', Itoa 3, ''k'', ''0''])] (NewStore None) = Ret t' \<and>
     map_option ExpiresAt (fmlookup (data t' ! nat 3) ''k'') = Some (Some 5)"
proof -
  have "in_int 3" "(0 :: int) < 250" "(250 :: int) < 1000" "aofChan (NewStore (Some (make_chan 100))) \<noteq> None"
    "scratch_store (NewStore None)"
    by (simp_all add: int_bounds aofChan_NewStore scratch_store_def wf_store_valid)
  from short_px_expires_on_recovery [OF ready_NewStore this(4,1,2,3,5)] show ?thesis by simp
qed

text \<open>
  C35: The name of an unknown command is echoed in the error reply with its newlines, so a client that
  relays a name from elsewhere reads as its next reply whatever value the name carries.
\<close>

theorem error_replies_can_be_injected:
  assumes "Registry_Get NewRegistry (line @ CRLF @ fst (Encode v)) = None" and "CHR 0x0A \<notin> set line"
    and "wire_ok v"
  shows "\<exists>reply rest. executeCommand NewRegistry env c (arr [bulk (line @ CRLF @ fst (Encode v))]) s = Ret (Inr (Some reply), s) \<and>
    Parse (fst (Encode reply)) = Ret (Inr (ErrorString (''ERR unknown command '' @ [CHR 0x27] @ line)), fst (Encode v) @ rest) \<and>
    Parse (fst (Encode v) @ rest) = Ret (Inr (wire_canon v), rest)"
proof -
  let ?line = "''ERR unknown command '' @ [CHR 0x27] @ line"
  let ?rest = "CHR 0x27 # CRLF"
  let ?reply = "ErrorString (?line @ CRLF @ fst (Encode v) @ [CHR 0x27])"
  have "executeCommand NewRegistry env c (arr [bulk (line @ CRLF @ fst (Encode v))]) s = Ret (Inr (Some ?reply), s)"
    using assms(1) convert_bulks_Cons [of "line @ CRLF @ fst (Encode v)" "[]"]
    by (simp add: executeCommand_def Registry_Get_def replies_def)
  moreover have "wire_ok (ErrorString ?line)" using assms(2) by simp
  then have "Parse (fst (Encode (ErrorString ?line)) @ (fst (Encode v) @ ?rest)) =
      Ret (Inr (ErrorString ?line), fst (Encode v) @ ?rest)"
    using resp2.parse_encode [of "ErrorString ?line"] by simp
  moreover have "fst (Encode ?reply) = fst (Encode (ErrorString ?line)) @ (fst (Encode v) @ ?rest)"
    by (simp add: encodeErrorString_def)
  ultimately show ?thesis using resp2.parse_encode [OF assms(3), of ?rest] by metis
qed

theorem error_replies_can_be_injected_witness:
  "\<exists>reply rest. executeCommand NewRegistry sample_env 7 (arr [bulk (''x'' @ CRLF @ fst (Encode (SimpleString ''OK'')))]) sample_server =
      Ret (Inr (Some reply), sample_server) \<and>
    Parse (fst (Encode reply)) = Ret (Inr (ErrorString (''ERR unknown command '' @ [CHR 0x27] @ ''x'')),
      fst (Encode (SimpleString ''OK'')) @ rest)"
proof -
  have "ToUpper (''x'' @ CRLF @ fst (Encode (SimpleString ''OK''))) = ''X'' @ CRLF @ ''+OK'' @ CRLF" by code_simp
  moreover have "''X'' @ CRLF @ ''+OK'' @ CRLF \<notin> set (map cmd_Name all_commands)" by (simp add: command_names)
  ultimately have "Registry_Get NewRegistry (''x'' @ CRLF @ fst (Encode (SimpleString ''OK''))) = None"
    by (simp add: Registry_Get_NewRegistry map_of_eq_None_iff image_comp comp_def)
  from error_replies_can_be_injected [OF this, of sample_env 7 sample_server] show ?thesis by auto
qed

text \<open>
  C36: The answer to \<open>PING\<close> in subscriber mode announces three elements and sends two, so the parser of
  a client takes the next reply as the third.
\<close>

theorem subscriber_ping_swallows_next_reply:
  assumes "wire_ok v"
  shows "Parse (subscriber_pong @ fst (Encode v) @ rest) =
    Ret (Inr (arr [bulk ''pong'', bulk [], wire_canon v]), rest)"
proof -
  have e: "subscriber_pong @ fst (Encode v) @ rest = fst (Encode (arr [bulk ''pong'', bulk [], v])) @ rest"
    using resp2.encode_ok [OF assms]
    by (cases "Encode v")
      (simp add: subscriber_pong_def array_header_def encodeBulkString_def Itoa_texts)
  have "wire_ok (arr [bulk ''pong'', bulk [], v])" using assms by simp
  from resp2.parse_encode [OF this, of rest] show ?thesis unfolding e by simp
qed

theorem subscriber_ping_swallows_next_reply_witness:
  "Parse (subscriber_pong @ fst (Encode (SimpleString ''OK'')) @ []) =
     Ret (Inr (arr [bulk ''pong'', bulk [], SimpleString ''OK'']), [])"
  using subscriber_ping_swallows_next_reply [of "SimpleString ''OK''" "[]"] by simp

text \<open>
  \<open>QUIT\<close> answers OK and leaves the connection open: the handler goes on with the rest of the input.
\<close>

theorem quit_keeps_serving:
  assumes "conn_mode_of s c = ModeNormal" and "c |\<notin>| closedConns s"
  shows "handle_turn NewRegistry env c (fst (Encode (arr [bulk ''QUIT''])) @ rest) s =
      Ret (Some rest, write_value c (SimpleString ''OK'') s) \<and>
    c |\<notin>| closedConns (write_value c (SimpleString ''OK'') s)"
proof -
  have "wire_ok (arr [bulk ''QUIT''])" by simp
  note p = resp2.parse_encode [OF this, of rest]
  have "QuitCommand \<in> set all_commands" by (simp add: all_commands_def)
  moreover have "ToUpper ''QUIT'' = cmd_Name QuitCommand" by (simp add: QuitCommand_def sample_upper)
  ultimately have "executeCommand NewRegistry env c (arr [bulk ''QUIT'']) s = Ret (Inr (Some (SimpleString ''OK'')), s)"
    using executeCommand_command [of QuitCommand "''QUIT''" "[]" env c s]
    by (simp add: QuitCommand_def replies_def OK_def)
  with p assms show ?thesis
    by (simp add: handle_turn_def handle_request_def answer_def) (simp add: write_value_def write_bytes_def)
qed

theorem quit_keeps_serving_witness:
  "handle_turn NewRegistry sample_env 7 (fst (Encode (arr [bulk ''QUIT''])) @ ''*0'') sample_server =
     Ret (Some ''*0'', write_value 7 (SimpleString ''OK'') sample_server)"
  using quit_keeps_serving [of sample_server 7 sample_env "''*0''"] sample_conn
  by (simp add: sample_server_def open_conn_def NewServer_def Let_def)

text \<open>
  C37: The reply of \<open>RPOP\<close> with a count can be overwritten. The store and the returned slice are right when
  \<open>RPop\<close> gives up the lock, and the list is right after a following \<open>RPush\<close>; but the returned slice shares
  its array, and a push of no more elements writes over it, so that the elements that the handler of \<open>RPOP\<close> then
  encodes are the pushed ones.
\<close>

theorem popped_reply_is_overwritten:
  assumes "wf_slice h list" and "0 < n" and "n \<le> sl_len list" and "length vs \<le> n"
    and "slice_rpop list n = (popped, rest)" and "slice_rpush grow h rest vs = (h', rest')"
    and "valid_index s i" and "aof_room s 2"
    and "fmlookup (data s ! nat i) k = Some v" and "\<not> IsExpired now v" and "AsList v = Inr (contents h list)"
  shows "\<exists>s1 s2. Store_RPop s now i k (Some (int n)) = Ret (Inr (GList (contents h popped)), s1) \<and>
    Store_RPush s1 i k vs = Ret (Inr (int (sl_len list - n + length vs)), s2) \<and>
    map_option Data (fmlookup (data s2 ! nat i) k) = Some (GList (contents h' rest')) \<and>
    contents h' popped = vs @ drop (length vs) (contents h popped)"
proof -
  note c = rpop_rpush [OF assms(1,3,4,5,6)]
  have len: "length (contents h list) = sl_len list" by (rule contents_length [OF assms(1)])
  let ?xs = "contents h list"
  let ?rest = "take (sl_len list - n) ?xs"
  have room: "aof_room s (Suc (Suc 0))" using assms(8) by (simp add: numeral_2_eq_2)
  define s1 where "s1 = with_sent (put_db s i (fmupd k (v\<lparr>Data := GList ?rest\<rparr>) (data s ! nat i))) [''RPOP'', Itoa i, k, Itoa (int n)]"
  have idx: "nat i < length (data s)" using assms(7) by (simp add: valid_index_def nat_less_iff)
  have "Store_RPop s now i k (Some (int n)) = Ret (Inr (GList (contents h popped)), s1)"
    using assms(2,3,7,9-11) room len
    by (simp add: Store_RPop_def lookup_def db_at_def go_slice_def Let_def setKey_def appendAOF_room dbIndexArg_def
        pop_reply_def c(1) s1_def nat_diff_distrib int_ops)
  moreover have r1: "aof_room s1 (Suc 0)" unfolding s1_def using room by (intro aof_room_sent) simp
  have "AsList (v\<lparr>Data := GList ?rest\<rparr>) = Inr ?rest"
    using assms(11) by (auto simp: AsList_def split: if_splits)
  then have "\<exists>s2. Store_RPush s1 i k vs = Ret (Inr (int (sl_len list - n + length vs)), s2) \<and>
    map_option Data (fmlookup (data s2 ! nat i) k) = Some (GList (?rest @ vs))"
    using assms(3,7) r1 len idx
    by (simp add: Store_RPush_def lookup_def db_at_def Let_def setKey_def appendAOF_room dbIndexArg_def s1_def put_db_sent)
  ultimately show ?thesis using c(2,3) by metis
qed

theorem popped_reply_is_overwritten_witness:
  "\<exists>s1 s2 h' rest' popped. Store_RPop sample_list_store 0 3 ''l'' (Some 2) = Ret (Inr (GList [GStr ''b'', GStr ''c'']), s1) \<and>
     Store_RPush s1 3 ''l'' [GStr ''x''] = Ret (Inr 2, s2) \<and> contents h' popped = [GStr ''x'', GStr ''c'']"
proof -
  obtain popped rest where p: "slice_rpop sample_slice 2 = (popped, rest)" by (cases "slice_rpop sample_slice 2")
  obtain h' rest' where r: "slice_rpush (\<lambda>c n. 2 * c) sample_arrays rest [GStr ''x''] = (h', rest')"
    by (cases "slice_rpush (\<lambda>c n. 2 * c) sample_arrays rest [GStr ''x'']")
  have len: "sl_len sample_slice = 3" by (simp add: sample_slice_def)
  have "contents sample_arrays popped = [GStr ''b'', GStr ''c'']"
    using p by (auto simp: slice_defs sample_slice_def contents_def array_of_def sample_arrays_def)
  moreover have "\<not> IsExpired 0 (NewListValue [GStr ''a'', GStr ''b'', GStr ''c''])"
    "AsList (NewListValue [GStr ''a'', GStr ''b'', GStr ''c'']) = Inr (contents sample_arrays sample_slice)"
    by (simp_all add: sample_list NewListValue_def IsExpired_def AsList_def)
  ultimately show ?thesis
    using popped_reply_is_overwritten [OF sample_list(1) _ _ _ p r sample_list(3-5)] by (simp add: len) blast
qed

text \<open>
  C38: \<open>SETNX\<close> is not atomic. When two clients have sent a \<open>SETNX\<close> for the same free key, the server has a run in
  which both check before either writes: both are answered 1, and the second value stays.
\<close>

theorem setnx_race_answers_both:
  assumes "fmlookup (w_inputs w) a = Some input" and "fmlookup (w_inputs w) b = Some input'" and "a \<noteq> b"
    and "fmlookup (w_phases w) a = None" and "fmlookup (w_phases w) b = None"
    and "Parse input = Ret (Inr (arr (map bulk [''SETNX'', k, v])), rest)"
    and "Parse input' = Ret (Inr (arr (map bulk [''SETNX'', k, v'])), rest')"
    and "conn_mode_of (w_server w) a = ModeNormal" and "conn_mode_of (w_server w) b = ModeNormal"
    and "getCurrentDb (w_server w) a = i" and "getCurrentDb (w_server w) b = i"
    and "fmlookup (data (srv_store (w_server w)) ! nat i) k = None"
    and "valid_index (srv_store (w_server w)) i" and "aof_room (srv_store (w_server w)) 2"
    and "a |\<notin>| closedConns (w_server w)" and "b |\<notin>| closedConns (w_server w)"
  shows "\<exists>w'. reachable NewRegistry enc w w' \<and>
    output_of (w_server w') a = output_of (w_server w) a @ fst (Encode (Integer 1)) \<and>
    output_of (w_server w') b = output_of (w_server w) b @ fst (Encode (Integer 1)) \<and>
    fmlookup (data (srv_store (w_server w')) ! nat i) k = Some (NewStringValue v')"
proof -
  let ?st = "with_sent (put_db (w_store w) i (fmupd k (NewStringValue v) (data (w_store w) ! nat i))) [''SET'', Itoa i, k, v]"
  let ?st' = "with_sent (put_db ?st i (fmupd k (NewStringValue v') (data ?st ! nat i))) [''SET'', Itoa i, k, v']"
  let ?w1 = "w\<lparr>w_inputs := fmupd a rest (w_inputs w), w_phases := fmupd a (Storing i k v) (w_phases w)\<rparr>"
  let ?w2 = "?w1\<lparr>w_inputs := fmupd b rest' (w_inputs ?w1), w_phases := fmupd b (Storing i k v') (w_phases ?w1)\<rparr>"
  let ?w3 = "?w2\<lparr>w_server := write_value a (Integer 1) ((w_server ?w2)\<lparr>srv_store := ?st\<rparr>),
    w_phases := fmdrop a (w_phases ?w2)\<rparr>"
  let ?w4 = "?w3\<lparr>w_server := write_value b (Integer 1) ((w_server ?w3)\<lparr>srv_store := ?st'\<rparr>),
    w_phases := fmdrop b (w_phases ?w3)\<rparr>"
  have n: "nat i < length (data (w_store w))" using assms(13) by (simp add: valid_index_def nat_less_iff)
  have r: "aof_room (w_store w) (Suc (Suc 0))" using assms(14) by (simp add: numeral_2_eq_2)
  then have r1: "aof_room ?st (Suc 0)" by (intro aof_room_sent) simp
  have free: "setnx_check (w_store w) now i k = Ret False" for now
    using assms(12,13) by (simp add: setnx_check_def Store_Exists_def lookup_def db_at_def present_def)
  have "server_step NewRegistry enc w ?w1"
    using assms free by (intro check_setnx [where v = "arr (map bulk [''SETNX'', k, v])" and name = "''SETNX''"])
      (simp_all del: list.map)
  moreover have "server_step NewRegistry enc ?w1 ?w2"
    using assms free by (intro check_setnx [where v = "arr (map bulk [''SETNX'', k, v'])" and name = "''SETNX''"])
      (simp_all del: list.map)
  moreover have "server_step NewRegistry enc ?w2 ?w3"
    by (rule store_setnx [where i = i and k = k and val = v])
      (use assms(3) setnx_store_room [OF assms(13) r, of _ k v] in simp_all)
  moreover have "server_step NewRegistry enc ?w3 ?w4"
    by (rule store_setnx [where i = i and k = k and val = v'])
      (use assms(3,13) setnx_store_room [of ?st i _ _ k v', OF _ r1] in \<open>simp_all add: serve_conn\<close>)
  ultimately have "reachable NewRegistry enc w ?w4"
    unfolding reachable_def by (meson rtranclp.rtrancl_into_rtrancl rtranclp.rtrancl_refl)
  then show ?thesis
    using n assms(3,15,16) by (intro exI [of _ ?w4])
      (simp add: serve_conn put_db_def output_written write_value_closed del: Encode.simps)
qed

theorem setnx_race_answers_both_witness:
  "\<exists>w'. reachable NewRegistry (\<lambda>_. ([], None))
      (two_clients [''SETNX'', ''k'', ''v''] [''SETNX'', ''k'', ''w''] (NewStore (Some (make_chan 100)))) w' \<and>
    output_of (w_server w') 7 = fst (Encode (Integer 1)) \<and> output_of (w_server w') 8 = fst (Encode (Integer 1)) \<and>
    fmlookup (data (srv_store (w_server w')) ! 0) ''k'' = Some (NewStringValue ''w'')"
proof -
  let ?w = "two_clients [''SETNX'', ''k'', ''v''] [''SETNX'', ''k'', ''w''] (NewStore (Some (make_chan 100)))"
  have "fmlookup (data (NewStore (Some (make_chan 100))) ! nat 0) ''k'' = None" "valid_index (NewStore (Some (make_chan 100))) 0"
    "aof_room (NewStore (Some (make_chan 100))) 2"
    by (simp_all add: NewStore_def valid_index_def aof_room_def make_chan_def chan_room_def)
  with setnx_race_answers_both [of ?w 7 _ 8 _ "''k''" "''v''" "[]" "''w''" "[]" 0 "\<lambda>_. ([], None)",
      OF two_clients_facts(1,2) _ two_clients_facts(3,3) client_request_parses client_request_parses two_clients_facts(4,5,6,6)]
  show ?thesis by (simp add: two_clients_facts two_clients_output del: Encode.simps)
qed

text \<open>
  C39: \<open>GET\<close> can delete a value that was just set. When a client has sent \<open>GET\<close> for a key whose value expires
  between the two looks at the clock, another client's \<open>SET\<close> of the key can come between them: it is answered OK, the key
  has the new value, and then the handler of \<open>GET\<close> deletes it. The log has the \<open>SET\<close> and no deletion, so that the
  value a recovery brings back is not the one the clients saw.
\<close>

theorem get_deletes_a_fresh_value:
  assumes "fmlookup (w_inputs w) a = Some input" and "fmlookup (w_inputs w) b = Some input'" and "a \<noteq> b"
    and "fmlookup (w_phases w) a = None" and "fmlookup (w_phases w) b = None"
    and "Parse input = Ret (Inr (arr (map bulk [''GET'', k])), rest)"
    and "Parse input' = Ret (Inr (arr (map bulk [''SET'', k, v])), rest')"
    and "conn_mode_of (w_server w) a = ModeNormal" and "conn_mode_of (w_server w) b = ModeNormal"
    and "getCurrentDb (w_server w) a = i" and "getCurrentDb (w_server w) b = i"
    and "Store_Get (srv_store (w_server w)) now i k = Ret (Some old)" and "IsExpired now' old"
    and "valid_index (srv_store (w_server w)) i" and "aof_room (srv_store (w_server w)) 1"
    and "b |\<notin>| closedConns (w_server w)"
  shows "\<exists>w1 w2 w3. server_step NewRegistry enc w w1 \<and> server_step NewRegistry enc w1 w2 \<and>
    server_step NewRegistry enc w2 w3 \<and>
    output_of (w_server w2) b = output_of (w_server w) b @ fst (Encode OK) \<and>
    fmlookup (data (srv_store (w_server w2)) ! nat i) k = Some (NewStringValue v) \<and>
    fmlookup (data (srv_store (w_server w3)) ! nat i) k = None \<and>
    (aofChan (srv_store (w_server w)) \<noteq> None \<longrightarrow>
      pending (srv_store (w_server w3)) = pending (srv_store (w_server w)) @ [[''SET'', Itoa i, k, v]])"
proof -
  let ?st = "with_sent (put_db (w_store w) i (fmupd k (NewStringValue v) (data (w_store w) ! nat i))) [''SET'', Itoa i, k, v]"
  let ?w1 = "w\<lparr>w_inputs := fmupd a rest (w_inputs w), w_phases := fmupd a (Deleting i k) (w_phases w)\<rparr>"
  let ?s2 = "write_value b OK ((w_server w)\<lparr>srv_store := ?st\<rparr>)"
  let ?w2 = "?w1\<lparr>w_server := ?s2, w_inputs := fmupd b rest' (w_inputs ?w1)\<rparr>"
  let ?st3 = "put_db ?st i (fmdrop k (data ?st ! nat i))"
  let ?w3 = "?w2\<lparr>w_server := write_value a EncodeNil ((w_server ?w2)\<lparr>srv_store := ?st3\<rparr>), w_phases := fmdrop a (w_phases ?w2)\<rparr>"
  have n: "nat i < length (data (w_store w))" using assms(14) by (simp add: valid_index_def nat_less_iff)
  then have put: "data (put_db (w_store w) i db) ! nat i = db" for db by (simp add: put_db_def)
  have "server_step NewRegistry enc w ?w1"
    using assms by (intro see_expired [where v = "arr (map bulk [''GET'', k])" and name = "''GET''"])
      (simp_all del: list.map)
  moreover have "server_step NewRegistry enc ?w1 ?w2"
    using serve_set_step [of ?w1 b input' k v rest' i enc] assms by simp
  moreover have "server_step NewRegistry enc ?w2 ?w3"
    by (rule delete_expired [where i = i and k = k]) (use put assms(14) in \<open>simp_all add: serve_conn Store_Delete_def delKey_def db_at_def\<close>)
  moreover have "output_of (w_server ?w2) b = output_of (w_server w) b @ fst (Encode OK)"
    using assms(16) by (simp add: output_written del: Encode.simps)
  moreover have "fmlookup (data (w_store ?w2) ! nat i) k = Some (NewStringValue v)"
    "fmlookup (data (w_store ?w3) ! nat i) k = None"
    "aofChan (w_store w) \<noteq> None \<Longrightarrow> pending (w_store ?w3) = pending (w_store w) @ [[''SET'', Itoa i, k, v]]"
    using assms(14) by (simp_all add: serve_conn pending_sent put_db_sent del: put_db_sent [symmetric])
  ultimately show ?thesis by blast
qed

theorem get_deletes_a_fresh_value_witness:
  "\<exists>w1 w2 w3. server_step NewRegistry (\<lambda>_. ([], None)) (two_clients [''GET'', ''k''] [''SET'', ''k'', ''w''] expiring_store) w1 \<and>
    server_step NewRegistry (\<lambda>_. ([], None)) w1 w2 \<and> server_step NewRegistry (\<lambda>_. ([], None)) w2 w3 \<and>
    output_of (w_server w2) 8 = fst (Encode OK) \<and>
    fmlookup (data (srv_store (w_server w2)) ! 0) ''k'' = Some (NewStringValue ''w'') \<and>
    fmlookup (data (srv_store (w_server w3)) ! 0) ''k'' = None \<and>
    pending (srv_store (w_server w3)) = [[''SET'', ''0'', ''k'', ''w'']]"
proof -
  let ?w = "two_clients [''GET'', ''k''] [''SET'', ''k'', ''w''] expiring_store"
  from expiring_store_facts get_deletes_a_fresh_value [of ?w 7 _ 8 _ "''k''" "[]" "''w''" "[]" 0 5 _ 20 "\<lambda>_. ([], None)",
      OF two_clients_facts(1,2) _ two_clients_facts(3,3) client_request_parses client_request_parses two_clients_facts(4,5,6,6)]
  show ?thesis by (simp add: two_clients_facts two_clients_output Itoa_texts del: Encode.simps)
qed

text \<open>
  The two critical sections of \<open>SETNX\<close> on a store: of two clients that both checked first both get 1; the second
  value wins.
\<close>

theorem setnx_race_sets_twice:
  assumes "valid_index s i" and "aof_room s 2" and "fmlookup (data s ! nat i) k = None"
  shows "setnx_check s t1 i k = Ret False \<and>
    (\<exists>s1 s2. setnx_store s t2 i k v = Ret (1, s1) \<and> setnx_store s1 t3 i k w = Ret (1, s2) \<and>
      fmlookup (data s2 ! nat i) k = Some (NewStringValue w))"
proof -
  let ?s1 = "with_sent (put_db s i (fmupd k (NewStringValue v) (data s ! nat i))) [''SET'', Itoa i, k, v]"
  have r: "aof_room s (Suc (Suc 0))" using assms(2) by (simp add: numeral_2_eq_2)
  then have "aof_room ?s1 (Suc 0)" by (intro aof_room_sent) simp
  moreover have "valid_index ?s1 i" using assms(1) by simp
  ultimately show ?thesis
    using setnx_store_room [OF assms(1) r, of t2 k v] setnx_store_room [of ?s1 i 0 t3 k w] assms(1,3)
    by (simp add: setnx_check_def Store_Exists_def lookup_def db_at_def present_def)
qed

theorem setnx_race_sets_twice_witness:
  "setnx_check (NewStore (Some (make_chan 100))) 0 3 ''k'' = Ret False \<and>
   (\<exists>s1 s2. setnx_store (NewStore (Some (make_chan 100))) 0 3 ''k'' ''v'' = Ret (1, s1) \<and>
      setnx_store s1 0 3 ''k'' ''w'' = Ret (1, s2) \<and>
      fmlookup (data s2 ! 3) ''k'' = Some (NewStringValue ''w''))"
  using setnx_race_sets_twice [of "NewStore (Some (make_chan 100))" 3 "''k''" 0 0 "''v''" 0 "''w''"]
    ready_NewStore [of 3]
  by (simp add: ready_def good_def data_NewStore)

text \<open>
  C40: After \<open>Shutdown\<close> has closed the log channel, a \<open>SET\<close> of a client that is still connected panics, and
  so does a second \<open>Shutdown\<close>.
\<close>

theorem write_after_shutdown_panics:
  assumes "cfg_UseAOF (srv_config s)" and "Shutdown enc create old s = Ret (rdbFile, s')"
    and "aofChan (srv_store s) \<noteq> None" and "valid_index (srv_store s) (getCurrentDb s c)"
    and "conn_mode_of s c = ModeNormal"
  shows "handle_request NewRegistry env c (arr (map bulk [''SET'', k, v])) s' = Panic \<and>
    Shutdown enc create old s' = Panic"
proof -
  obtain ch where ch: "aofChan (srv_store s) = Some ch" using assms(3) by auto
  with assms(1,2) have s': "s' = (stopAcceptLoop s)\<lparr>srv_store := (srv_store s)\<lparr>aofChan := Some (ch\<lparr>ch_closed := True\<rparr>)\<rparr>\<rparr>"
    by (auto simp: Shutdown_def Let_def stopAcceptLoop_def chan_close_def andThen_eq_Ret split: if_splits)
  have "SetCommand \<in> set all_commands" "ToUpper ''SET'' = cmd_Name SetCommand"
    "cmd_Validate SetCommand [k, v] = None"
    by (simp_all add: SetCommand_def all_commands_def)
  from executeCommand_command [OF this, of env c s'] 
  have "executeCommand NewRegistry env c (arr (map bulk [''SET'', k, v])) s' = Panic"
    by (simp add: SetCommand_def s' command_helpers Store_Set_def set_write_def parseSetOptions_def no_options_def
        appendAOF_def chan_send_def)
  moreover have "conn_mode_of s' c = ModeNormal"
    using assms(5) by (simp add: s' conn_mode_of_def stopAcceptLoop_def)
  ultimately have "handle_request NewRegistry env c (arr (map bulk [''SET'', k, v])) s' = Panic"
    by (simp add: handle_request_def answer_def)
  moreover have "Shutdown enc create old s' = Panic"
    using assms(1) by (simp add: s' Shutdown_def stopAcceptLoop_def chan_close_def Let_def)
  ultimately show ?thesis ..
qed

theorem write_after_shutdown_panics_witness:
  "\<exists>rdbFile s'. Shutdown (\<lambda>_. ([], None)) None (Inl ''absent'') sample_server = Ret (rdbFile, s') \<and>
     handle_request NewRegistry sample_env 7 (arr (map bulk [''SET'', ''k'', ''v''])) s' = Panic"
proof -
  note c = sample_config
  have "\<exists>rdbFile s'. Shutdown (\<lambda>_. ([], None)) None (Inl ''absent'') sample_server = Ret (rdbFile, s')"
    by (simp add: Shutdown_def stopAcceptLoop_def Let_def chan_close_def c NewConfig_def sample_store make_chan_def
        aofChan_NewStore)
  with write_after_shutdown_panics [where s = sample_server and c = 7] show ?thesis
    by (fastforce simp: c NewConfig_def sample_store sample_conn aofChan_NewStore valid_index_def data_NewStore)
qed

end
